(* ===== verification/Prelude.thy ===== *)
theory Prelude
  imports Main
begin

text \<open>
  The prelude of the development: Go's error values, the result and state-passing types
  the components share, and the generic lemmas on lists, folds and maps that carry the
  component proofs.

  Conventions used everywhere.
  \<^item> A Go \<^verbatim>\<open>string\<close> or \<^verbatim>\<open>[]byte\<close> is an Isabelle \<open>string\<close>: a list of bytes.
  \<^item> A Go function returning \<^verbatim>\<open>(T, error)\<close> returns \<open>'a result\<close>: \<open>Inl e\<close> is the error,
    \<open>Inr v\<close> the value with a nil error. A function returning only \<^verbatim>\<open>error\<close> returns a
    \<open>goerror option\<close>, with \<open>None\<close> for nil.
  \<^item> A call that leaves the program (an API server, a network, a clock) is a function of the
    world \<open>'w\<close> that also returns the next world. The world is a type variable, so nothing is
    assumed of it.
  \<^item> A \<^verbatim>\<open>for range\<close> loop whose body ends in \<^verbatim>\<open>continue\<close> is a \<open>fold\<close> of the body over the list.
\<close>

named_theorems op_defs \<open>definitions unfolded to execute one operation symbolically\<close>
named_theorems str_simps \<open>characterisations of the Go string functions\<close>
named_theorems inv_intros \<open>preservation of component invariants\<close>

section \<open>Go errors\<close>

text \<open>
  \<open>StatusError\<close> is an error of the Kubernetes API machinery, with its machine-readable
  reason and its message; \<open>ErrorString\<close> is \<^verbatim>\<open>fmt.Errorf\<close> without \<^verbatim>\<open>%w\<close> (the error is only a
  text); \<open>WrapError\<close> is \<^verbatim>\<open>fmt.Errorf("prefix: %w", err)\<close>; \<open>JoinError\<close> is \<^verbatim>\<open>errors.Join\<close>.
\<close>

datatype goerror =
    StatusError string string
  | ErrorString string
  | WrapError string goerror
  | JoinError "goerror list"

type_synonym 'a result = "goerror + 'a"
type_synonym ('w, 'a) io = "'w \<Rightarrow> 'a \<times> 'w"

fun join_with :: "string \<Rightarrow> string list \<Rightarrow> string" where
  "join_with sep [] = []"
| "join_with sep [x] = x"
| "join_with sep (x # y # ys) = x @ sep @ join_with sep (y # ys)"

text \<open>The text an error prints: \<^verbatim>\<open>err.Error()\<close>, and \<^verbatim>\<open>%v\<close> of an error.\<close>

primrec err_msg :: "goerror \<Rightarrow> string" where
  "err_msg (StatusError reason msg) = msg"
| "err_msg (ErrorString msg) = msg"
| "err_msg (WrapError prefix e) = prefix @ err_msg e"
| "err_msg (JoinError es) = join_with [CHR 0x0A] (map err_msg es)"

text \<open>\<^verbatim>\<open>errors.Join\<close>: nil errors are dropped, and the result is nil when none is left.\<close>

primrec non_nil :: "'a option list \<Rightarrow> 'a list" where
  "non_nil [] = []"
| "non_nil (e # es) = (case e of None \<Rightarrow> non_nil es | Some x \<Rightarrow> x # non_nil es)"

definition errors_Join :: "goerror option list \<Rightarrow> goerror option" where
  "errors_Join es = (case non_nil es of [] \<Rightarrow> None | e # es' \<Rightarrow> Some (JoinError (e # es')))"

lemma non_nil_map_Some [simp]: "non_nil (map Some es) = es"
  by (induction es) auto

lemma non_nil_empty_iff: "non_nil es = [] \<longleftrightarrow> (\<forall>e \<in> set es. e = None)"
  by (induction es) (auto split: option.splits)

lemma errors_Join_map_Some:
  "errors_Join (map Some es) = (if es = [] then None else Some (JoinError es))"
  by (simp add: errors_Join_def split: list.split)

lemma errors_Join_None_iff: "errors_Join es = None \<longleftrightarrow> (\<forall>e \<in> set es. e = None)"
  unfolding non_nil_empty_iff [symmetric] by (simp add: errors_Join_def split: list.split)

section \<open>Loops\<close>

text \<open>A loop body that skips an element is a loop over the elements it does not skip.\<close>

lemma fold_skip:
  assumes "\<And>x s. \<not> P x \<Longrightarrow> f x s = s"
  shows "fold f xs s = fold f (filter P xs) s"
  using assms by (induction xs arbitrary: s) auto

text \<open>Two nested loops are one loop over the pairs, in the same order.\<close>

lemma fold_nested:
  "fold (\<lambda>x. fold (f x) (g x)) xs s = fold (\<lambda>(x, y). f x y) [(x, y). x \<leftarrow> xs, y \<leftarrow> g x] s"
proof (induction xs arbitrary: s)
  case Nil
  then show ?case by simp
next
  case (Cons x xs)
  have inner: "fold (\<lambda>(x, y). f x y) (map (Pair x) ys) s' = fold (f x) ys s'" for ys s'
    by (induction ys arbitrary: s') auto
  show ?case by (simp add: Cons.IH inner)
qed

text \<open>Every element of the list is accounted for by the loop: a monotone fact established by
  the body at one element is still there at the end.\<close>

lemma fold_establishes:
  assumes est: "\<And>s. I s \<Longrightarrow> Q (f x s)"
    and keep: "\<And>y s. I s \<Longrightarrow> Q s \<Longrightarrow> Q (f y s)"
    and inv: "\<And>y s. I s \<Longrightarrow> I (f y s)"
    and start: "I s" and mem: "x \<in> set xs"
  shows "Q (fold f xs s)"
proof -
  have after: "I s \<Longrightarrow> Q s \<Longrightarrow> Q (fold f ys s)" for ys s
    by (induction ys arbitrary: s) (auto intro: keep inv)
  from mem start show ?thesis
    by (induction xs arbitrary: s) (auto intro: est inv after)
qed

lemma fold_preserves:
  assumes "\<And>x s. x \<in> set xs \<Longrightarrow> P s \<Longrightarrow> P (f x s)" and "P s"
  shows "P (fold f xs s)"
  using assms by (induction xs arbitrary: s) auto

text \<open>
  The loops that collect errors: \<^verbatim>\<open>if err := step(x); err != nil { errs = append(errs, err) }\<close>.
  \<open>run_all\<close> is the reference: every element is tried in order, whatever fails, and the outcome of
  each is kept.
\<close>

definition collect :: "goerror list \<Rightarrow> goerror option \<Rightarrow> goerror list" where
  "collect errs err = (case err of None \<Rightarrow> errs | Some e \<Rightarrow> errs @ [e])"

primrec run_all :: "('x \<Rightarrow> 's \<Rightarrow> goerror option \<times> 's) \<Rightarrow> 'x list \<Rightarrow> 's \<Rightarrow> goerror option list \<times> 's" where
  "run_all step [] s = ([], s)"
| "run_all step (x # xs) s =
     (case step x s of (err, s1) \<Rightarrow> (case run_all step xs s1 of (errs, s2) \<Rightarrow> (err # errs, s2)))"

lemma run_all_length: "run_all step xs s = (outs, s') \<Longrightarrow> length outs = length xs"
  by (induction xs arbitrary: s outs s') (auto split: prod.splits)

lemma fold_collect:
  assumes "\<And>x errs s. x \<in> set xs \<Longrightarrow> body x (errs, s) = (case step x s of (err, s') \<Rightarrow> (collect errs err, s'))"
  shows "fold body xs (errs, s) = (case run_all step xs s of (outs, s') \<Rightarrow> (errs @ non_nil outs, s'))"
  using assms
proof (induction xs arbitrary: errs s)
  case (Cons x xs)
  obtain err s1 where "step x s = (err, s1)" by (metis prod.exhaust)
  with Cons show ?case
    by (auto simp: collect_def split: prod.splits option.splits)
qed simp

lemma run_all_preserves:
  assumes "\<And>x s out s'. x \<in> set xs \<Longrightarrow> P s \<Longrightarrow> step x s = (out, s') \<Longrightarrow> P s'"
    and "P s" and "run_all step xs s = (outs, s')"
  shows "P s'"
  using assms
proof (induction xs arbitrary: s outs)
  case (Cons x xs)
  obtain out s1 where 1: "step x s = (out, s1)" by (metis prod.exhaust)
  obtain outs1 where 2: "run_all step xs s1 = (outs1, s')"
    using Cons.prems(3) 1 by (auto split: prod.splits)
  have "P s1" by (rule Cons.prems(1) [OF _ Cons.prems(2) 1]) simp
  show ?case
  proof (rule Cons.IH [OF _ \<open>P s1\<close> 2])
    fix y t out t'
    assume "y \<in> set xs" and "P t" and "step y t = (out, t')"
    then show "P t'" by (intro Cons.prems(1) [of y t out t']) simp_all
  qed
qed simp

lemma run_all_append:
  "run_all step (xs @ ys) s =
     (case run_all step xs s of (outs, s1) \<Rightarrow> (case run_all step ys s1 of (outs', s2) \<Rightarrow> (outs @ outs', s2)))"
  by (induction xs arbitrary: s) (auto split: prod.split)

lemma non_nil_append: "non_nil (es @ es') = non_nil es @ non_nil es'"
  by (induction es) (auto split: option.split)

text \<open>A fact an error-free step establishes and every step keeps holds at the end of an error-free
  run.\<close>

lemma run_all_establishes:
  assumes "run_all step xs s = (outs, s')" and "\<forall>out \<in> set outs. out = None" and "x \<in> set xs"
    and est: "\<And>s1 s2. step x s1 = (None, s2) \<Longrightarrow> Q s2"
    and keep: "\<And>y s1 out s2. y \<in> set xs \<Longrightarrow> Q s1 \<Longrightarrow> step y s1 = (out, s2) \<Longrightarrow> Q s2"
  shows "Q s'"
proof -
  from assms(3) obtain ys zs where xs: "xs = ys @ x # zs" by (auto dest: split_list)
  obtain outs1 s1 where 1: "run_all step ys s = (outs1, s1)" by (metis prod.exhaust)
  obtain out s2 where 2: "step x s1 = (out, s2)" by (metis prod.exhaust)
  obtain outs3 s3 where 3: "run_all step zs s2 = (outs3, s3)" by (metis prod.exhaust)
  from assms(1,2) 1 2 3 have "out = None" and s': "s' = s3" by (auto simp: xs run_all_append)
  with est 2 have "Q s2" by blast
  have "Q s3"
  proof (rule run_all_preserves [where P = Q, OF _ \<open>Q s2\<close> 3])
    fix y t out t'
    assume "y \<in> set zs" and "Q t" and "step y t = (out, t')"
    then show "Q t'" by (intro keep [of y t out t']) (simp_all add: xs)
  qed
  with s' show ?thesis by simp
qed

lemma errors_Join_non_nil: "errors_Join (map Some (non_nil es)) = errors_Join es"
  by (simp add: errors_Join_def)

section \<open>Cutting lists at a separator\<close>

text \<open>A list is determined by its part before the first separator and the rest.\<close>

lemma append_sep_inj:
  assumes "xs @ c # ys = xs' @ c # ys'" and "c \<notin> set xs" and "c \<notin> set xs'"
  shows "xs = xs' \<and> ys = ys'"
  using assms
proof (induction xs arbitrary: xs')
  case Nil
  then show ?case by (cases xs') auto
next
  case (Cons x xs)
  then show ?case by (cases xs') auto
qed

lemma append_sep_inj_last:
  assumes "xs @ c # ys = xs' @ c # ys'" and "c \<notin> set ys" and "c \<notin> set ys'"
  shows "xs = xs' \<and> ys = ys'"
proof -
  have "rev ys @ c # rev xs = rev ys' @ c # rev xs'"
    using arg_cong [OF assms(1), of rev] by simp
  then have "rev ys = rev ys' \<and> rev xs = rev xs'"
    by (rule append_sep_inj) (use assms in auto)
  then show ?thesis by simp
qed

lemma sum_case_Inr_iff: "(case r of Inl e \<Rightarrow> Inl e | Inr x \<Rightarrow> f x) = Inr v \<longleftrightarrow>
    (\<exists>x. r = Inr x \<and> f x = Inr v)"
  by (cases r) auto

end
