(* ===== verification/ApiTypes.thy ===== *)
theory ApiTypes
  imports Prelude
begin

text \<open>
  The API types of \<^verbatim>\<open>syncer/api/v1alpha1/krmsyncer_types.go\<close>, with the few types of the
  Kubernetes API machinery they are built from (group-version-kinds, namespaced names,
  status conditions). A pointer field is an \<open>option\<close>, a Go string type with constants is a
  \<open>string\<close> with those constants.
\<close>

section \<open>Names used by the Kubernetes API\<close>

record GroupVersionKind =
  gvk_Group :: string
  gvk_Version :: string
  gvk_Kind :: string

record NamespacedName =
  nn_Namespace :: string
  nn_Name :: string

record Condition =
  cond_Type :: string
  cond_Status :: string
  cond_Reason :: string
  cond_Message :: string

text \<open>What API discovery returns: per group and version, the served resources.\<close>

record APIResource =
  res_Name :: string
  res_Kind :: string
  res_Verbs :: "string list"

record APIResourceList =
  rl_GroupVersion :: string
  rl_APIResources :: "APIResource list"

section \<open>krmsyncer_types.go\<close>

record ResourceRule =
  rule_Group :: string
  rule_Version :: string
  rule_Kind :: string
  rule_Namespaces :: "string list"
  rule_SyncFields :: "string list"

type_synonym Mode = string

definition ModePush :: Mode where "ModePush = ''push''"
definition ModePull :: Mode where "ModePull = ''pull''"

type_synonym GKEEndpoint = string

definition GKEEndpointDefault :: GKEEndpoint where "GKEEndpointDefault = ''Default''"
definition GKEEndpointDNS :: GKEEndpoint where "GKEEndpointDNS = ''DNS''"
definition GKEEndpointPrivateIP :: GKEEndpoint where "GKEEndpointPrivateIP = ''PrivateIP''"

record GKECluster =
  gke_Project :: string
  gke_Location :: string
  gke_Name :: string
  gke_Endpoint :: GKEEndpoint

record RemoteConfig =
  remote_GKECluster :: "GKECluster option"

record KRMSyncerSpec =
  spec_Suspend :: bool
  spec_Mode :: Mode
  spec_Remote :: "RemoteConfig option"
  spec_Rules :: "ResourceRule list"

record KRMSyncer =
  ks_Namespace :: string
  ks_Name :: string
  ks_Spec :: KRMSyncerSpec
  ks_Conditions :: "Condition list"

definition ObjectKeyFromKRMSyncer :: "KRMSyncer \<Rightarrow> NamespacedName" where
  "ObjectKeyFromKRMSyncer k = \<lparr>nn_Namespace = ks_Namespace k, nn_Name = ks_Name k\<rparr>"

lemmas mode_defs = ModePush_def ModePull_def
lemmas endpoint_defs = GKEEndpointDefault_def GKEEndpointDNS_def GKEEndpointPrivateIP_def

lemma modes_distinct [simp]:
  "ModePush \<noteq> ModePull" "ModePull \<noteq> ModePush" "ModePush \<noteq> []" "ModePull \<noteq> []"
  by (simp_all add: mode_defs)

lemma endpoints_distinct [simp]:
  "GKEEndpointDefault \<noteq> GKEEndpointDNS" "GKEEndpointDNS \<noteq> GKEEndpointDefault"
  "GKEEndpointDefault \<noteq> GKEEndpointPrivateIP" "GKEEndpointPrivateIP \<noteq> GKEEndpointDefault"
  "GKEEndpointDNS \<noteq> GKEEndpointPrivateIP" "GKEEndpointPrivateIP \<noteq> GKEEndpointDNS"
  "GKEEndpointDefault \<noteq> []" "GKEEndpointDNS \<noteq> []" "GKEEndpointPrivateIP \<noteq> []"
  by (simp_all add: endpoint_defs)

end
