(* ===== verification/RemoteProvider.thy ===== *)
theory RemoteProvider
  imports ApiTypes
begin

text \<open>
  The interface \<^verbatim>\<open>RemoteConfigProvider\<close> of \<^verbatim>\<open>syncer/controllers/remote_cluster.go\<close>. A value of the
  interface is a record of its two methods; \<^verbatim>\<open>RESTConfig\<close> may do I/O and change the provider, so
  it is a function of the world. The locale \<open>remote_provider\<close> states what the controllers rely on:
  equal keys mean the same connection, and a remote without a key has no configuration. It is
  interpreted on the GKE provider in the theory \<^verbatim>\<open>GkeCluster\<close>.
\<close>

text \<open>The fields of client-go's \<^verbatim>\<open>rest.Config\<close> the program sets; the transport wrappers are
  listed from the innermost to the outermost.\<close>

record 't rest_config =
  rc_Host :: string
  rc_CAData :: string
  rc_Timeout :: int
  rc_Wrappers :: "'t list"

record ('w, 't) RemoteConfigProvider =
  rp_Key :: "string \<Rightarrow> RemoteConfig option \<Rightarrow> string result"
  rp_RESTConfig :: "string \<Rightarrow> RemoteConfig option \<Rightarrow> ('w, 't rest_config result) io"

locale remote_provider =
  fixes provider :: "('w, 't) RemoteConfigProvider"
    and valid :: "RemoteConfig option \<Rightarrow> bool"
    and conn :: "RemoteConfig option \<Rightarrow> 'id"
  assumes key_exists: "valid r \<Longrightarrow> \<exists>k. rp_Key provider ns r = Inr k"
    and key_identifies: "valid r \<Longrightarrow> valid r' \<Longrightarrow>
          rp_Key provider ns r = rp_Key provider ns' r' \<longleftrightarrow> conn r = conn r'"
    and config_needs_key: "rp_Key provider ns r = Inl e \<Longrightarrow> rp_RESTConfig provider ns r w = (Inl e, w)"
begin

lemma same_conn_same_key:
  "valid r \<Longrightarrow> valid r' \<Longrightarrow> conn r = conn r' \<Longrightarrow> rp_Key provider ns r = Inr k \<Longrightarrow>
     rp_Key provider ns' r' = Inr k"
  using key_identifies [of r' r ns' ns] by simp

lemma other_conn_other_key:
  "valid r \<Longrightarrow> valid r' \<Longrightarrow> conn r \<noteq> conn r' \<Longrightarrow> rp_Key provider ns r = Inr k \<Longrightarrow>
     rp_Key provider ns' r' = Inr k' \<Longrightarrow> k \<noteq> k'"
  using key_identifies [of r r' ns ns'] by auto

end

end
