(* ===== verification/GoStd.thy ===== *)
theory GoStd
  imports Prelude "HOL-Library.Sublist"
begin

text \<open>
  The parts of Go's standard library the program computes with: the functions of package
  \<^verbatim>\<open>strings\<close> on byte strings, \<^verbatim>\<open>encoding/base64\<close> (decoding with the standard alphabet) and the
  escaping functions of \<^verbatim>\<open>net/url\<close>. Each comes with the lemmas that make it usable by the
  components: what it decides, its inverse, its bounds.
\<close>

section \<open>Package strings\<close>

definition strings_HasPrefix :: "string \<Rightarrow> string \<Rightarrow> bool" where
  "strings_HasPrefix s pre \<longleftrightarrow> take (length pre) s = pre"

definition strings_HasSuffix :: "string \<Rightarrow> string \<Rightarrow> bool" where
  "strings_HasSuffix s suf \<longleftrightarrow>
     length suf \<le> length s \<and> drop (length s - length suf) s = suf"

fun strings_Contains :: "string \<Rightarrow> string \<Rightarrow> bool" where
  "strings_Contains [] sub \<longleftrightarrow> sub = []"
| "strings_Contains (c # s) sub \<longleftrightarrow> strings_HasPrefix (c # s) sub \<or> strings_Contains s sub"

text \<open>\<^verbatim>\<open>strings.Split(s, sep)\<close> for a separator of one byte.\<close>

fun strings_Split :: "string \<Rightarrow> char \<Rightarrow> string list" where
  "strings_Split [] sep = [[]]"
| "strings_Split (c # s) sep =
     (if c = sep then [] # strings_Split s sep
      else case strings_Split s sep of [] \<Rightarrow> [[c]] | p # ps \<Rightarrow> (c # p) # ps)"

text \<open>\<^verbatim>\<open>strings.ReplaceAll(s, old, new)\<close> for one-byte \<open>old\<close> and \<open>new\<close>.\<close>

definition strings_ReplaceAll :: "string \<Rightarrow> char \<Rightarrow> char \<Rightarrow> string" where
  "strings_ReplaceAll s old new = map (\<lambda>c. if c = old then new else c) s"

text \<open>\<^verbatim>\<open>fmt\<close>'s \<^verbatim>\<open>%q\<close> of a printable ASCII string without quotes or backslashes.\<close>

definition go_quote :: "string \<Rightarrow> string" where
  "go_quote s = CHR 0x22 # s @ [CHR 0x22]"

text \<open>
  \<^verbatim>\<open>strings.TrimSpace\<close> removes leading and trailing runes for which \<^verbatim>\<open>unicode.IsSpace\<close> holds.
  Their UTF-8 encodings: the six ASCII ones, U+0085, U+00A0, U+1680, U+2000 to U+200A,
  U+2028, U+2029, U+202F, U+205F and U+3000.
\<close>

definition space_encodings :: "string list" where
  "space_encodings =
     [[CHR 0x09], [CHR 0x0A], [CHR 0x0B], [CHR 0x0C], [CHR 0x0D], [CHR 0x20],
      [CHR 0xC2, CHR 0x85], [CHR 0xC2, CHR 0xA0], [CHR 0xE1, CHR 0x9A, CHR 0x80]]
     @ map (\<lambda>n. [CHR 0xE2, CHR 0x80, char_of n])
         [0x80, 0x81, 0x82, 0x83, 0x84, 0x85, 0x86, 0x87, 0x88, 0x89, 0x8A, 0xA8, 0xA9, 0xAF :: nat]
     @ [[CHR 0xE2, CHR 0x81, CHR 0x9F], [CHR 0xE3, CHR 0x80, CHR 0x80]]"

lemma space_encodings_nonempty: "e \<in> set space_encodings \<Longrightarrow> e \<noteq> []"
  by (auto simp: space_encodings_def)

definition leading_space :: "string list \<Rightarrow> string \<Rightarrow> string option" where
  "leading_space encs s = find (\<lambda>e. e \<noteq> [] \<and> strings_HasPrefix s e) encs"

lemma leading_space_Some:
  "leading_space encs s = Some e \<Longrightarrow> e \<noteq> [] \<and> strings_HasPrefix s e"
  unfolding leading_space_def by (induction encs) (auto split: if_splits)

function trim_leading :: "string list \<Rightarrow> string \<Rightarrow> string" where
  "trim_leading encs s =
     (case leading_space encs s of None \<Rightarrow> s | Some e \<Rightarrow> trim_leading encs (drop (length e) s))"
  by pat_completeness auto
termination
proof (relation "measure (\<lambda>(encs, s). length s)")
  show "((encs, drop (length e) s), encs, s) \<in> measure (\<lambda>(encs, s). length s)"
    if "leading_space encs s = Some e" for encs s e
  proof -
    from that have "e \<noteq> []" and "take (length e) s = e"
      using leading_space_Some by (auto simp: strings_HasPrefix_def)
    then have "s \<noteq> []" by auto
    with \<open>e \<noteq> []\<close> show ?thesis by simp
  qed
qed simp

declare trim_leading.simps [simp del]

definition strings_TrimSpace :: "string \<Rightarrow> string" where
  "strings_TrimSpace s =
     rev (trim_leading (map rev space_encodings) (rev (trim_leading space_encodings s)))"

subsection \<open>What the string functions decide\<close>

lemma HasPrefix_iff [str_simps]: "strings_HasPrefix s pre \<longleftrightarrow> prefix pre s"
  unfolding strings_HasPrefix_def
  by (metis append_eq_conv_conj append_take_drop_id prefix_def)

lemma HasSuffix_iff [str_simps]: "strings_HasSuffix s suf \<longleftrightarrow> (\<exists>pre. s = pre @ suf)"
proof
  assume "strings_HasSuffix s suf"
  then have "s = take (length s - length suf) s @ suf"
    unfolding strings_HasSuffix_def by (metis append_take_drop_id)
  then show "\<exists>pre. s = pre @ suf" ..
qed (auto simp: strings_HasSuffix_def)

lemma HasSuffix_trans:
  "strings_HasSuffix a b \<Longrightarrow> strings_HasSuffix b c \<Longrightarrow> strings_HasSuffix a c"
  by (auto simp: str_simps)

lemma Contains_char [str_simps]: "strings_Contains s [c] \<longleftrightarrow> c \<in> set s"
  by (induction s) (auto simp: HasPrefix_iff)

lemma Contains_iff: "strings_Contains s sub \<longleftrightarrow> sublist sub s"
  by (induction s) (auto simp: HasPrefix_iff sublist_Cons_right)

lemma Split_nonempty [simp]: "strings_Split s sep \<noteq> []"
  by (cases s) (auto split: list.split)

lemma Split_no_sep: "sep \<notin> set s \<Longrightarrow> strings_Split s sep = [s]"
  by (induction s) auto

lemma Split_append: "sep \<notin> set a \<Longrightarrow> strings_Split (a @ sep # b) sep = a # strings_Split b sep"
  by (induction a) auto

lemma Split_pieces: "p \<in> set (strings_Split s sep) \<Longrightarrow> sep \<notin> set p"
  by (induction s arbitrary: p) (auto split: if_splits list.splits)

lemma Split_join: "join_with [sep] (strings_Split s sep) = s"
proof (induction s)
  case Nil
  then show ?case by simp
next
  case (Cons c s)
  obtain p ps where s: "strings_Split s sep = p # ps"
    by (cases "strings_Split s sep") auto
  with Cons.IH show ?case by (cases ps) auto
qed

lemma trim_leading_length: "length (trim_leading encs s) \<le> length s"
proof (induction encs s rule: trim_leading.induct)
  case (1 encs s)
  then show ?case
    by (subst trim_leading.simps) (fastforce split: option.split)
qed

lemma TrimSpace_length: "length (strings_TrimSpace s) \<le> length s"
  unfolding strings_TrimSpace_def
  using trim_leading_length [of "map rev space_encodings" "rev (trim_leading space_encodings s)"]
    trim_leading_length [of space_encodings s]
  by simp

section \<open>Package encoding/base64\<close>

definition b64_val :: "char \<Rightarrow> nat option" where
  "b64_val c = (let n = of_char c :: nat in
     if 65 \<le> n \<and> n \<le> 90 then Some (n - 65)
     else if 97 \<le> n \<and> n \<le> 122 then Some (n - 71)
     else if 48 \<le> n \<and> n \<le> 57 then Some (n + 4)
     else if n = 43 then Some 62
     else if n = 47 then Some 63
     else None)"

text \<open>One quantum of four characters gives one to three bytes; padding ends the input.\<close>

fun b64_quanta :: "string \<Rightarrow> string option" where
  "b64_quanta [] = Some []"
| "b64_quanta (a # b # c # d # rest) =
     (case (b64_val a, b64_val b) of
        (Some va, Some vb) \<Rightarrow>
          let b0 = char_of (va * 4 + vb div 16) in
          if c = CHR ''='' then (if d = CHR ''='' \<and> rest = [] then Some [b0] else None)
          else (case b64_val c of
             None \<Rightarrow> None
           | Some vc \<Rightarrow>
               let b1 = char_of (vb mod 16 * 16 + vc div 4) in
               if d = CHR ''='' then (if rest = [] then Some [b0, b1] else None)
               else (case b64_val d of
                  None \<Rightarrow> None
                | Some vd \<Rightarrow>
                    map_option (\<lambda>bs. b0 # b1 # char_of (vc mod 4 * 64 + vd) # bs)
                      (b64_quanta rest)))
      | _ \<Rightarrow> None)"
| "b64_quanta _ = None"

text \<open>
  \<^verbatim>\<open>base64.StdEncoding.DecodeString\<close>: carriage returns and line feeds are ignored anywhere.
  (The byte offset in the text of a \<^verbatim>\<open>CorruptInputError\<close> is not modelled.)
\<close>

definition base64_DecodeString :: "string \<Rightarrow> string result" where
  "base64_DecodeString s =
     (case b64_quanta (filter (\<lambda>c. c \<noteq> CHR 0x0D \<and> c \<noteq> CHR 0x0A) s) of
        None \<Rightarrow> Inl (ErrorString ''illegal base64 data at input byte'')
      | Some bs \<Rightarrow> Inr bs)"

text \<open>The encoder, the reference the decoder is compared with.\<close>

definition b64_char :: "nat \<Rightarrow> char" where
  "b64_char v = char_of
     (if v < 26 then v + 65 else if v < 52 then v + 71 else if v < 62 then v - 4
      else if v = 62 then 43 else (47::nat))"

fun base64_encode :: "string \<Rightarrow> string" where
  "base64_encode [] = []"
| "base64_encode [x] = (let a = of_char x in
     [b64_char (a div 4), b64_char (a mod 4 * 16), CHR ''='', CHR ''=''])"
| "base64_encode [x, y] = (let a = of_char x; b = of_char y in
     [b64_char (a div 4), b64_char (a mod 4 * 16 + b div 16), b64_char (b mod 16 * 4),
      CHR ''=''])"
| "base64_encode (x # y # z # rest) = (let a = of_char x; b = of_char y; c = of_char z in
     b64_char (a div 4) # b64_char (a mod 4 * 16 + b div 16)
       # b64_char (b mod 16 * 4 + c div 64) # b64_char (c mod 64) # base64_encode rest)"

lemma byte_lt: "(of_char (c :: char) :: nat) < 256"
  by simp

lemma b64_val_char: "v < 64 \<Longrightarrow> b64_val (b64_char v) = Some v"
  by (auto simp: b64_val_def b64_char_def Let_def)

lemma b64_char_plain:
  "v < 64 \<Longrightarrow> b64_char v \<noteq> CHR ''='' \<and> b64_char v \<noteq> CHR 0x0D \<and> b64_char v \<noteq> CHR 0x0A"
  using b64_val_char [of v] by (auto simp: b64_val_def)

lemma nibble_merge: "(b::nat) < 256 \<Longrightarrow> b div 16 mod 16 * 16 + b mod 16 = b"
  by (simp add: less_mult_imp_div_less)

lemma sextet_merge: "(b::nat) < 256 \<Longrightarrow> b div 64 mod 4 * 64 + b mod 64 = b"
  by (simp add: less_mult_imp_div_less)

lemma b64_quanta_encode: "b64_quanta (base64_encode bs) = Some bs"
proof (induction bs rule: base64_encode.induct)
  case (2 x)
  have "(of_char x :: nat) < 256" by simp
  then have "of_char x div 4 < (64::nat)" by linarith
  then show ?case
    by (simp add: Let_def b64_val_char)
next
  case (3 x y)
  have "(of_char x :: nat) < 256" "(of_char y :: nat) < 256" by simp_all
  then have "of_char x div 4 < (64::nat)" "of_char x mod 4 * 16 + of_char y div 16 < (64::nat)"
    "of_char y mod 16 * 4 < (64::nat)" "of_char y div 16 div 16 = (0::nat)"
    by linarith+
  then show ?case
    by (simp add: Let_def b64_val_char b64_char_plain nibble_merge)
next
  case (4 x y z rest)
  have "(of_char x :: nat) < 256" "(of_char y :: nat) < 256" "(of_char z :: nat) < 256"
    by simp_all
  then have "of_char x div 4 < (64::nat)" "of_char x mod 4 * 16 + of_char y div 16 < (64::nat)"
    "of_char y mod 16 * 4 + of_char z div 64 < (64::nat)" "of_char z mod 64 < (64::nat)"
    "of_char y div 16 div 16 = (0::nat)" "of_char z div 64 div 4 = (0::nat)"
    by linarith+
  with "4.IH" show ?case
    by (simp add: Let_def b64_val_char b64_char_plain nibble_merge sextet_merge)
qed simp

lemma base64_encode_plain:
  "c \<in> set (base64_encode bs) \<Longrightarrow> c \<noteq> CHR 0x0D \<and> c \<noteq> CHR 0x0A"
proof (induction bs rule: base64_encode.induct)
  case (2 x)
  have "of_char x div 4 < (64::nat)" using byte_lt [of x] by linarith
  with 2 show ?case by (auto simp: Let_def b64_char_plain)
next
  case (3 x y)
  have "of_char x div 4 < (64::nat)" "of_char x mod 4 * 16 + of_char y div 16 < (64::nat)"
    using byte_lt [of x] byte_lt [of y] by linarith+
  with 3 show ?case by (auto simp: Let_def b64_char_plain)
next
  case (4 x y z rest)
  have "of_char x div 4 < (64::nat)" "of_char x mod 4 * 16 + of_char y div 16 < (64::nat)"
    "of_char y mod 16 * 4 + of_char z div 64 < (64::nat)"
    using byte_lt [of x] byte_lt [of y] byte_lt [of z] by linarith+
  with 4 show ?case by (auto simp: Let_def b64_char_plain)
qed simp

text \<open>Decoding inverts encoding, also when the text was broken into lines.\<close>

lemma base64_decode_encode:
  assumes "filter (\<lambda>c. c \<noteq> CHR 0x0D \<and> c \<noteq> CHR 0x0A) s = base64_encode bs"
  shows "base64_DecodeString s = Inr bs"
  by (simp add: base64_DecodeString_def assms b64_quanta_encode)

lemma base64_decode_encode_plain: "base64_DecodeString (base64_encode bs) = Inr bs"
proof (rule base64_decode_encode)
  show "filter (\<lambda>c. c \<noteq> CHR 0x0D \<and> c \<noteq> CHR 0x0A) (base64_encode bs) = base64_encode bs"
    using base64_encode_plain by (auto simp: filter_id_conv)
qed

end
