(* ===== verification/GoUrl.thy ===== *)
theory GoUrl
  imports GoStd
begin

text \<open>
  Package \<^verbatim>\<open>net/url\<close>, as far as the program uses it: \<^verbatim>\<open>PathEscape\<close> and \<^verbatim>\<open>QueryEscape\<close> (through
  \<^verbatim>\<open>Values.Encode\<close>) build the GKE API request, and \<^verbatim>\<open>Parse\<close> extracts the host of a cluster's
  \<^verbatim>\<open>rest.Config\<close>. The lemmas show that an escaped path segment has no separator in it and can
  be decoded again, and what \<^verbatim>\<open>Parse\<close> makes of \<^verbatim>\<open>https://host\<close>.
\<close>

section \<open>Escaping\<close>

definition is_alnum :: "char \<Rightarrow> bool" where
  "is_alnum c = (let n = of_char c :: nat in
     (97 \<le> n \<and> n \<le> 122) \<or> (65 \<le> n \<and> n \<le> 90) \<or> (48 \<le> n \<and> n \<le> 57))"

definition unreserved :: "char \<Rightarrow> bool" where
  "unreserved c \<longleftrightarrow> is_alnum c \<or> c \<in> set ''-_.~''"

definition hex_digit :: "nat \<Rightarrow> char" where
  "hex_digit d = char_of (if d < 10 then d + 48 else d + 55)"

definition pct_encode :: "char \<Rightarrow> string" where
  "pct_encode c = [CHR 0x25, hex_digit (of_char c div 16), hex_digit (of_char c mod 16)]"

definition segment_safe :: "char \<Rightarrow> bool" where
  "segment_safe c \<longleftrightarrow> unreserved c \<or> c \<in> set ''$&+=:@''"

definition url_PathEscape :: "string \<Rightarrow> string" where
  "url_PathEscape s = concat (map (\<lambda>c. if segment_safe c then [c] else pct_encode c) s)"

definition url_QueryEscape :: "string \<Rightarrow> string" where
  "url_QueryEscape s = concat (map (\<lambda>c. if unreserved c then [c]
     else if c = CHR '' '' then ''+'' else pct_encode c) s)"

section \<open>Unescaping\<close>

definition unhex :: "char \<Rightarrow> nat option" where
  "unhex c = (let n = of_char c in
     if 48 \<le> n \<and> n \<le> 57 then Some (n - 48)
     else if 97 \<le> n \<and> n \<le> 102 then Some (n - 87)
     else if 65 \<le> n \<and> n \<le> 70 then Some (n - 55)
     else None)"

datatype url_mode = EncodePath | EncodeHost | EncodeZone | EncodeUserPassword | EncodeFragment

definition host_safe :: "char \<Rightarrow> bool" where
  "host_safe c \<longleftrightarrow> unreserved c \<or> c \<in> set (CHR 0x22 # CHR 0x27 # ''!$&()*+,;=:[]<>'')"

definition pct_allowed :: "url_mode \<Rightarrow> nat \<Rightarrow> nat \<Rightarrow> bool" where
  "pct_allowed m h l \<longleftrightarrow>
     (m = EncodeHost \<longrightarrow> 8 \<le> h \<or> (h = 2 \<and> l = 5)) \<and>
     (m = EncodeZone \<longrightarrow> (h = 2 \<and> l = 5) \<or> (h = 2 \<and> l = 0) \<or> host_safe (char_of (h * 16 + l)))"

definition raw_allowed :: "url_mode \<Rightarrow> char \<Rightarrow> bool" where
  "raw_allowed m c \<longleftrightarrow>
     (m = EncodeHost \<or> m = EncodeZone) \<longrightarrow> 128 \<le> (of_char c :: nat) \<or> host_safe c"

fun url_unescape :: "url_mode \<Rightarrow> string \<Rightarrow> string option" where
  "url_unescape m [] = Some []"
| "url_unescape m (c # s) =
     (if c = CHR 0x25 then
        (case s of
           a # b # r \<Rightarrow>
             (case (unhex a, unhex b) of
                (Some h, Some l) \<Rightarrow>
                  if pct_allowed m h l
                  then map_option (\<lambda>t. char_of (h * 16 + l) # t) (url_unescape m r) else None
              | _ \<Rightarrow> None)
         | _ \<Rightarrow> None)
      else if raw_allowed m c then map_option (\<lambda>t. c # t) (url_unescape m s)
      else None)"

section \<open>Parse\<close>

definition url_error :: "string \<Rightarrow> string \<Rightarrow> goerror" where
  "url_error u what = WrapError (''parse '' @ u @ '': '') (ErrorString what)"

definition strings_Cut :: "string \<Rightarrow> char \<Rightarrow> string \<times> string" where
  "strings_Cut s c = (takeWhile (\<lambda>x. x \<noteq> c) s, tl (dropWhile (\<lambda>x. x \<noteq> c) s))"

definition cut_last :: "string \<Rightarrow> char \<Rightarrow> (string \<times> string) option" where
  "cut_last s c = (if c \<in> set s
     then Some (rev (snd (strings_Cut (rev s) c)), rev (fst (strings_Cut (rev s) c))) else None)"

text \<open>\<^verbatim>\<open>getScheme\<close>: the scheme and the rest; an error for a leading colon.\<close>

fun url_getScheme :: "string \<Rightarrow> string \<Rightarrow> string \<Rightarrow> (string \<times> string) option" where
  "url_getScheme raw acc [] = Some ([], raw)"
| "url_getScheme raw acc (c # s) =
     (if is_alnum c \<and> \<not> (48 \<le> (of_char c :: nat) \<and> of_char c \<le> (57::nat))
      then url_getScheme raw (acc @ [c]) s
      else if is_alnum c \<or> c \<in> set ''+-.''
        then (if acc = [] then Some ([], raw) else url_getScheme raw (acc @ [c]) s)
      else if c = CHR '':'' then (if acc = [] then None else Some (acc, s))
      else Some ([], raw))"

definition validOptionalPort :: "string \<Rightarrow> bool" where
  "validOptionalPort port = (case port of [] \<Rightarrow> True
     | c # ds \<Rightarrow> c = CHR '':'' \<and> list_all (\<lambda>d. 48 \<le> (of_char d :: nat) \<and> of_char d \<le> (57::nat)) ds)"

fun find_zone :: "string \<Rightarrow> (string \<times> string) option" where
  "find_zone [] = None"
| "find_zone (c # s) = (if strings_HasPrefix (c # s) [CHR 0x25, CHR ''2'', CHR ''5'']
     then Some ([], c # s)
     else map_option (\<lambda>(p, q). (c # p, q)) (find_zone s))"

definition url_parseHost :: "string \<Rightarrow> string option" where
  "url_parseHost host =
     (if strings_HasPrefix host ''['' then
        (case cut_last host (CHR '']'') of
           None \<Rightarrow> None
         | Some (before, port) \<Rightarrow>
             if \<not> validOptionalPort port then None
             else (case find_zone before of
                None \<Rightarrow> url_unescape EncodeHost host
              | Some (h1, zone) \<Rightarrow>
                  (case (url_unescape EncodeHost h1, url_unescape EncodeZone zone,
                         url_unescape EncodeHost (CHR '']'' # port)) of
                     (Some a, Some b, Some c) \<Rightarrow> Some (a @ b @ c)
                   | _ \<Rightarrow> None)))
      else
        (case cut_last host (CHR '':'') of
           Some (_, port) \<Rightarrow>
             if validOptionalPort (CHR '':'' # port) then url_unescape EncodeHost host else None
         | None \<Rightarrow> url_unescape EncodeHost host))"

definition validUserinfo :: "string \<Rightarrow> bool" where
  "validUserinfo s =
     list_all (\<lambda>c. is_alnum c \<or> c \<in> set (CHR 0x25 # CHR 0x27 # ''-._:~!$&()*+,;=@'')) s"

definition url_parseAuthority :: "string \<Rightarrow> string option" where
  "url_parseAuthority authority =
     (case cut_last authority (CHR ''@'') of
        None \<Rightarrow> url_parseHost authority
      | Some (userinfo, host) \<Rightarrow>
          (case url_parseHost host of
             None \<Rightarrow> None
           | Some h \<Rightarrow>
               if validUserinfo userinfo
                 \<and> url_unescape EncodeUserPassword userinfo \<noteq> None
               then Some h else None))"

definition has_ctl_byte :: "string \<Rightarrow> bool" where
  "has_ctl_byte s = list_ex (\<lambda>c. (of_char c :: nat) < 32 \<or> (of_char c :: nat) = 127) s"

text \<open>The unexported \<^verbatim>\<open>parse\<close>, and \<^verbatim>\<open>Parse\<close>; only the \<^verbatim>\<open>Host\<close> field of the result is kept.\<close>

definition url_parse :: "string \<Rightarrow> string option" where
  "url_parse raw =
     (if has_ctl_byte raw then None
      else if raw = ''*'' then Some []
      else case url_getScheme raw [] raw of
        None \<Rightarrow> None
      | Some (scheme, rest0) \<Rightarrow>
          let rest = fst (strings_Cut rest0 (CHR ''?'')) in
          if \<not> strings_HasPrefix rest ''/'' \<and> scheme \<noteq> [] then Some []
          else if \<not> strings_HasPrefix rest ''/'' \<and>
            CHR '':'' \<in> set (fst (strings_Cut rest (CHR ''/''))) then None
          else if (scheme \<noteq> [] \<or> \<not> strings_HasPrefix rest ''///'') \<and> strings_HasPrefix rest ''//''
          then (let authority = fst (strings_Cut (drop 2 rest) (CHR ''/''));
                    path = drop (2 + length authority) rest in
                case url_parseAuthority authority of
                  None \<Rightarrow> None
                | Some h \<Rightarrow> if url_unescape EncodePath path = None then None else Some h)
          else if url_unescape EncodePath rest = None then None else Some [])"

definition url_Parse :: "string \<Rightarrow> string result" where
  "url_Parse raw =
     (let (u, frag) = strings_Cut raw (CHR ''#'') in
      case url_parse u of
        None \<Rightarrow> Inl (url_error u ''invalid URL'')
      | Some h \<Rightarrow> if url_unescape EncodeFragment frag = None
          then Inl (url_error raw ''invalid URL escape'') else Inr h)"

lemma unhex_hex_digit: "d < 16 \<Longrightarrow> unhex (hex_digit d) = Some d"
  by (auto simp: unhex_def hex_digit_def Let_def)

lemma hex_digit_alnum: "d < 16 \<Longrightarrow> is_alnum (hex_digit d)"
  by (auto simp: is_alnum_def hex_digit_def Let_def)

lemma segment_safe_not_pct: "segment_safe c \<Longrightarrow> c \<noteq> CHR 0x25"
  by (auto simp: segment_safe_def unreserved_def is_alnum_def)

text \<open>Decoding an escaped segment gives the segment back, so escaping is injective.\<close>

lemma unescape_PathEscape: "url_unescape EncodePath (url_PathEscape s) = Some s"
proof (induction s)
  case Nil
  then show ?case by (simp add: url_PathEscape_def)
next
  case (Cons c s)
  let ?n = "of_char c :: nat"
  have hi: "?n div 16 < 16" using byte_lt [of c] by linarith
  have lo: "?n mod 16 < 16" by simp
  show ?case
  proof (cases "segment_safe c")
    case True
    then have "url_PathEscape (c # s) = c # url_PathEscape s" and "c \<noteq> CHR 0x25"
      by (auto simp: url_PathEscape_def segment_safe_not_pct)
    with Cons.IH show ?thesis by (simp add: raw_allowed_def)
  next
    case False
    then have "url_PathEscape (c # s) = CHR 0x25 # hex_digit (?n div 16) # hex_digit (?n mod 16)
        # url_PathEscape s"
      by (simp add: url_PathEscape_def pct_encode_def)
    with Cons.IH hi lo show ?thesis
      by (simp add: unhex_hex_digit pct_allowed_def)
  qed
qed

lemma PathEscape_inj: "url_PathEscape s = url_PathEscape t \<Longrightarrow> s = t"
  by (metis option.inject unescape_PathEscape)

text \<open>Nothing but the listed characters is left in an escaped segment: in particular no
  separator of paths, queries or fragments.\<close>

lemma PathEscape_chars:
  assumes "c \<in> set (url_PathEscape s)"
  shows "segment_safe c \<or> c = CHR 0x25"
proof -
  from assms obtain d where "c \<in> set (if segment_safe d then [d] else pct_encode d)"
    unfolding url_PathEscape_def set_concat set_map by blast
  then consider "c = d" "segment_safe d" | "c \<in> set (pct_encode d)"
    by (auto split: if_splits)
  then show ?thesis
  proof cases
    case 1
    then show ?thesis by simp
  next
    case 2
    have "(of_char d :: nat) div 16 < 16" using byte_lt [of d] by linarith
    with 2 show ?thesis
      by (auto simp: pct_encode_def segment_safe_def unreserved_def intro: hex_digit_alnum)
  qed
qed

lemma PathEscape_no_separator:
  assumes "c \<in> set (url_PathEscape s)"
  shows "c \<noteq> CHR ''/'' \<and> c \<noteq> CHR ''?'' \<and> c \<noteq> CHR ''#''"
  using PathEscape_chars [OF assms]
  by (auto simp: segment_safe_def unreserved_def is_alnum_def)

section \<open>The host of a plain https URL\<close>

definition plain_host :: "string \<Rightarrow> bool" where
  "plain_host h \<longleftrightarrow> h \<noteq> [] \<and> list_all unreserved h"

lemma unreserved_facts:
  assumes "unreserved c"
  shows "c \<noteq> CHR 0x25" "c \<noteq> CHR ''#''" "c \<noteq> CHR ''?''" "c \<noteq> CHR ''/''" "c \<noteq> CHR ''@''"
    "c \<noteq> CHR '':''" "c \<noteq> CHR ''[''" "\<not> (of_char c :: nat) < 32" "(of_char c :: nat) \<noteq> 127"
  using assms by (auto simp: unreserved_def is_alnum_def)

lemma takeWhile_no: "c \<notin> set s \<Longrightarrow> takeWhile (\<lambda>x. x \<noteq> c) s = s"
  by (induction s) auto

lemma dropWhile_no: "c \<notin> set s \<Longrightarrow> dropWhile (\<lambda>x. x \<noteq> c) s = []"
  by (induction s) auto

lemma Cut_no_sep: "c \<notin> set s \<Longrightarrow> strings_Cut s c = (s, [])"
  by (simp add: strings_Cut_def takeWhile_no dropWhile_no)

lemma unescape_plain: "list_all unreserved s \<Longrightarrow> url_unescape m s = Some s"
  by (induction s) (auto simp: unreserved_facts raw_allowed_def host_safe_def)

lemma plain_host_notin:
  assumes "plain_host h" and "\<not> unreserved c"
  shows "c \<notin> set h"
  using assms by (auto simp: plain_host_def list_all_iff)

lemma not_unreserved:
  "\<not> unreserved (CHR ''#'')" "\<not> unreserved (CHR ''?'')" "\<not> unreserved (CHR ''/'')"
  "\<not> unreserved (CHR ''@'')" "\<not> unreserved (CHR '':'')" "\<not> unreserved (CHR ''['')"
  using unreserved_facts by blast+

lemma parseAuthority_plain:
  assumes "plain_host h"
  shows "url_parseAuthority h = Some h"
proof -
  have "\<not> strings_HasPrefix h ''[''"
    using plain_host_notin [OF assms not_unreserved(6)]
    by (cases h) (auto simp: strings_HasPrefix_def)
  moreover have "cut_last h (CHR ''@'') = None" "cut_last h (CHR '':'') = None"
    using plain_host_notin [OF assms] by (auto simp: cut_last_def not_unreserved)
  ultimately show ?thesis
    using assms by (simp add: url_parseAuthority_def url_parseHost_def unescape_plain plain_host_def)
qed

lemma getScheme_https: "url_getScheme raw [] (''https:'' @ s) = Some (''https'', s)"
  by (simp add: is_alnum_def Let_def)

lemma url_Parse_https:
  assumes h: "plain_host h"
  shows "url_Parse (''https://'' @ h) = Inr h"
proof -
  note no = plain_host_notin [OF h] not_unreserved
  have ctl: "\<not> has_ctl_byte (''https://'' @ h)"
    using h by (auto simp: has_ctl_byte_def plain_host_def list_all_iff list_ex_iff unreserved_facts)
  have frag: "strings_Cut (''https://'' @ h) (CHR ''#'') = (''https://'' @ h, [])"
    using no by (intro Cut_no_sep) auto
  have query: "strings_Cut (''//'' @ h) (CHR ''?'') = (''//'' @ h, [])"
    using no by (intro Cut_no_sep) auto
  have path: "strings_Cut h (CHR ''/'') = (h, [])"
    using no by (intro Cut_no_sep) auto
  have "url_parse (''https://'' @ h) = Some h"
    using ctl query path parseAuthority_plain [OF h]
      getScheme_https [of "''https://'' @ h" "''//'' @ h"]
    by (simp add: url_parse_def strings_HasPrefix_def)
  with frag show ?thesis
    by (simp add: url_Parse_def)
qed

text \<open>With a path and a query: the host is still the one before the path.\<close>

lemma unescape_PathEscape_append:
  "url_unescape EncodePath (url_PathEscape s @ t) = map_option ((@) s) (url_unescape EncodePath t)"
proof (induction s)
  case Nil
  then show ?case by (cases "url_unescape EncodePath t") (simp_all add: url_PathEscape_def)
next
  case (Cons c s)
  let ?n = "of_char c :: nat"
  have hi: "?n div 16 < 16" using byte_lt [of c] by linarith
  have lo: "?n mod 16 < 16" by simp
  show ?case
  proof (cases "segment_safe c")
    case True
    then have "url_PathEscape (c # s) = c # url_PathEscape s" and "c \<noteq> CHR 0x25"
      by (auto simp: url_PathEscape_def segment_safe_not_pct)
    with Cons.IH show ?thesis
      by (cases "url_unescape EncodePath t") (simp_all add: raw_allowed_def)
  next
    case False
    then have "url_PathEscape (c # s) = CHR 0x25 # hex_digit (?n div 16) # hex_digit (?n mod 16)
        # url_PathEscape s"
      by (simp add: url_PathEscape_def pct_encode_def)
    with Cons.IH hi lo show ?thesis
      by (cases "url_unescape EncodePath t") (simp_all add: unhex_hex_digit pct_allowed_def)
  qed
qed

lemma has_ctl_byte_append [simp]: "has_ctl_byte (s @ t) \<longleftrightarrow> has_ctl_byte s \<or> has_ctl_byte t"
  by (simp add: has_ctl_byte_def)

lemma plain_host_ctl: "plain_host h \<Longrightarrow> \<not> has_ctl_byte h"
  by (auto simp: has_ctl_byte_def plain_host_def list_all_iff list_ex_iff unreserved_facts)

lemma PathEscape_ctl: "\<not> has_ctl_byte (url_PathEscape s)"
proof
  assume "has_ctl_byte (url_PathEscape s)"
  then obtain c where "c \<in> set (url_PathEscape s)" and ctl: "(of_char c :: nat) < 32 \<or> (of_char c :: nat) = 127"
    by (auto simp: has_ctl_byte_def list_ex_iff)
  from PathEscape_chars [OF this(1)] ctl show False
    by (auto simp: segment_safe_def unreserved_def is_alnum_def)
qed

lemma Cut_at: "c \<notin> set a \<Longrightarrow> strings_Cut (a @ c # b) c = (a, b)"
  by (induction a) (auto simp: strings_Cut_def)

lemma url_Parse_https_path:
  assumes h: "plain_host h" and ctl: "\<not> has_ctl_byte path" "\<not> has_ctl_byte query"
    and sep: "CHR ''?'' \<notin> set path" "CHR ''#'' \<notin> set path" "CHR ''#'' \<notin> set query"
    and unesc: "url_unescape EncodePath (CHR ''/'' # path) = Some p"
  shows "url_Parse (''https://'' @ h @ ''/'' @ path @ ''?'' @ query) = Inr h"
proof -
  let ?u = "''https://'' @ h @ ''/'' @ path @ ''?'' @ query"
  note no = plain_host_notin [OF h] not_unreserved
  have c: "\<not> has_ctl_byte ?u"
    using plain_host_ctl [OF h] ctl by (simp add: has_ctl_byte_def)
  have frag: "strings_Cut ?u (CHR ''#'') = (?u, [])"
    using no sep by (intro Cut_no_sep) auto
  have query: "strings_Cut ((''//'' @ h @ ''/'' @ path) @ CHR ''?'' # query) (CHR ''?'')
      = (''//'' @ h @ ''/'' @ path, query)"
    using no sep by (intro Cut_at) auto
  have pth: "strings_Cut (h @ CHR ''/'' # path) (CHR ''/'') = (h, path)"
    using no by (intro Cut_at) auto
  have "url_parse ?u = Some h"
    using c query pth parseAuthority_plain [OF h] unesc
      getScheme_https [of ?u "''//'' @ h @ ''/'' @ path @ ''?'' @ query"]
    by (simp add: url_parse_def strings_HasPrefix_def Let_def)
  with frag show ?thesis
    by (simp add: url_Parse_def)
qed

end
