(* ===== verification/GoJson.thy ===== *)
theory GoJson
  imports GoStd
begin

text \<open>
  The decoder of \<^verbatim>\<open>encoding/json\<close>, as the code uses it: a scanner that takes the input byte by byte and
  builds a value, and decoders that store a value into the fields of a Go struct. The scanner has the states of the standard library's
  scanner; its stack has what was read of the surrounding arrays and objects. The wording of errors
  is left out.

  The lemmas show that the scanner reads back what an encoder writes, and that nothing but white
  space can follow a complete object or array.
\<close>

section \<open>Values and strings\<close>

datatype jvalue =
    JVNull
  | JVBool bool
  | JVNumber string
  | JVString string
  | JVArray "jvalue list"
  | JVObject "(string \<times> jvalue) list"

definition json_SyntaxError :: goerror where
  "json_SyntaxError = ErrorString ''json: invalid JSON''"

definition json_TypeError :: goerror where
  "json_TypeError = ErrorString ''json: cannot unmarshal value''"

definition byte_in :: "nat \<Rightarrow> char \<Rightarrow> nat \<Rightarrow> bool" where
  "byte_in lo c hi \<longleftrightarrow> lo \<le> of_char c \<and> of_char c \<le> hi"

definition isDigit :: "char \<Rightarrow> bool" where
  "isDigit c \<longleftrightarrow> byte_in 48 c 57"

text \<open>\<^verbatim>\<open>utf8.DecodeRune\<close>: the length of the encoded rune that the input starts with, if it is valid.\<close>

fun rune_size :: "string \<Rightarrow> nat option" where
  "rune_size (a # b # c # d # s) =
     (if byte_in 0 a 127 then Some 1
      else if byte_in 194 a 223 \<and> byte_in 128 b 191 then Some 2
      else if byte_in 128 c 191 \<and>
        (if byte_in 224 a 224 then byte_in 160 b 191 else if byte_in 237 a 237 then byte_in 128 b 159
         else byte_in 225 a 239 \<and> byte_in 128 b 191) then Some 3
      else if byte_in 128 c 191 \<and> byte_in 128 d 191 \<and>
        (if byte_in 240 a 240 then byte_in 144 b 191 else if byte_in 244 a 244 then byte_in 128 b 143
         else byte_in 241 a 243 \<and> byte_in 128 b 191) then Some 4
      else None)"
| "rune_size [a, b, c] =
     (if byte_in 0 a 127 then Some 1
      else if byte_in 194 a 223 \<and> byte_in 128 b 191 then Some 2
      else if byte_in 128 c 191 \<and>
        (if byte_in 224 a 224 then byte_in 160 b 191 else if byte_in 237 a 237 then byte_in 128 b 159
         else byte_in 225 a 239 \<and> byte_in 128 b 191) then Some 3
      else None)"
| "rune_size [a, b] =
     (if byte_in 0 a 127 then Some 1 else if byte_in 194 a 223 \<and> byte_in 128 b 191 then Some 2 else None)"
| "rune_size [a] = (if byte_in 0 a 127 then Some 1 else None)"
| "rune_size [] = None"

text \<open>\<^verbatim>\<open>utf8.AppendRune\<close>; surrogates and numbers that are no runes give the replacement character.\<close>

definition replacement :: string where
  "replacement = [char_of (239::nat), char_of (191::nat), char_of (189::nat)]"

definition encode_rune :: "nat \<Rightarrow> string" where
  "encode_rune r =
     (if r < 128 then [char_of r]
      else if r < 2048 then [char_of (192 + r div 64), char_of (128 + r mod 64)]
      else if 55296 \<le> r \<and> r \<le> 57343 \<or> 1114111 < r then replacement
      else if r < 65536 then
        [char_of (224 + r div 4096), char_of (128 + r div 64 mod 64), char_of (128 + r mod 64)]
      else [char_of (240 + r div 262144), char_of (128 + r div 4096 mod 64), char_of (128 + r div 64 mod 64),
            char_of (128 + r mod 64)])"

definition hex_val :: "char \<Rightarrow> nat option" where
  "hex_val c =
     (if isDigit c then Some (of_char c - 48)
      else if byte_in 97 c 102 then Some (of_char c - 87)
      else if byte_in 65 c 70 then Some (of_char c - 55)
      else None)"

text \<open>The number of an escape \<^verbatim>\<open>\uXXXX\<close> at the start of the input.\<close>

definition getu4 :: "string \<Rightarrow> nat option" where
  "getu4 s =
     (case s of
        b # u # h1 # h2 # h3 # h4 # _ \<Rightarrow>
          if b = CHR 92 \<and> u = CHR ''u'' then
            (case (hex_val h1, hex_val h2, hex_val h3, hex_val h4) of
               (Some a, Some b, Some c, Some d) \<Rightarrow> Some (((a * 16 + b) * 16 + c) * 16 + d)
             | _ \<Rightarrow> None)
          else None
      | _ \<Rightarrow> None)"

text \<open>What an escape at the start of the input stands for, and its length: a surrogate needs its other
  half behind it.\<close>

definition unquote_u :: "string \<Rightarrow> string \<times> nat" where
  "unquote_u s =
     (case getu4 s of
        None \<Rightarrow> ([], 2)
      | Some r \<Rightarrow>
          if 55296 \<le> r \<and> r \<le> 57343 then
            (case getu4 (drop 6 s) of
               Some r2 \<Rightarrow>
                 if r \<le> 56319 \<and> 56320 \<le> r2 \<and> r2 \<le> 57343
                 then (encode_rune (65536 + (r - 55296) * 1024 + (r2 - 56320)), 12)
                 else (replacement, 6)
             | None \<Rightarrow> (replacement, 6))
          else (encode_rune r, 6))"

definition unescape_char :: "char \<Rightarrow> char" where
  "unescape_char c =
     (if c = CHR ''b'' then CHR 8 else if c = CHR ''f'' then CHR 12 else if c = CHR ''n'' then CHR 10
      else if c = CHR ''r'' then CHR 13 else if c = CHR ''t'' then CHR 9 else c)"

text \<open>The contents of a string literal that the scanner has accepted.\<close>

fun unquote :: "string \<Rightarrow> string" where
  "unquote [] = []"
| "unquote (c # s) =
     (if c = CHR 92 then
        (case s of
           [] \<Rightarrow> []
         | e # s' \<Rightarrow>
             if e = CHR ''u'' then (case unquote_u (c # s) of (r, n) \<Rightarrow> r @ unquote (drop (n - 1) s))
             else unescape_char e # unquote s')
      else (case rune_size (c # s) of
              None \<Rightarrow> replacement @ unquote s
            | Some n \<Rightarrow> take n (c # s) @ unquote (drop (n - 1) s)))"

section \<open>The scanner\<close>

definition json_isSpace :: "char \<Rightarrow> bool" where
  "json_isSpace c \<longleftrightarrow> c = CHR '' '' \<or> c = CHR 9 \<or> c = CHR 13 \<or> c = CHR 10"

definition maxNestingDepth :: nat where
  "maxNestingDepth = 10000"

text \<open>The enclosing arrays and objects: in an array, before a key, after a key, before a value, and after
  a value.\<close>

datatype frame =
    InArray "jvalue list"
  | BeforeKey "(string \<times> jvalue) list"
  | AfterKey "(string \<times> jvalue) list" string
  | BeforeValue "(string \<times> jvalue) list" string
  | AfterValue "(string \<times> jvalue) list"

datatype str_step = StrPlain | StrEsc | StrEscU nat

datatype num_step = NumNeg | Num1 | Num0 | NumDot | NumDot0 | NumE | NumESign | NumE0

text \<open>The steps of the scanner, with what was read of the literal it is in.\<close>

datatype scan_step =
    BeginValueOrEmpty
  | BeginValue
  | BeginStringOrEmpty
  | BeginString
  | EndValue
  | EndTop jvalue
  | InString str_step string
  | InNumber num_step string
  | InLiteral string jvalue

type_synonym scan_state = "scan_step \<times> frame list"

text \<open>A value is complete.\<close>

fun value_done :: "jvalue \<Rightarrow> frame list \<Rightarrow> scan_state" where
  "value_done v [] = (EndTop v, [])"
| "value_done v (InArray vs # st) = (EndValue, InArray (vs @ [v]) # st)"
| "value_done v (BeforeKey ms # st) = (EndValue, AfterKey ms (case v of JVString k \<Rightarrow> k | _ \<Rightarrow> []) # st)"
| "value_done v (BeforeValue ms k # st) = (EndValue, AfterValue (ms @ [(k, v)]) # st)"
| "value_done v (fr # st) = (EndValue, fr # st)"

text \<open>\<^verbatim>\<open>stateEndValue\<close> and \<^verbatim>\<open>stateEndTop\<close>.\<close>

definition endValue :: "scan_state \<Rightarrow> char \<Rightarrow> scan_state option" where
  "endValue s c =
     (if json_isSpace c then Some s
      else (case snd s of
              [] \<Rightarrow> None
            | fr # st \<Rightarrow>
                (case fr of
                   AfterKey ms k \<Rightarrow> if c = CHR '':'' then Some (BeginValue, BeforeValue ms k # st) else None
                 | AfterValue ms \<Rightarrow>
                     if c = CHR '','' then Some (BeginString, BeforeKey ms # st)
                     else if c = CHR ''}'' then Some (value_done (JVObject ms) st) else None
                 | InArray vs \<Rightarrow>
                     if c = CHR '','' then Some (BeginValue, fr # st)
                     else if c = CHR '']'' then Some (value_done (JVArray vs) st) else None
                 | _ \<Rightarrow> None)))"

definition push_frame :: "scan_step \<Rightarrow> frame \<Rightarrow> frame list \<Rightarrow> scan_state option" where
  "push_frame step fr st = (if Suc (length st) \<le> maxNestingDepth then Some (step, fr # st) else None)"

definition beginValue :: "scan_step \<Rightarrow> frame list \<Rightarrow> char \<Rightarrow> scan_state option" where
  "beginValue step st c =
     (if json_isSpace c then Some (step, st)
      else if c = CHR ''{'' then push_frame BeginStringOrEmpty (BeforeKey []) st
      else if c = CHR ''['' then push_frame BeginValueOrEmpty (InArray []) st
      else if c = CHR 34 then Some (InString StrPlain [], st)
      else if c = CHR ''-'' then Some (InNumber NumNeg [c], st)
      else if c = CHR ''0'' then Some (InNumber Num0 [c], st)
      else if byte_in 49 c 57 then Some (InNumber Num1 [c], st)
      else if c = CHR ''t'' then Some (InLiteral ''rue'' (JVBool True), st)
      else if c = CHR ''f'' then Some (InLiteral ''alse'' (JVBool False), st)
      else if c = CHR ''n'' then Some (InLiteral ''ull'' JVNull, st)
      else None)"

definition beginString :: "scan_step \<Rightarrow> frame list \<Rightarrow> char \<Rightarrow> scan_state option" where
  "beginString step st c =
     (if json_isSpace c then Some (step, st) else if c = CHR 34 then Some (InString StrPlain [], st) else None)"

fun inString :: "str_step \<Rightarrow> string \<Rightarrow> frame list \<Rightarrow> char \<Rightarrow> scan_state option" where
  "inString StrPlain lit st c =
     (if c = CHR 34 then Some (value_done (JVString (unquote lit)) st)
      else if c = CHR 92 then Some (InString StrEsc (lit @ [c]), st)
      else if byte_in 32 c 255 then Some (InString StrPlain (lit @ [c]), st) else None)"
| "inString StrEsc lit st c =
     (if c \<in> {CHR ''b'', CHR ''f'', CHR ''n'', CHR ''r'', CHR ''t'', CHR 92, CHR ''/'', CHR 34}
      then Some (InString StrPlain (lit @ [c]), st)
      else if c = CHR ''u'' then Some (InString (StrEscU 3) (lit @ [c]), st) else None)"
| "inString (StrEscU n) lit st c =
     (if hex_val c \<noteq> None
      then Some (InString (if n = 0 then StrPlain else StrEscU (n - 1)) (lit @ [c]), st) else None)"

fun numberStep :: "num_step \<Rightarrow> char \<Rightarrow> num_step option" where
  "numberStep NumNeg c = (if c = CHR ''0'' then Some Num0 else if byte_in 49 c 57 then Some Num1 else None)"
| "numberStep Num1 c =
     (if isDigit c then Some Num1 else if c = CHR ''.'' then Some NumDot
      else if c = CHR ''e'' \<or> c = CHR ''E'' then Some NumE else None)"
| "numberStep Num0 c =
     (if c = CHR ''.'' then Some NumDot else if c = CHR ''e'' \<or> c = CHR ''E'' then Some NumE else None)"
| "numberStep NumDot c = (if isDigit c then Some NumDot0 else None)"
| "numberStep NumDot0 c =
     (if isDigit c then Some NumDot0 else if c = CHR ''e'' \<or> c = CHR ''E'' then Some NumE else None)"
| "numberStep NumE c =
     (if c = CHR ''+'' \<or> c = CHR ''-'' then Some NumESign else if isDigit c then Some NumE0 else None)"
| "numberStep NumESign c = (if isDigit c then Some NumE0 else None)"
| "numberStep NumE0 c = (if isDigit c then Some NumE0 else None)"

text \<open>A number ends at the first byte that does not belong to it.\<close>

definition numberDone :: "num_step \<Rightarrow> bool" where
  "numberDone n \<longleftrightarrow> n \<in> {Num1, Num0, NumDot0, NumE0}"

definition inNumber :: "num_step \<Rightarrow> string \<Rightarrow> frame list \<Rightarrow> char \<Rightarrow> scan_state option" where
  "inNumber n lit st c =
     (case numberStep n c of
        Some n' \<Rightarrow> Some (InNumber n' (lit @ [c]), st)
      | None \<Rightarrow> if numberDone n then endValue (value_done (JVNumber lit) st) c else None)"

definition inLiteral :: "string \<Rightarrow> jvalue \<Rightarrow> frame list \<Rightarrow> char \<Rightarrow> scan_state option" where
  "inLiteral rest v st c =
     (case rest of
        [] \<Rightarrow> None
      | r # rest' \<Rightarrow>
          if c \<noteq> r then None else if rest' = [] then Some (value_done v st) else Some (InLiteral rest' v, st))"

fun scan_byte :: "scan_state \<Rightarrow> char \<Rightarrow> scan_state option" where
  "scan_byte (BeginValueOrEmpty, st) c =
     (if c = CHR '']'' then (case st of [] \<Rightarrow> None | _ # st' \<Rightarrow> Some (value_done (JVArray []) st'))
      else beginValue BeginValueOrEmpty st c)"
| "scan_byte (BeginValue, st) c = beginValue BeginValue st c"
| "scan_byte (BeginStringOrEmpty, st) c =
     (if c = CHR ''}'' then (case st of [] \<Rightarrow> None | _ # st' \<Rightarrow> Some (value_done (JVObject []) st'))
      else beginString BeginStringOrEmpty st c)"
| "scan_byte (BeginString, st) c = beginString BeginString st c"
| "scan_byte (EndValue, st) c = endValue (EndValue, st) c"
| "scan_byte (EndTop v, st) c = (if json_isSpace c then Some (EndTop v, st) else None)"
| "scan_byte (InString s lit, st) c = inString s lit st c"
| "scan_byte (InNumber n lit, st) c = inNumber n lit st c"
| "scan_byte (InLiteral rest v, st) c = inLiteral rest v st c"

fun scan_all :: "scan_state \<Rightarrow> string \<Rightarrow> scan_state option" where
  "scan_all s [] = Some s"
| "scan_all s (c # cs) = (case scan_byte s c of None \<Rightarrow> None | Some s' \<Rightarrow> scan_all s' cs)"

text \<open>At the end of the input the scanner takes one more space, which ends a number at the top.\<close>

definition json_parse :: "string \<Rightarrow> jvalue option" where
  "json_parse data =
     (case scan_all (BeginValue, []) (data @ '' '') of
        Some (EndTop v, _) \<Rightarrow> Some v
      | _ \<Rightarrow> None)"

section \<open>What can follow\<close>

lemma scan_all_append:
  "scan_all s (p @ q) = (case scan_all s p of None \<Rightarrow> None | Some s' \<Rightarrow> scan_all s' q)"
  by (induction p arbitrary: s) (simp_all split: option.split)

lemma scan_top:
  "scan_all (EndTop v, st) q = Some s \<Longrightarrow> s = (EndTop v, st) \<and> list_all json_isSpace q"
  by (induction q) (auto split: if_splits)

text \<open>The rest of a literal has no space.\<close>

definition scan_ok :: "scan_state \<Rightarrow> bool" where
  "scan_ok s = (case fst s of InLiteral rest v \<Rightarrow> \<not> list_ex json_isSpace rest | _ \<Rightarrow> True)"

lemma value_done_ok: "scan_ok (value_done v st)"
  by (cases "(v, st)" rule: value_done.cases) (simp_all add: scan_ok_def)

lemma endValue_ok: "endValue s c = Some s' \<Longrightarrow> scan_ok s \<Longrightarrow> scan_ok s'"
  by (auto simp: endValue_def value_done_ok split: if_splits list.splits frame.splits) (simp_all add: scan_ok_def)

lemma beginValue_ok: "beginValue step st c = Some s' \<Longrightarrow> scan_ok (step, st) \<Longrightarrow> scan_ok s'"
  by (auto simp: beginValue_def push_frame_def scan_ok_def json_isSpace_def split: if_splits)

lemma beginString_ok: "beginString step st c = Some s' \<Longrightarrow> scan_ok (step, st) \<Longrightarrow> scan_ok s'"
  by (auto simp: beginString_def scan_ok_def split: if_splits)

lemma inString_ok: "inString s lit st c = Some s' \<Longrightarrow> scan_ok s'"
  by (cases s) (auto simp: value_done_ok split: if_splits, simp_all add: scan_ok_def)

lemma inNumber_ok: "inNumber n lit st c = Some s' \<Longrightarrow> scan_ok s'"
  using endValue_ok [of "value_done (JVNumber lit) st" c, OF _ value_done_ok]
  by (auto simp: inNumber_def split: option.splits if_splits) (simp add: scan_ok_def)

lemma inLiteral_ok: "inLiteral rest v st c = Some s' \<Longrightarrow> scan_ok (InLiteral rest v, st) \<Longrightarrow> scan_ok s'"
  by (auto simp: inLiteral_def value_done_ok split: list.splits if_splits) (simp add: scan_ok_def)

lemma scan_keeps_ok: "scan_byte s c = Some s' \<Longrightarrow> scan_ok s \<Longrightarrow> scan_ok s'"
  by (cases "(s, c)" rule: scan_byte.cases)
    (auto simp: value_done_ok split: if_splits list.splits
      dest: endValue_ok beginValue_ok beginString_ok inString_ok inNumber_ok inLiteral_ok)

lemma scan_all_ok: "scan_all s p = Some s' \<Longrightarrow> scan_ok s \<Longrightarrow> scan_ok s'"
  by (induction p arbitrary: s) (auto split: option.splits dest: scan_keeps_ok)

lemma space_is_space: "json_isSpace (CHR '' '')"
  by (simp add: json_isSpace_def)

lemma value_done_top: "value_done v st = (EndTop w, st') \<Longrightarrow> st = [] \<and> w = v"
  by (cases "(v, st)" rule: value_done.cases) simp_all

text \<open>A space leads to the end only from the end, or from a number at the top.\<close>

lemma scan_to_end:
  assumes "scan_byte s (CHR '' '') = Some (EndTop v, st)" and "scan_ok s"
  shows "s = (EndTop v, st) \<or> (\<exists>lit. v = JVNumber lit)"
proof (cases "(s, CHR '' '')" rule: scan_byte.cases)
  case (7 str lit st' c)
  with assms show ?thesis by (cases str) (auto split: if_splits dest: value_done_top)
next
  case (8 n lit st' c)
  with assms show ?thesis
    by (auto simp: inNumber_def endValue_def space_is_space split: option.splits if_splits dest: value_done_top)
next
  case (9 rest w st' c)
  with assms show ?thesis
    by (auto simp: inLiteral_def scan_ok_def space_is_space split: list.splits if_splits)
qed (use assms in \<open>auto simp: beginValue_def beginString_def endValue_def space_is_space split: if_splits\<close>)

lemma json_parse_prefix:
  assumes "json_parse p = Some v" and "json_parse (p @ q) = Some w"
  shows "(\<exists>lit. v = JVNumber lit) \<or> w = v \<and> list_all json_isSpace q"
proof -
  obtain s st where s: "scan_all (BeginValue, []) p = Some s" "scan_byte s (CHR '' '') = Some (EndTop v, st)"
    using assms(1) by (auto simp: json_parse_def scan_all_append split: option.splits scan_step.splits prod.splits)
  have "scan_ok s" by (rule scan_all_ok [OF s(1)]) (simp add: scan_ok_def)
  from scan_to_end [OF s(2) this] consider "\<exists>lit. v = JVNumber lit" | "s = (EndTop v, st)" by blast
  then show ?thesis
  proof cases
    case 2
    from assms(2) s(1) obtain st' where "scan_all s (q @ '' '') = Some (EndTop w, st')"
      by (auto simp: json_parse_def scan_all_append split: option.splits scan_step.splits prod.splits)
    with 2 scan_top [of v st "q @ '' ''" "(EndTop w, st')"] show ?thesis by auto
  qed simp
qed

section \<open>Reading back what was written\<close>

text \<open>An encoder for values without numbers, whose strings are printable ASCII.\<close>

definition printable :: "string \<Rightarrow> bool" where
  "printable s \<longleftrightarrow> list_all (\<lambda>c. byte_in 32 c 126) s"

definition escape_char :: "char \<Rightarrow> string" where
  "escape_char c = (if c = CHR 34 \<or> c = CHR 92 then [CHR 92, c] else [c])"

definition encode_string :: "string \<Rightarrow> string" where
  "encode_string s = [CHR 34] @ concat (map escape_char s) @ [CHR 34]"

primrec json_encode :: "jvalue \<Rightarrow> string" where
  "json_encode JVNull = ''null''"
| "json_encode (JVBool b) = (if b then ''true'' else ''false'')"
| "json_encode (JVNumber lit) = lit"
| "json_encode (JVString s) = encode_string s"
| "json_encode (JVArray vs) = ''['' @ join_with '','' (map json_encode vs) @ '']''"
| "json_encode (JVObject ms) =
     ''{'' @ join_with '','' (map (\<lambda>m. encode_string (fst m) @ '':'' @ snd m) (map (map_prod id json_encode) ms)) @ ''}''"

primrec json_depth :: "jvalue \<Rightarrow> nat" where
  "json_depth JVNull = 0"
| "json_depth (JVBool b) = 0"
| "json_depth (JVNumber lit) = 0"
| "json_depth (JVString s) = 0"
| "json_depth (JVArray vs) = Suc (foldr max (map json_depth vs) 0)"
| "json_depth (JVObject ms) = Suc (foldr max (map snd (map (map_prod id json_depth) ms)) 0)"

primrec plain_json :: "jvalue \<Rightarrow> bool" where
  "plain_json JVNull = True"
| "plain_json (JVBool b) = True"
| "plain_json (JVNumber lit) = False"
| "plain_json (JVString s) = printable s"
| "plain_json (JVArray vs) = list_all id (map plain_json vs)"
| "plain_json (JVObject ms) = list_all (\<lambda>m. printable (fst m) \<and> snd m) (map (map_prod id plain_json) ms)"

lemma foldr_max_ge: "x \<in> set xs \<Longrightarrow> (x::nat) \<le> foldr max xs 0"
  by (induction xs) auto

lemma scan_escaped:
  "printable s \<Longrightarrow> scan_all (InString StrPlain lit, st) (concat (map escape_char s))
     = Some (InString StrPlain (lit @ concat (map escape_char s)), st)"
  by (induction s arbitrary: lit) (auto simp: printable_def escape_char_def byte_in_def)

lemma rune_size_ascii: "byte_in 0 c 127 \<Longrightarrow> rune_size (c # s) = Some 1"
  by (cases "c # s" rule: rune_size.cases) simp_all

lemma unquote_escaped: "printable s \<Longrightarrow> unquote (concat (map escape_char s)) = s"
  by (induction s) (auto simp: printable_def escape_char_def unescape_char_def rune_size_ascii byte_in_def)

lemma scan_string:
  assumes "printable s"
  shows "scan_all (BeginValue, st) (encode_string s @ r) = scan_all (value_done (JVString s) st) r"
    and "scan_all (BeginString, st) (encode_string s @ r) = scan_all (value_done (JVString s) st) r"
    and "scan_all (BeginStringOrEmpty, st) (encode_string s @ r) = scan_all (value_done (JVString s) st) r"
    and "scan_all (BeginValueOrEmpty, st) (encode_string s @ r) = scan_all (value_done (JVString s) st) r"
  by (simp_all add: encode_string_def beginValue_def beginString_def json_isSpace_def scan_all_append
      scan_escaped [OF assms] unquote_escaped [OF assms])

lemma scan_value_or_empty:
  assumes "plain_json v"
  shows "scan_all (BeginValueOrEmpty, st) (json_encode v @ r) = scan_all (BeginValue, st) (json_encode v @ r)"
  using assms by (cases v) (simp_all add: beginValue_def json_isSpace_def encode_string_def)

lemma scan_elems:
  assumes "vs \<noteq> []"
    and "\<And>v ws r. v \<in> set vs \<Longrightarrow> scan_all (BeginValue, InArray ws # st) (json_encode v @ r)
      = scan_all (value_done v (InArray ws # st)) r"
  shows "scan_all (BeginValue, InArray ws # st) (join_with '','' (map json_encode vs) @ r)
    = scan_all (EndValue, InArray (ws @ vs) # st) r"
  using assms
proof (induction vs arbitrary: ws rule: induct_list012)
  case (3 v w vs)
  then show ?case by (simp add: endValue_def json_isSpace_def)
qed simp_all

lemma scan_members:
  assumes "ms \<noteq> []" and "step = BeginString \<or> step = BeginStringOrEmpty"
    and "\<And>m ns k r. m \<in> set ms \<Longrightarrow> printable (fst m) \<and>
      scan_all (BeginValue, BeforeValue ns k # st) (json_encode (snd m) @ r)
        = scan_all (value_done (snd m) (BeforeValue ns k # st)) r"
  shows "scan_all (step, BeforeKey ns # st)
      (join_with '','' (map (\<lambda>m. encode_string (fst m) @ '':'' @ json_encode (snd m)) ms) @ r)
    = scan_all (EndValue, AfterValue (ns @ ms) # st) r"
  using assms
proof (induction ms arbitrary: ns step rule: induct_list012)
  case (2 m)
  obtain k v where m: "m = (k, v)" by (cases m)
  have "printable k" and "\<And>r. scan_all (BeginValue, BeforeValue ns k # st) (json_encode v @ r)
      = scan_all (EndValue, AfterValue (ns @ [(k, v)]) # st) r"
    using 2(3) [of m ns k] by (simp_all add: m)
  with 2(2) show ?case by (auto simp: m scan_string endValue_def json_isSpace_def)
next
  case (3 m m' ms)
  have IH: "scan_all (BeginString, BeforeKey ns # st)
      (join_with '','' (map (\<lambda>m. encode_string (fst m) @ '':'' @ json_encode (snd m)) (m' # ms)) @ r)
    = scan_all (EndValue, AfterValue (ns @ m' # ms) # st) r" for ns
    using 3 by simp
  obtain k v where m: "m = (k, v)" by (cases m)
  have "printable k" and "\<And>r. scan_all (BeginValue, BeforeValue ns k # st) (json_encode v @ r)
      = scan_all (EndValue, AfterValue (ns @ [(k, v)]) # st) r"
    using 3(5) [of m ns k] by (simp_all add: m)
  with 3(4) show ?case
    by (auto simp: m scan_string endValue_def json_isSpace_def IH [of "ns @ [(k, v)]", simplified])
qed simp

lemma scan_encoded:
  "plain_json v \<Longrightarrow> length st + json_depth v \<le> maxNestingDepth \<Longrightarrow>
     scan_all (BeginValue, st) (json_encode v @ r) = scan_all (value_done v st) r"
proof (induction v arbitrary: st r)
  case (JVArray vs)
  have push_frame: "push_frame BeginValueOrEmpty (InArray []) st = Some (BeginValueOrEmpty, InArray [] # st)"
    using JVArray.prems(2) by (simp add: push_frame_def)
  show ?case
  proof (cases "vs = []")
    case False
    have elem: "scan_all (BeginValue, InArray ws # st) (json_encode v @ r') = scan_all (value_done v (InArray ws # st)) r'"
      if "v \<in> set vs" for v ws r'
    proof (rule JVArray.IH [OF that])
      show "plain_json v" using JVArray.prems(1) that by (auto simp: list_all_iff)
      show "length (InArray ws # st) + json_depth v \<le> maxNestingDepth"
        using JVArray.prems(2) foldr_max_ge [of "json_depth v" "map json_depth vs"] that by simp
    qed
    have "scan_all (BeginValueOrEmpty, InArray [] # st) (join_with '','' (map json_encode vs) @ r')
        = scan_all (BeginValue, InArray [] # st) (join_with '','' (map json_encode vs) @ r')" for r'
    proof -
      obtain v vs' where vs: "vs = v # vs'" using False by (cases vs) auto
      have "plain_json v" using JVArray.prems(1) vs by simp
      then show ?thesis
        using scan_value_or_empty [of v "InArray [] # st"] by (cases vs') (simp_all add: vs)
    qed
    with scan_elems [OF False elem, where ws = "[]"] push_frame show ?thesis
      by (simp add: beginValue_def json_isSpace_def endValue_def)
  qed (simp add: beginValue_def json_isSpace_def push_frame)
next
  case (JVObject ms)
  have push_frame: "push_frame BeginStringOrEmpty (BeforeKey []) st = Some (BeginStringOrEmpty, BeforeKey [] # st)"
    using JVObject.prems(2) by (simp add: push_frame_def)
  show ?case
  proof (cases "ms = []")
    case False
    have member: "printable (fst m) \<and> scan_all (BeginValue, BeforeValue ns k # st) (json_encode (snd m) @ r')
        = scan_all (value_done (snd m) (BeforeValue ns k # st)) r'"
      if "m \<in> set ms" for m ns k r'
    proof
      show "printable (fst m)" using JVObject.prems(1) that by (auto simp: list_all_iff)
      show "scan_all (BeginValue, BeforeValue ns k # st) (json_encode (snd m) @ r')
        = scan_all (value_done (snd m) (BeforeValue ns k # st)) r'"
      proof (rule JVObject.IH [OF that])
        show "snd m \<in> Basic_BNFs.snds m" by (cases m) simp
        show "plain_json (snd m)" using JVObject.prems(1) that by (auto simp: list_all_iff)
        have "json_depth (snd m) \<in> set (map snd (map (map_prod id json_depth) ms))"
          using that by force
        from foldr_max_ge [OF this] JVObject.prems(2)
        show "length (BeforeValue ns k # st) + json_depth (snd m) \<le> maxNestingDepth" by simp
      qed
    qed
    from scan_members [OF False _ member, where step = BeginStringOrEmpty and ns = "[]"] push_frame show ?thesis
      by (simp add: beginValue_def json_isSpace_def endValue_def comp_def)
  qed (simp add: beginValue_def json_isSpace_def push_frame)
qed (simp_all add: beginValue_def json_isSpace_def scan_string inLiteral_def byte_in_def)

lemma json_roundtrip:
  assumes "plain_json v" and "json_depth v \<le> maxNestingDepth"
  shows "json_parse (json_encode v) = Some v"
  using scan_encoded [OF assms(1), of "[]" "'' ''"] assms(2)
  by (simp add: json_parse_def json_isSpace_def)

section \<open>Decoding into a struct\<close>

text \<open>A decoder stores a value into a record; a value of another type is remembered as an error, and decoding
  goes on. \<^verbatim>\<open>null\<close> leaves a string or a struct as it is and sets a pointer to nil.\<close>

type_synonym 'r json_decoder = "jvalue \<Rightarrow> 'r \<times> bool \<Rightarrow> 'r \<times> bool"

definition decode_string :: "(string \<Rightarrow> 'r \<Rightarrow> 'r) \<Rightarrow> 'r json_decoder" where
  "decode_string upd v = (\<lambda>(r, bad).
     (case v of JVString s \<Rightarrow> (upd s r, bad) | JVNull \<Rightarrow> (r, bad) | _ \<Rightarrow> (r, True)))"

definition decode_bool_pointer :: "(bool option \<Rightarrow> 'r \<Rightarrow> 'r) \<Rightarrow> 'r json_decoder" where
  "decode_bool_pointer upd v = (\<lambda>(r, bad).
     (case v of JVBool b \<Rightarrow> (upd (Some b) r, bad) | JVNull \<Rightarrow> (upd None r, bad) | _ \<Rightarrow> (r, True)))"

text \<open>Keys match a field name exactly or, if none does, after case folding. Besides the letters of ASCII only the long s
  (U+017F) and the Kelvin sign (U+212A) fold to letters of ASCII, which the names of fields consist of.\<close>

fun foldName :: "string \<Rightarrow> string" where
  "foldName (a # b # c # s) =
     (if a = char_of (197::nat) \<and> b = char_of (191::nat) then CHR ''S'' # foldName (c # s)
      else if a = char_of (226::nat) \<and> b = char_of (132::nat) \<and> c = char_of (170::nat) then CHR ''K'' # foldName s
      else (if byte_in 97 a 122 then char_of (of_char a - 32 :: nat) else a) # foldName (b # c # s))"
| "foldName [a, b] =
     (if a = char_of (197::nat) \<and> b = char_of (191::nat) then ''S''
      else (if byte_in 97 a 122 then char_of (of_char a - 32 :: nat) else a) # foldName [b])"
| "foldName [a] = [if byte_in 97 a 122 then char_of (of_char a - 32 :: nat) else a]"
| "foldName [] = []"

definition lookupField :: "(string \<times> 'f) list \<Rightarrow> string \<Rightarrow> 'f option" where
  "lookupField flds key =
     (case map_of flds key of
        Some f \<Rightarrow> Some f
      | None \<Rightarrow> map_option snd (find (\<lambda>(name, f). foldName name = foldName key) flds))"

definition decode_struct :: "(string \<times> 'r json_decoder) list \<Rightarrow> 'r json_decoder" where
  "decode_struct flds v = (\<lambda>(r, bad).
     (case v of
        JVObject ms \<Rightarrow>
          fold (\<lambda>(key, w) s. case lookupField flds key of None \<Rightarrow> s | Some d \<Rightarrow> d w s) ms (r, bad)
      | JVNull \<Rightarrow> (r, bad)
      | _ \<Rightarrow> (r, True)))"

definition json_Unmarshal :: "'r json_decoder \<Rightarrow> 'r \<Rightarrow> string \<Rightarrow> 'r result" where
  "json_Unmarshal decode zero data =
     (case json_parse data of
        None \<Rightarrow> Inl json_SyntaxError
      | Some v \<Rightarrow> (case decode v (zero, False) of (r, bad) \<Rightarrow> if bad then Inl json_TypeError else Inr r))"

text \<open>The start of a document is never a document for a struct, unless only space is missing.\<close>

lemma json_Unmarshal_prefix:
  assumes "json_Unmarshal (decode_struct flds) zero p = Inr r"
    and "json_Unmarshal (decode_struct flds) zero (p @ q) = Inr r'"
  shows "r' = r \<and> list_all json_isSpace q"
proof -
  obtain v where v: "json_parse p = Some v" "decode_struct flds v (zero, False) = (r, False)"
    using assms(1) by (auto simp: json_Unmarshal_def split: option.splits prod.splits if_splits)
  obtain w where w: "json_parse (p @ q) = Some w" "decode_struct flds w (zero, False) = (r', False)"
    using assms(2) by (auto simp: json_Unmarshal_def split: option.splits prod.splits if_splits)
  have "v \<noteq> JVNumber lit" for lit using v(2) by (auto simp: decode_struct_def)
  with json_parse_prefix [OF v(1) w(1)] v(2) w(2) show ?thesis by auto
qed

lemma json_Unmarshal_encoded:
  assumes "plain_json v" and "json_depth v \<le> maxNestingDepth" and "decode v (zero, False) = (r, False)"
  shows "json_Unmarshal decode zero (json_encode v) = Inr r"
  by (simp add: json_Unmarshal_def json_roundtrip [OF assms(1,2)] assms(3))

end
