(* ===== verification/GkeCluster.thy ===== *)
theory GkeCluster
  imports RemoteProvider GoUrl GoJson
begin

text \<open>
  The pure part of \<^verbatim>\<open>syncer/controllers/remote_cluster.go\<close>: cluster names and connection keys, the
  endpoint selection of a \<^verbatim>\<open>gkeCluster\<close>, the request sent to the GKE API and the extraction of
  error messages.
\<close>

section \<open>Names and keys\<close>

definition gkeClusterName :: "RemoteConfig option \<Rightarrow> string result" where
  "gkeClusterName remote =
     (case remote of
        None \<Rightarrow> Inl (ErrorString ''spec.remote.gkeCluster must be set'')
      | Some r \<Rightarrow>
          (case remote_GKECluster r of
             None \<Rightarrow> Inl (ErrorString ''spec.remote.gkeCluster must be set'')
           | Some g \<Rightarrow>
               if gke_Project g = [] \<or> gke_Location g = [] \<or> gke_Name g = []
               then Inl (ErrorString ''spec.remote.gkeCluster requires project, location and name'')
               else Inr (''projects/'' @ gke_Project g @ ''/locations/'' @ gke_Location g
                         @ ''/clusters/'' @ gke_Name g)))"

text \<open>\<^verbatim>\<open>remote.GKECluster\<close>, which the code dereferences only after \<^verbatim>\<open>gkeClusterName\<close> succeeded.\<close>

definition gkeClusterOf :: "RemoteConfig option \<Rightarrow> GKECluster option" where
  "gkeClusterOf remote = Option.bind remote remote_GKECluster"

definition effectiveEndpoint :: "GKECluster \<Rightarrow> GKEEndpoint" where
  "effectiveEndpoint g = (if gke_Endpoint g = [] then GKEEndpointDefault else gke_Endpoint g)"

definition GKE_Key :: "string \<Rightarrow> RemoteConfig option \<Rightarrow> string result" where
  "GKE_Key ns remote =
     (case gkeClusterName remote of
        Inl e \<Rightarrow> Inl e
      | Inr name \<Rightarrow>
          (case gkeClusterOf remote of
             Some g \<Rightarrow> Inr (''gke/'' @ name @ ''/'' @ effectiveEndpoint g)
           | None \<Rightarrow> Inl (ErrorString ''nil pointer dereference'')))"

lemma gkeClusterName_Inr_iff:
  "gkeClusterName remote = Inr name \<longleftrightarrow>
     (\<exists>g. gkeClusterOf remote = Some g \<and> gke_Project g \<noteq> [] \<and> gke_Location g \<noteq> [] \<and> gke_Name g \<noteq> [] \<and>
        name = ''projects/'' @ gke_Project g @ ''/locations/'' @ gke_Location g
          @ ''/clusters/'' @ gke_Name g)"
  by (auto simp: gkeClusterName_def gkeClusterOf_def split: option.splits if_splits)

lemma gkeClusterName_deref: "gkeClusterName remote = Inr name \<Longrightarrow> \<exists>g. gkeClusterOf remote = Some g"
  by (auto simp: gkeClusterName_Inr_iff)

section \<open>Endpoint selection\<close>

text \<open>The subset of the GKE API's cluster resource, with its nested structs flattened.\<close>

record gkeCluster =
  gc_Endpoint :: string
  gc_ClusterCACertificate :: string
  gc_PrivateEndpoint :: string
  gc_DNSEndpoint :: string
  gc_AllowExternalTraffic :: "bool option"
  gc_IPPrivateEndpoint :: string

definition ipRESTConfig :: "gkeCluster \<Rightarrow> string \<Rightarrow> 't rest_config result" where
  "ipRESTConfig c host =
     (case base64_DecodeString (gc_ClusterCACertificate c) of
        Inl e \<Rightarrow> Inl (WrapError ''decoding cluster CA certificate: '' e)
      | Inr caData \<Rightarrow>
          Inr \<lparr>rc_Host = ''https://'' @ host, rc_CAData = caData, rc_Timeout = 0, rc_Wrappers = []\<rparr>)"

definition restConfig :: "gkeCluster \<Rightarrow> GKEEndpoint \<Rightarrow> 't rest_config result" where
  "restConfig c endpoint =
     (if endpoint = GKEEndpointDNS then
        (if gc_DNSEndpoint c = [] \<or> gc_AllowExternalTraffic c = None \<or> gc_AllowExternalTraffic c = Some False
         then Inl (ErrorString (''DNS endpoint is not enabled for external traffic on the cluster; enable it with ''
           @ ''`gcloud container clusters update --enable-dns-access`, or set spec.remote.gkeCluster.endpoint to Default or PrivateIP''))
         else Inr \<lparr>rc_Host = ''https://'' @ gc_DNSEndpoint c, rc_CAData = [], rc_Timeout = 0, rc_Wrappers = []\<rparr>)
      else if endpoint = GKEEndpointPrivateIP then
        (let host = (if gc_IPPrivateEndpoint c = [] then gc_PrivateEndpoint c else gc_IPPrivateEndpoint c) in
         if host = []
         then Inl (ErrorString (''cluster has no private endpoint. IP access may be disabled, ''
           @ ''set spec.remote.gkeCluster.endpoint to DNS or Default''))
         else ipRESTConfig c host)
      else if endpoint = GKEEndpointDefault \<or> endpoint = [] then
        (if gc_Endpoint c = []
         then Inl (ErrorString (''cluster has no IP endpoint. IP access may be disabled, ''
           @ ''set spec.remote.gkeCluster.endpoint to DNS''))
         else ipRESTConfig c (gc_Endpoint c))
      else Inl (ErrorString (''unsupported endpoint '' @ go_quote endpoint)))"

section \<open>The request to the GKE API\<close>

definition defaultContainerAPIEndpoint :: string where
  "defaultContainerAPIEndpoint = ''https://container.googleapis.com''"

definition gkeClusterFields :: string where
  "gkeClusterFields = ''endpoint,masterAuth.clusterCaCertificate,privateClusterConfig.privateEndpoint,controlPlaneEndpointsConfig''"

definition userAgent :: string where
  "userAgent = ''kube-etl-krmsyncer''"

definition clusterPath :: "GKECluster \<Rightarrow> string" where
  "clusterPath ref = ''/v1/projects/'' @ url_PathEscape (gke_Project ref)
     @ ''/locations/'' @ url_PathEscape (gke_Location ref)
     @ ''/clusters/'' @ url_PathEscape (gke_Name ref)"

definition clusterURL :: "string \<Rightarrow> GKECluster \<Rightarrow> string" where
  "clusterURL endpoint ref =
     endpoint @ clusterPath ref @ ''?fields='' @ url_QueryEscape gkeClusterFields"

section \<open>Answers of the GKE API\<close>

text \<open>The tags of the struct \<^verbatim>\<open>gkeCluster\<close> and of the error responses, as decoders.\<close>

definition zeroGkeCluster :: gkeCluster where
  "zeroGkeCluster = \<lparr>gc_Endpoint = [], gc_ClusterCACertificate = [], gc_PrivateEndpoint = [],
     gc_DNSEndpoint = [], gc_AllowExternalTraffic = None, gc_IPPrivateEndpoint = []\<rparr>"

definition gkeCluster_decoder :: "gkeCluster json_decoder" where
  "gkeCluster_decoder = decode_struct
     [(''endpoint'', decode_string (\<lambda>s c. c\<lparr>gc_Endpoint := s\<rparr>)),
      (''masterAuth'', decode_struct
        [(''clusterCaCertificate'', decode_string (\<lambda>s c. c\<lparr>gc_ClusterCACertificate := s\<rparr>))]),
      (''privateClusterConfig'', decode_struct
        [(''privateEndpoint'', decode_string (\<lambda>s c. c\<lparr>gc_PrivateEndpoint := s\<rparr>))]),
      (''controlPlaneEndpointsConfig'', decode_struct
        [(''dnsEndpointConfig'', decode_struct
           [(''endpoint'', decode_string (\<lambda>s c. c\<lparr>gc_DNSEndpoint := s\<rparr>)),
            (''allowExternalTraffic'', decode_bool_pointer (\<lambda>b c. c\<lparr>gc_AllowExternalTraffic := b\<rparr>))]),
         (''ipEndpointsConfig'', decode_struct
           [(''privateEndpoint'', decode_string (\<lambda>s c. c\<lparr>gc_IPPrivateEndpoint := s\<rparr>))])])]"

definition unmarshalCluster :: "string \<Rightarrow> gkeCluster result" where
  "unmarshalCluster = json_Unmarshal gkeCluster_decoder zeroGkeCluster"

definition unmarshalMessage :: "string \<Rightarrow> string result" where
  "unmarshalMessage = json_Unmarshal
     (decode_struct [(''error'', decode_struct [(''message'', decode_string (\<lambda>s _. s))])]) []"

definition googleAPIErrorMessage :: "string \<Rightarrow> string" where
  "googleAPIErrorMessage body =
     (let fallback =
        (let msg = strings_TrimSpace body in if length msg > 256 then take 256 msg @ ''...'' else msg) in
      case unmarshalMessage body of
        Inl _ \<Rightarrow> fallback
      | Inr m \<Rightarrow> if m \<noteq> [] then m else fallback)"

text \<open>The document that describes a cluster, in the order of the fields.\<close>

definition clusterJSON :: "gkeCluster \<Rightarrow> jvalue" where
  "clusterJSON c = JVObject
     [(''endpoint'', JVString (gc_Endpoint c)),
      (''masterAuth'', JVObject [(''clusterCaCertificate'', JVString (gc_ClusterCACertificate c))]),
      (''privateClusterConfig'', JVObject [(''privateEndpoint'', JVString (gc_PrivateEndpoint c))]),
      (''controlPlaneEndpointsConfig'', JVObject
        [(''dnsEndpointConfig'', JVObject
           [(''endpoint'', JVString (gc_DNSEndpoint c)),
            (''allowExternalTraffic'', case gc_AllowExternalTraffic c of None \<Rightarrow> JVNull | Some b \<Rightarrow> JVBool b)]),
         (''ipEndpointsConfig'', JVObject [(''privateEndpoint'', JVString (gc_IPPrivateEndpoint c))])])]"

definition printable_cluster :: "gkeCluster \<Rightarrow> bool" where
  "printable_cluster c \<longleftrightarrow> printable (gc_Endpoint c) \<and> printable (gc_ClusterCACertificate c) \<and>
     printable (gc_PrivateEndpoint c) \<and> printable (gc_DNSEndpoint c) \<and> printable (gc_IPPrivateEndpoint c)"

lemma clusterJSON_plain: "printable_cluster c \<Longrightarrow> plain_json (clusterJSON c)"
  by (simp add: clusterJSON_def printable_cluster_def split: option.split) (simp add: printable_def byte_in_def)

lemma clusterJSON_depth: "json_depth (clusterJSON c) = 3"
  by (simp add: clusterJSON_def split: option.split)

lemma decode_clusterJSON: "gkeCluster_decoder (clusterJSON c) (zeroGkeCluster, False) = (c, False)"
  by (cases "gc_AllowExternalTraffic c")
    (simp_all add: clusterJSON_def gkeCluster_decoder_def decode_struct_def decode_string_def
      decode_bool_pointer_def lookupField_def zeroGkeCluster_def)

lemma unmarshalCluster_encoded:
  "printable_cluster c \<Longrightarrow> unmarshalCluster (json_encode (clusterJSON c)) = Inr c"
  unfolding unmarshalCluster_def
  by (rule json_Unmarshal_encoded) (simp_all add: clusterJSON_plain decode_clusterJSON clusterJSON_depth maxNestingDepth_def)

lemma unmarshalCluster_prefix:
  "unmarshalCluster p = Inr c \<Longrightarrow> unmarshalCluster (p @ q) = Inr c' \<Longrightarrow> c' = c \<and> list_all json_isSpace q"
  unfolding unmarshalCluster_def gkeCluster_decoder_def by (rule json_Unmarshal_prefix)

section \<open>Keys identify connections\<close>

text \<open>A segment of a resource name: not empty and without a slash.\<close>

definition plainSegment :: "string \<Rightarrow> bool" where
  "plainSegment s \<longleftrightarrow> s \<noteq> [] \<and> CHR ''/'' \<notin> set s"

definition plainRemote :: "RemoteConfig option \<Rightarrow> bool" where
  "plainRemote r = (case gkeClusterOf r of None \<Rightarrow> False
     | Some g \<Rightarrow> plainSegment (gke_Project g) \<and> plainSegment (gke_Location g) \<and> plainSegment (gke_Name g))"

definition connection :: "RemoteConfig option \<Rightarrow> (string \<times> string \<times> string \<times> string) option" where
  "connection r = map_option
     (\<lambda>g. (gke_Project g, gke_Location g, gke_Name g, effectiveEndpoint g)) (gkeClusterOf r)"

lemma GKE_Key_Some:
  assumes "gkeClusterOf r = Some g" and "gke_Project g \<noteq> []" "gke_Location g \<noteq> []" "gke_Name g \<noteq> []"
  shows "GKE_Key ns r = Inr (''gke/projects/'' @ gke_Project g @ ''/locations/'' @ gke_Location g
    @ ''/clusters/'' @ gke_Name g @ ''/'' @ effectiveEndpoint g)"
proof -
  have "gkeClusterName r = Inr (''projects/'' @ gke_Project g @ ''/locations/'' @ gke_Location g
      @ ''/clusters/'' @ gke_Name g)"
    using assms by (simp add: gkeClusterName_Inr_iff)
  with assms(1) show ?thesis by (simp add: GKE_Key_def)
qed

lemma GKE_Key_error_iff: "(\<exists>e. GKE_Key ns r = Inl e) \<longleftrightarrow> (\<exists>e. gkeClusterName r = Inl e)"
  using gkeClusterName_deref by (fastforce simp: GKE_Key_def split: sum.splits option.splits)

lemma key_text_inj:
  assumes "plainSegment p" "plainSegment l" "plainSegment n"
    and "plainSegment p'" "plainSegment l'" "plainSegment n'"
  shows "''gke/projects/'' @ p @ ''/locations/'' @ l @ ''/clusters/'' @ n @ ''/'' @ e
       = ''gke/projects/'' @ p' @ ''/locations/'' @ l' @ ''/clusters/'' @ n' @ ''/'' @ e'
     \<longleftrightarrow> p = p' \<and> l = l' \<and> n = n' \<and> e = e'" (is "?k = ?k' \<longleftrightarrow> _")
proof
  assume eq: "?k = ?k'"
  then have "p @ CHR ''/'' # (''locations/'' @ l @ ''/clusters/'' @ n @ ''/'' @ e)
      = p' @ CHR ''/'' # (''locations/'' @ l' @ ''/clusters/'' @ n' @ ''/'' @ e')" by simp
  from append_sep_inj [OF this] assms have p: "p = p'"
    and "l @ CHR ''/'' # (''clusters/'' @ n @ ''/'' @ e) = l' @ CHR ''/'' # (''clusters/'' @ n' @ ''/'' @ e')"
    by (auto simp: plainSegment_def)
  from append_sep_inj [OF this(2)] assms have l: "l = l'"
    and "n @ CHR ''/'' # e = n' @ CHR ''/'' # e'"
    by (auto simp: plainSegment_def)
  from append_sep_inj [OF this(2)] assms have "n = n' \<and> e = e'"
    by (auto simp: plainSegment_def)
  with p l show "p = p' \<and> l = l' \<and> n = n' \<and> e = e'" by simp
qed simp

lemma plainRemote_Some:
  assumes "plainRemote r"
  obtains g where "gkeClusterOf r = Some g" "plainSegment (gke_Project g)"
    "plainSegment (gke_Location g)" "plainSegment (gke_Name g)"
  using assms by (auto simp: plainRemote_def split: option.splits)

lemma GKE_Key_plain:
  assumes "plainRemote r" and "gkeClusterOf r = Some g"
  shows "GKE_Key ns r = Inr (''gke/projects/'' @ gke_Project g @ ''/locations/'' @ gke_Location g
    @ ''/clusters/'' @ gke_Name g @ ''/'' @ effectiveEndpoint g)"
  by (rule GKE_Key_Some) (use assms in \<open>auto simp: plainRemote_def plainSegment_def\<close>)

lemma GKE_Key_identifies:
  assumes "plainRemote r" and "plainRemote r'"
  shows "GKE_Key ns r = GKE_Key ns' r' \<longleftrightarrow> connection r = connection r'"
proof -
  from assms(1) obtain g where g: "gkeClusterOf r = Some g" "plainSegment (gke_Project g)"
    "plainSegment (gke_Location g)" "plainSegment (gke_Name g)" by (rule plainRemote_Some)
  from assms(2) obtain g' where g': "gkeClusterOf r' = Some g'" "plainSegment (gke_Project g')"
    "plainSegment (gke_Location g')" "plainSegment (gke_Name g')" by (rule plainRemote_Some)
  show ?thesis
    unfolding GKE_Key_plain [OF assms(1) g(1)] GKE_Key_plain [OF assms(2) g'(1)] sum.inject
      key_text_inj [OF g(2-4) g'(2-4)]
    using g(1) g'(1) by (auto simp: connection_def)
qed

text \<open>C31: Connection keys identify connections: for remotes whose project, location and name are not
  empty and contain no slash, two keys are equal exactly if project, location, name and endpoint
  (with the default filled in) are equal, whatever namespaces the KRMSyncers live in.\<close>

theorem keys_identify_connections:
  assumes "gkeClusterOf r = Some g" and "gkeClusterOf r' = Some g'"
    and "\<forall>s \<in> {gke_Project g, gke_Location g, gke_Name g,
              gke_Project g', gke_Location g', gke_Name g'}. s \<noteq> [] \<and> CHR ''/'' \<notin> set s"
  shows "GKE_Key ns r = GKE_Key ns' r' \<longleftrightarrow>
    gke_Project g = gke_Project g' \<and> gke_Location g = gke_Location g' \<and> gke_Name g = gke_Name g' \<and>
    (gke_Endpoint g = gke_Endpoint g' \<or> {gke_Endpoint g, gke_Endpoint g'} = {[], ''Default''})"
proof -
  have "plainRemote r" "plainRemote r'"
    using assms by (auto simp: plainRemote_def plainSegment_def)
  from GKE_Key_identifies [OF this] assms(1,2) show ?thesis
    by (auto simp: connection_def effectiveEndpoint_def GKEEndpointDefault_def doubleton_eq_iff)
qed

theorem keys_identify_connections_witness:
  "\<exists>r r' ns. gkeClusterOf r \<noteq> None \<and> gkeClusterOf r' \<noteq> None \<and> r \<noteq> r' \<and> GKE_Key ns r = GKE_Key [] r'"
proof -
  let ?g = "\<lparr>gke_Project = ''p'', gke_Location = ''us-central1'', gke_Name = ''c'', gke_Endpoint = []\<rparr>"
  let ?g' = "?g\<lparr>gke_Endpoint := ''Default''\<rparr>"
  let ?r = "Some \<lparr>remote_GKECluster = Some ?g\<rparr>" and ?r' = "Some \<lparr>remote_GKECluster = Some ?g'\<rparr>"
  have of: "gkeClusterOf ?r = Some ?g" "gkeClusterOf ?r' = Some ?g'"
    by (simp_all add: gkeClusterOf_def)
  have "GKE_Key ''ns'' ?r = GKE_Key [] ?r'"
    using keys_identify_connections [OF of] by simp
  with of show ?thesis by (intro exI [of _ ?r] exI [of _ ?r'] exI [of _ "''ns''"]) simp
qed

text \<open>The keys do not escape their parts, so a slash in the project or location (which the CRD
  admits) makes the keys of two different clusters equal, although the GKE API is asked for
  different resources: the second cluster is served from the first one's cache entry.\<close>

theorem keys_collide_on_slashes:
  "\<exists>g g'. GKE_Key ns (Some \<lparr>remote_GKECluster = Some g\<rparr>) = GKE_Key ns (Some \<lparr>remote_GKECluster = Some g'\<rparr>) \<and>
     gkeClusterName (Some \<lparr>remote_GKECluster = Some g\<rparr>)
       = gkeClusterName (Some \<lparr>remote_GKECluster = Some g'\<rparr>) \<and>
     clusterPath g \<noteq> clusterPath g'"
proof -
  let ?g = "\<lparr>gke_Project = ''p/locations/a'', gke_Location = ''b'', gke_Name = ''n'', gke_Endpoint = []\<rparr>"
  let ?g' = "\<lparr>gke_Project = ''p'', gke_Location = ''a/locations/b'', gke_Name = ''n'', gke_Endpoint = []\<rparr>"
  have "clusterPath ?g \<noteq> clusterPath ?g'"
    by (simp add: clusterPath_def url_PathEscape_def segment_safe_def unreserved_def is_alnum_def
        pct_encode_def hex_digit_def)
  then show ?thesis
    by (intro exI [of _ ?g] exI [of _ ?g'])
      (simp add: GKE_Key_def gkeClusterName_def gkeClusterOf_def effectiveEndpoint_def)
qed

section \<open>Endpoint selection is sound\<close>

lemma ipRESTConfig_Inr_iff:
  "ipRESTConfig c host = Inr cfg \<longleftrightarrow>
     (\<exists>ca. base64_DecodeString (gc_ClusterCACertificate c) = Inr ca \<and>
        cfg = \<lparr>rc_Host = ''https://'' @ host, rc_CAData = ca, rc_Timeout = 0, rc_Wrappers = []\<rparr>)"
  by (auto simp: ipRESTConfig_def split: sum.splits)


definition exampleCluster :: gkeCluster where
  "exampleCluster = \<lparr>gc_Endpoint = ''1.2.3.4'', gc_ClusterCACertificate = ''Y2E='', gc_PrivateEndpoint = ''10.0.0.2'',
     gc_DNSEndpoint = ''gke-abc.gke.goog'', gc_AllowExternalTraffic = Some True, gc_IPPrivateEndpoint = []\<rparr>"

lemma encode_example: "base64_encode ''ca'' = ''Y2E=''"
  by code_simp

lemma exampleCluster_ca: "base64_DecodeString (gc_ClusterCACertificate exampleCluster) = Inr ''ca''"
  using base64_decode_encode_plain [of "''ca''", unfolded encode_example]
  by (simp only: exampleCluster_def gkeCluster.simps)

lemma exampleCluster_config:
  "restConfig exampleCluster ''PrivateIP''
     = Inr \<lparr>rc_Host = ''https://10.0.0.2'', rc_CAData = ''ca'', rc_Timeout = 0, rc_Wrappers = []\<rparr>"
  using exampleCluster_ca
  by (simp add: restConfig_def ipRESTConfig_def endpoint_defs exampleCluster_def)


text \<open>A CA certificate that the API reports in base64, with or without line breaks, is the CA the
  connection trusts.\<close>

theorem cluster_ca_roundtrip:
  assumes "filter (\<lambda>c. c \<noteq> CHR 0x0D \<and> c \<noteq> CHR 0x0A) (gc_ClusterCACertificate c) = base64_encode ca"
  shows "ipRESTConfig c host
    = Inr \<lparr>rc_Host = ''https://'' @ host, rc_CAData = ca, rc_Timeout = 0, rc_Wrappers = []\<rparr>"
  by (simp add: ipRESTConfig_def base64_decode_encode [OF assms])

theorem cluster_ca_roundtrip_witness:
  "ipRESTConfig (exampleCluster\<lparr>gc_ClusterCACertificate := ''Y2'' @ [CHR 0x0A] @ ''E=''\<rparr>) ''h''
    = Inr \<lparr>rc_Host = ''https://h'', rc_CAData = ''ca'', rc_Timeout = 0, rc_Wrappers = []\<rparr>"
  using cluster_ca_roundtrip [of "exampleCluster\<lparr>gc_ClusterCACertificate := ''Y2'' @ [CHR 0x0A] @ ''E=''\<rparr>"
      "''ca''" "''h''", unfolded encode_example]
  by simp

text \<open>KRMSyncers with the same connection key share one connection, and that is sound: for one
  cluster resource they would get the same configuration.\<close>

theorem same_key_same_configuration:
  assumes "gkeClusterOf r = Some g" and "gkeClusterOf r' = Some g'"
    and "plainRemote r" and "plainRemote r'" and "GKE_Key ns r = GKE_Key ns' r'"
  shows "gkeClusterName r = gkeClusterName r' \<and> clusterURL base g = clusterURL base g' \<and>
    restConfig c (gke_Endpoint g) = restConfig c (gke_Endpoint g')"
proof -
  have eff: "restConfig c (gke_Endpoint h) = restConfig c (effectiveEndpoint h)" for h
    by (auto simp: restConfig_def effectiveEndpoint_def)
  from GKE_Key_identifies [OF assms(3,4)] assms(1,2,5)
  have eq: "gke_Project g = gke_Project g'" "gke_Location g = gke_Location g'"
    "gke_Name g = gke_Name g'" "effectiveEndpoint g = effectiveEndpoint g'"
    by (auto simp: connection_def)
  have "gkeClusterName r = Inr n \<longleftrightarrow> gkeClusterName r' = Inr n" for n
    unfolding gkeClusterName_Inr_iff using assms(1,2) eq by auto
  moreover obtain n where "gkeClusterName r = Inr n"
    using assms(1,3) by (auto simp: gkeClusterName_Inr_iff plainRemote_def plainSegment_def)
  ultimately have "gkeClusterName r = gkeClusterName r'" by metis
  with eq show ?thesis
    by (simp add: eff clusterURL_def clusterPath_def)
qed

section \<open>The request and its errors\<close>

text \<open>The values of a KRMSyncer cannot alter the structure of the request path: whatever the
  project, location and name contain, the path has exactly the segments the code intends, and
  unescaping them gives the original values back.\<close>

theorem request_path_structure:
  "strings_Split (clusterPath ref) (CHR ''/'')
     = [[], ''v1'', ''projects'', url_PathEscape (gke_Project ref), ''locations'',
        url_PathEscape (gke_Location ref), ''clusters'', url_PathEscape (gke_Name ref)] \<and>
   url_unescape EncodePath (url_PathEscape (gke_Project ref)) = Some (gke_Project ref) \<and>
   url_unescape EncodePath (url_PathEscape (gke_Location ref)) = Some (gke_Location ref) \<and>
   url_unescape EncodePath (url_PathEscape (gke_Name ref)) = Some (gke_Name ref) \<and>
   CHR ''?'' \<notin> set (clusterPath ref) \<and> CHR ''#'' \<notin> set (clusterPath ref)"
proof -
  have no: "CHR ''/'' \<notin> set (url_PathEscape s)" "CHR ''?'' \<notin> set (url_PathEscape s)"
    "CHR ''#'' \<notin> set (url_PathEscape s)" for s
    using PathEscape_no_separator by blast+
  have path: "clusterPath ref = CHR ''/'' # ''v1'' @ CHR ''/'' # ''projects''
      @ CHR ''/'' # url_PathEscape (gke_Project ref) @ CHR ''/'' # ''locations''
      @ CHR ''/'' # url_PathEscape (gke_Location ref) @ CHR ''/'' # ''clusters''
      @ CHR ''/'' # url_PathEscape (gke_Name ref)"
    by (simp add: clusterPath_def)
  have "strings_Split (clusterPath ref) (CHR ''/'')
     = [[], ''v1'', ''projects'', url_PathEscape (gke_Project ref), ''locations'',
        url_PathEscape (gke_Location ref), ''clusters'', url_PathEscape (gke_Name ref)]"
    unfolding path by (simp add: Split_append Split_no_sep no)
  then show ?thesis
    by (simp add: unescape_PathEscape no) (simp add: path no)
qed

text \<open>C32: Whatever the project, location and name contain, the request URL is well formed and goes to the
  host of the configured GKE API endpoint.\<close>

theorem request_goes_to_api_host:
  assumes "plain_host h"
  shows "url_Parse (clusterURL (''https://'' @ h) ref) = Inr h"
proof -
  let ?path = "''v1/projects/'' @ url_PathEscape (gke_Project ref) @ ''/locations/''
    @ url_PathEscape (gke_Location ref) @ ''/clusters/'' @ url_PathEscape (gke_Name ref)"
  let ?query = "''fields='' @ url_QueryEscape gkeClusterFields"
  have query: "\<not> has_ctl_byte ?query" "CHR ''#'' \<notin> set ?query"
    by code_simp+
  have no: "CHR ''?'' \<notin> set (url_PathEscape s)" "CHR ''#'' \<notin> set (url_PathEscape s)" for s
    using PathEscape_no_separator by blast+
  have path: "\<not> has_ctl_byte ?path" "CHR ''?'' \<notin> set ?path" "CHR ''#'' \<notin> set ?path"
    by (simp_all add: no) (simp add: has_ctl_byte_def PathEscape_ctl [unfolded has_ctl_byte_def])
  have "\<exists>p. url_unescape EncodePath (CHR ''/'' # ?path) = Some p"
    by (simp add: unescape_PathEscape_append unescape_PathEscape raw_allowed_def)
  then obtain p where p: "url_unescape EncodePath (CHR ''/'' # ?path) = Some p" by blast
  from url_Parse_https_path [OF assms path(1) query(1) path(2,3) query(2) p] show ?thesis
    by (simp add: clusterURL_def clusterPath_def)
qed

theorem request_goes_to_api_host_witness:
  "plain_host ''container.googleapis.com'' \<and>
   url_Parse (clusterURL defaultContainerAPIEndpoint
     \<lparr>gke_Project = ''../x?y#z'', gke_Location = ''l'', gke_Name = ''n'', gke_Endpoint = []\<rparr>)
     = Inr ''container.googleapis.com''"
proof -
  have "plain_host ''container.googleapis.com''" by code_simp
  from this request_goes_to_api_host [OF this,
      of "\<lparr>gke_Project = ''../x?y#z'', gke_Location = ''l'', gke_Name = ''n'', gke_Endpoint = []\<rparr>"]
  show ?thesis by (simp add: defaultContainerAPIEndpoint_def)
qed

text \<open>Dot segments are not escaped, so a project, location or name of two dots stays a parent
  reference in the request path.\<close>

theorem dot_segments_are_not_escaped:
  "clusterPath \<lparr>gke_Project = ''..'', gke_Location = ''..'', gke_Name = n, gke_Endpoint = e\<rparr>
     = ''/v1/projects/../locations/../clusters/'' @ url_PathEscape n"
  by (simp add: clusterPath_def url_PathEscape_def segment_safe_def unreserved_def)

text \<open>The message reported for an API error response that has no message of its own is bounded: it is
  the trimmed body, cut after 256 bytes and then followed by three dots.\<close>

theorem error_message_bounded:
  assumes "\<forall>m. unmarshalMessage body = Inr m \<longrightarrow> m = []"
  shows "length (googleAPIErrorMessage body) \<le> 259 \<and>
    take 256 (googleAPIErrorMessage body) = take 256 (strings_TrimSpace body) \<and>
    (length body \<le> 256 \<longrightarrow> googleAPIErrorMessage body = strings_TrimSpace body)"
proof -
  have "googleAPIErrorMessage body = (if length (strings_TrimSpace body) > 256
      then take 256 (strings_TrimSpace body) @ ''...'' else strings_TrimSpace body)"
    using assms by (simp add: googleAPIErrorMessage_def Let_def split: sum.split)
  with TrimSpace_length [of body] show ?thesis by auto
qed

lemma not_json: "json_parse (CHR ''x'' # s) = None"
  by (simp add: json_parse_def beginValue_def json_isSpace_def byte_in_def)

theorem error_message_bounded_witness:
  "length (googleAPIErrorMessage (replicate 1000 CHR ''x'')) \<le> 259"
proof -
  have "unmarshalMessage (replicate 1000 CHR ''x'') = Inl json_SyntaxError"
    using not_json [of "replicate 999 CHR ''x''"] by (simp add: unmarshalMessage_def json_Unmarshal_def numeral_eq_Suc)
  with error_message_bounded [of "replicate 1000 CHR ''x''"] show ?thesis by simp
qed

end
