(* ===== verification/GetCache.thy ===== *)
theory GetCache
  imports Prelude
begin

text \<open>
  The contract of the program's get-or-create caches. Four operations of the program have this
  shape and interpret it in their theories: the token source and the cluster cache of
  \<^verbatim>\<open>GKEConfigProvider\<close>, \<^verbatim>\<open>remoteClientCache.get\<close> and \<^verbatim>\<open>getOrCreateRemoteCluster\<close>. \<open>lookup\<close> is the value the
  cache can answer with, \<open>get\<close> the operation.
\<close>

locale get_cache =
  fixes lookup :: "'a \<Rightarrow> 's \<Rightarrow> 'v option"
    and get :: "'a \<Rightarrow> 's \<Rightarrow> 'v result \<times> 's"
  assumes hit: "lookup a s = Some v \<Longrightarrow> get a s = (Inr v, s)"
    and stored: "get a s = (Inr v, s') \<Longrightarrow> lookup a s' = Some v"
begin

text \<open>A value that was created is reused, without a change of the state.\<close>

lemma get_again: "get a s = (Inr v, s') \<Longrightarrow> get a s' = (Inr v, s')"
  by (rule hit) (rule stored)

text \<open>Only a miss can fail, and only a miss can change the state.\<close>

lemma error_is_miss: "get a s = (Inl e, s') \<Longrightarrow> lookup a s = None"
  using hit [of a s] by (cases "lookup a s") auto

lemma change_is_miss: "snd (get a s) \<noteq> s \<Longrightarrow> lookup a s = None"
  using hit [of a s] by (cases "lookup a s") auto

end

text \<open>A cache without eviction also keeps its entries while other arguments are looked up.\<close>

locale persistent_cache = get_cache +
  assumes kept: "lookup a s = Some v \<Longrightarrow> lookup a (snd (get b s)) = Some v"
begin

lemma kept_run: "lookup a s = Some v \<Longrightarrow> lookup a (fold (\<lambda>b s. snd (get b s)) bs s) = Some v"
  by (induction bs arbitrary: s) (auto intro: kept)

text \<open>However many lookups lie between two successful ones of the same argument, both return the
  same value: there is one value per key.\<close>

lemma one_value:
  assumes "get a s = (Inr v, s1)" and "s2 = fold (\<lambda>b s. snd (get b s)) bs s1"
  shows "get a s2 = (Inr v, s2)"
  unfolding assms(2) by (rule hit, rule kept_run, rule stored [OF assms(1)])

end

end
