(* ===== verification/GkeProvider.thy ===== *)
theory GkeProvider
  imports GkeCluster GetCache
begin

text \<open>
  The stateful part of \<^verbatim>\<open>GKEConfigProvider\<close> in \<^verbatim>\<open>syncer/controllers/remote_cluster.go\<close>: the token source,
  the request to the GKE API and the cluster cache with its time to live.

  The provider is one shared object. It is the head of the world: the world is any extension of
  the record \<open>GKEConfigProvider\<close>, so a call that leaves the program may also change the provider.
  This is how the model covers other goroutines that use the provider while \<^verbatim>\<open>cluster\<close> has released
  the mutex during a fetch. The Google libraries and the HTTP stack are the fields of a parameter
  record \<open>gke_env\<close>.
\<close>

section \<open>The provider and its environment\<close>

record cachedGKECluster =
  cg_cluster :: gkeCluster
  cg_fetchedAt :: int

record ('ts, 'tr) GKEConfigProvider =
  p_TokenSource :: "'ts option"
  p_ContainerAPIEndpoint :: string
  p_Transport :: "'tr option"
  p_ts :: "'ts option"
  p_cache :: "string \<Rightarrow> cachedGKECluster option"
  p_ttl :: int
  p_clusterTransport :: "(string \<Rightarrow> 'tr result) option"

text \<open>A request of \<^verbatim>\<open>http.Client.Do\<close> as \<^verbatim>\<open>fetchCluster\<close> makes it: a GET through an OAuth transport on
  top of a base transport, with a time limit in nanoseconds. The body of the response is a
  reader, which gives some bytes and then ends or fails.\<close>

record ('ts, 'tr) get_request =
  gr_URL :: string
  gr_UserAgent :: string
  gr_Source :: 'ts
  gr_Base :: 'tr
  gr_Timeout :: int

record http_response =
  resp_StatusCode :: int
  resp_Status :: string
  resp_Body :: string
  resp_BodyErr :: "goerror option"
  resp_CloseErr :: "goerror option"

record ('w, 'x, 'ts, 'tr) gke_env =
  ge_Now :: "'x \<Rightarrow> int"
  ge_Do :: "('ts, 'tr) get_request \<Rightarrow> ('w, http_response result) io"
  ge_DefaultTokenSource :: "string list \<Rightarrow> ('w, 'ts result) io"
  ge_ReuseTokenSource :: "'ts \<Rightarrow> 'ts"
  ge_DefaultTransport :: 'tr
  ge_NewTransport :: "string \<Rightarrow> 'tr result"

type_synonym ('ts, 'tr, 'x) gke_world = "('ts, 'tr, 'x) GKEConfigProvider_scheme"
type_synonym ('ts, 'tr, 'x) genv = "(('ts, 'tr, 'x) gke_world, 'x, 'ts, 'tr) gke_env"

section \<open>The operations\<close>

text \<open>\<^verbatim>\<open>time.Now()\<close>: the clock is a part of the world outside the provider.\<close>

definition now :: "('ts, 'tr, 'x) genv \<Rightarrow> ('ts, 'tr, 'x) gke_world \<Rightarrow> int" where
  "now env w = ge_Now env (GKEConfigProvider.more w)"

definition gkeClusterTTL :: int where
  "gkeClusterTTL = 10 * 60 * 1000000000"

definition clusterTTL :: "('ts, 'tr, 'x) gke_world \<Rightarrow> int" where
  "clusterTTL w = (if p_ttl w > 0 then p_ttl w else gkeClusterTTL)"

definition gkeAuthScopes :: "string list" where
  "gkeAuthScopes =
     [''https://www.googleapis.com/auth/cloud-platform'',
      ''https://www.googleapis.com/auth/userinfo.email'']"

definition tokenSource ::
  "('ts, 'tr, 'x) genv \<Rightarrow> (('ts, 'tr, 'x) gke_world, 'ts result) io" where
  "tokenSource env w =
     (case p_ts w of
        Some ts \<Rightarrow> (Inr ts, w)
      | None \<Rightarrow>
          (case (case p_TokenSource w of
                   Some ts \<Rightarrow> (Inr ts, w)
                 | None \<Rightarrow>
                     (case ge_DefaultTokenSource env gkeAuthScopes w of
                        (Inl e, w1) \<Rightarrow>
                          (Inl (WrapError ''getting Google application default credentials: '' e), w1)
                      | (Inr ts, w1) \<Rightarrow> (Inr ts, w1))) of
             (Inl e, w1) \<Rightarrow> (Inl e, w1)
           | (Inr ts, w1) \<Rightarrow>
               (Inr (ge_ReuseTokenSource env ts), w1\<lparr>p_ts := Some (ge_ReuseTokenSource env ts)\<rparr>)))"

definition bodyLimit :: nat where
  "bodyLimit = 2 ^ 20"

text \<open>\<^verbatim>\<open>io.ReadAll(io.LimitReader(resp.Body, n))\<close>: a body that has as many bytes as the limit is not read
  any further, so a later error is not seen.\<close>

definition readLimited :: "nat \<Rightarrow> http_response \<Rightarrow> string \<times> goerror option" where
  "readLimited n resp =
     (if n \<le> length (resp_Body resp) then (take n (resp_Body resp), None) else (resp_Body resp, resp_BodyErr resp))"

text \<open>What \<^verbatim>\<open>fetchCluster\<close> does with a response: read a bounded part of the body, close it, check the
  status, decode.\<close>

definition readCluster :: "string \<Rightarrow> http_response \<Rightarrow> gkeCluster result" where
  "readCluster key resp =
     (let (body, readErr) = readLimited bodyLimit resp;
          err = (case resp_CloseErr resp of
                   None \<Rightarrow> readErr
                 | Some closeErr \<Rightarrow> errors_Join [readErr, Some closeErr]) in
      case err of
        Some e \<Rightarrow> Inl (WrapError (''reading GKE cluster '' @ key @ '': '') e)
      | None \<Rightarrow>
          if resp_StatusCode resp \<noteq> 200
          then Inl (ErrorString (''getting GKE cluster '' @ key @ '': '' @ resp_Status resp @ '': ''
                 @ googleAPIErrorMessage body))
          else (case unmarshalCluster body of
                  Inl e \<Rightarrow> Inl (WrapError (''decoding GKE cluster '' @ key @ '': '') e)
                | Inr c \<Rightarrow> Inr c))"

definition clusterRequest ::
  "('ts, 'tr, 'x) genv \<Rightarrow> GKECluster \<Rightarrow> 'ts \<Rightarrow> ('ts, 'tr, 'x) gke_world \<Rightarrow> ('ts, 'tr) get_request" where
  "clusterRequest env ref ts w =
     \<lparr>gr_URL = clusterURL (if p_ContainerAPIEndpoint w = [] then defaultContainerAPIEndpoint
                           else p_ContainerAPIEndpoint w) ref,
      gr_UserAgent = userAgent,
      gr_Source = ts,
      gr_Base = (case p_Transport w of None \<Rightarrow> ge_DefaultTransport env | Some base \<Rightarrow> base),
      gr_Timeout = 30 * 1000000000\<rparr>"

definition fetchCluster ::
  "('ts, 'tr, 'x) genv \<Rightarrow> string \<Rightarrow> GKECluster \<Rightarrow> 'ts \<Rightarrow>
     (('ts, 'tr, 'x) gke_world, gkeCluster result) io" where
  "fetchCluster env key ref ts w =
     (let req = clusterRequest env ref ts w in
      case url_Parse (gr_URL req) of
        Inl e \<Rightarrow> (Inl e, w)
      | Inr _ \<Rightarrow>
          (case ge_Do env req w of
             (Inl e, w1) \<Rightarrow> (Inl (WrapError (''getting GKE cluster '' @ key @ '': '') e), w1)
           | (Inr resp, w1) \<Rightarrow> (readCluster key resp, w1)))"

definition cacheFresh :: "('ts, 'tr, 'x) genv \<Rightarrow> string \<Rightarrow> ('ts, 'tr, 'x) gke_world \<Rightarrow> gkeCluster option" where
  "cacheFresh env key w =
     (case p_cache w key of
        Some c \<Rightarrow> if now env w - cg_fetchedAt c < clusterTTL w then Some (cg_cluster c) else None
      | None \<Rightarrow> None)"

definition cluster ::
  "('ts, 'tr, 'x) genv \<Rightarrow> string \<Rightarrow> GKECluster \<Rightarrow> 'ts \<Rightarrow>
     (('ts, 'tr, 'x) gke_world, gkeCluster result) io" where
  "cluster env key ref ts w =
     (case cacheFresh env key w of
        Some c \<Rightarrow> (Inr c, w)
      | None \<Rightarrow>
          (case fetchCluster env key ref ts w of
             (Inl e, w1) \<Rightarrow> (Inl e, w1)
           | (Inr c, w1) \<Rightarrow>
               (Inr c, w1\<lparr>p_cache := (p_cache w1)
                          (key \<mapsto> \<lparr>cg_cluster = c, cg_fetchedAt = now env w1\<rparr>)\<rparr>)))"

definition newClusterTransport ::
  "('ts, 'tr, 'x) genv \<Rightarrow> ('ts, 'tr, 'x) gke_world \<Rightarrow> string \<Rightarrow> 'tr result" where
  "newClusterTransport env w caData =
     (case p_clusterTransport w of
        Some build \<Rightarrow> build caData
      | None \<Rightarrow> ge_NewTransport env caData)"

section \<open>The caches\<close>

lemma clusterTTL_pos: "0 < clusterTTL w"
  by (simp add: clusterTTL_def gkeClusterTTL_def)

lemma more_cache [simp]: "GKEConfigProvider.more (w\<lparr>p_cache := m\<rparr>) = GKEConfigProvider.more w"
  by simp

interpretation tsc: persistent_cache "\<lambda>(_::unit) w. p_ts w" "\<lambda>_. tokenSource env" for env
  by unfold_locales (auto simp: tokenSource_def split: option.splits prod.splits sum.splits)

interpretation clc: get_cache "\<lambda>(key, ref, ts). cacheFresh env key" "\<lambda>(key, ref, ts). cluster env key ref ts"
  for env
  by unfold_locales
    (auto simp: cluster_def cacheFresh_def now_def clusterTTL_def gkeClusterTTL_def
      split: option.splits prod.splits sum.splits if_splits)

section \<open>Fetching and reusing clusters\<close>

lemma fetchCluster_accepts_iff:
  "fetchCluster env key ref ts w = (Inr c, w') \<longleftrightarrow>
     (\<exists>host resp body.
        url_Parse (gr_URL (clusterRequest env ref ts w)) = Inr host \<and>
        ge_Do env (clusterRequest env ref ts w) w = (Inr resp, w') \<and>
        readLimited bodyLimit resp = (body, None) \<and> resp_CloseErr resp = None \<and>
        resp_StatusCode resp = 200 \<and> unmarshalCluster body = Inr c)"
  by (cases "ge_Do env (clusterRequest env ref ts w) w")
    (auto simp: fetchCluster_def readCluster_def Let_def errors_Join_def
      split: sum.splits option.splits prod.splits if_splits)


text \<open>C26: A cluster is read completely or not at all: when the body of an answer describes a cluster, then
  what a fetch returns is this cluster, however long the body is and wherever reading it stops. In
  particular the mebibyte that is read at most never gives a cluster with some fields missing.\<close>

theorem cluster_is_read_whole:
  assumes "fetchCluster env key ref ts w = (Inr c, w')"
    and "ge_Do env (clusterRequest env ref ts w) w = (Inr resp, w')"
    and "unmarshalCluster (resp_Body resp) = Inr c'"
  shows "c = c'"
proof -
  obtain body where body: "readLimited bodyLimit resp = (body, None)" "unmarshalCluster body = Inr c"
    using assms(1,2) by (auto simp: fetchCluster_accepts_iff)
  then have "body @ drop (length body) (resp_Body resp) = resp_Body resp"
    by (auto simp: readLimited_def min_def split: if_splits)
  with assms(3) have "unmarshalCluster (body @ drop (length body) (resp_Body resp)) = Inr c'" by simp
  from unmarshalCluster_prefix [OF body(2) this] show ?thesis by simp
qed

text \<open>Every failure after the request was built names the cluster and the stage that failed.\<close>

theorem fetchCluster_error_names_cluster:
  assumes "fetchCluster env key ref ts w = (Inl e, w')"
    and "url_Parse (gr_URL (clusterRequest env ref ts w)) = Inr host"
  shows "\<exists>stage \<in> {''getting'', ''reading'', ''decoding''}. \<exists>detail.
    err_msg e = stage @ '' GKE cluster '' @ key @ '': '' @ detail"
  using assms
  by (auto simp: fetchCluster_def readCluster_def Let_def
      split: sum.splits option.splits prod.splits if_splits)

text \<open>C23: The cluster cache. After a successful lookup the entry holds the returned cluster and is younger
  than the time to live. As long as it stays in the cache and is younger than that, every lookup
  of the key returns the same cluster and makes no request; once it is older, the answer is the
  one of a new fetch.\<close>

theorem cluster_reuse_window:
  assumes first: "cluster env key ref ts w = (Inr c, w1)" and same: "p_cache w2 key = p_cache w1 key"
  shows "\<exists>t. p_cache w1 key = Some \<lparr>cg_cluster = c, cg_fetchedAt = t\<rparr> \<and>
    now env w1 - t < clusterTTL w1 \<and>
    (now env w2 - t < clusterTTL w2 \<longrightarrow> cluster env key ref' ts' w2 = (Inr c, w2)) \<and>
    (clusterTTL w2 \<le> now env w2 - t \<longrightarrow>
       fst (cluster env key ref' ts' w2) = fst (fetchCluster env key ref' ts' w2))"
proof -
  have "cacheFresh env key w1 = Some c"
    using clc.stored [of env "(key, ref, ts)"] first by simp
  then obtain a where a: "p_cache w1 key = Some a" "now env w1 - cg_fetchedAt a < clusterTTL w1"
    "cg_cluster a = c"
    by (auto simp: cacheFresh_def split: option.splits if_splits)
  then obtain t where t: "p_cache w1 key = Some \<lparr>cg_cluster = c, cg_fetchedAt = t\<rparr>"
    and young: "now env w1 - t < clusterTTL w1"
    by (cases a) auto
  have "cluster env key ref' ts' w2 = (Inr c, w2)" if "now env w2 - t < clusterTTL w2"
    using clc.hit [of env "(key, ref', ts')" w2 c] t same that by (simp add: cacheFresh_def)
  moreover have "fst (cluster env key ref' ts' w2) = fst (fetchCluster env key ref' ts' w2)"
    if "clusterTTL w2 \<le> now env w2 - t"
    using t same that by (auto simp: cluster_def cacheFresh_def split: prod.splits sum.splits)
  ultimately show ?thesis using t young by blast
qed

text \<open>A failed lookup writes nothing to the provider: the world is the one the HTTP call left
  behind, so an entry that is there stays and the next lookup tries again.\<close>

theorem failed_fetch_writes_nothing:
  assumes "cluster env key ref ts w = (Inl e, w')"
  shows "cacheFresh env key w = None \<and> fetchCluster env key ref ts w = (Inl e, w') \<and>
    (w' = w \<or> w' = snd (ge_Do env (clusterRequest env ref ts w) w))"
proof -
  have "cacheFresh env key w = None"
    using clc.error_is_miss [of env "(key, ref, ts)"] assms by simp
  moreover from this assms have "fetchCluster env key ref ts w = (Inl e, w')"
    by (auto simp: cluster_def split: prod.splits sum.splits)
  ultimately show ?thesis
    by (auto simp: fetchCluster_def Let_def split: prod.splits sum.splits)
qed

lemma tokenSource_again:
  "tokenSource env w = (Inr ts, w1) \<Longrightarrow> p_ts w2 = p_ts w1 \<Longrightarrow> tokenSource env w2 = (Inr ts, w2)"
  using tsc.stored [of env w ts w1] tsc.hit [of w2 ts env] by simp

text \<open>There is one token source per provider: once one was obtained, every later request for it returns
  the same one and asks for no credentials; if none can be obtained, the next request tries
  again.\<close>

theorem token_source_is_shared:
  "(\<forall>ts w1 w2. tokenSource env w = (Inr ts, w1) \<and> p_ts w2 = p_ts w1 \<longrightarrow>
      tokenSource env w2 = (Inr ts, w2)) \<and>
   (\<forall>e w1. tokenSource env w = (Inl e, w1) \<longrightarrow>
      p_ts w = None \<and> p_TokenSource w = None \<and> w1 = snd (ge_DefaultTokenSource env gkeAuthScopes w))"
  by (auto simp: tokenSource_again)
    (auto simp: tokenSource_def split: option.splits prod.splits sum.splits)

end
