(* ===== verification/RotatingTransport.thy ===== *)
theory RotatingTransport
  imports GkeProvider
begin

text \<open>
  \<^verbatim>\<open>syncer/controllers/rotating_transport.go\<close>, and \<^verbatim>\<open>GKEConfigProvider.RESTConfig\<close>, which puts a rotating
  transport into the configuration it returns. The transport re-reads the cluster before every
  request, rebuilds the connection when the endpoint or the CA changed and keeps the last known
  settings when the cluster cannot be read.
\<close>

section \<open>The transport\<close>

record ('ts, 'tr) rotatingTransport =
  rt_key :: string
  rt_ref :: GKECluster
  rt_ts :: 'ts
  rt_host :: string
  rt_caData :: string
  rt_rt :: "'tr option"

text \<open>The request as the transport sees it: the host of its URL, its host header, and the rest,
  which the transport passes on.\<close>

record http_request =
  rq_URLHost :: string
  rq_Host :: string
  rq_Rest :: string

definition rt_update ::
  "('ts, 'tr, 'x) genv \<Rightarrow> ('ts, 'tr, 'x) gke_world \<Rightarrow> 't rest_config \<Rightarrow>
     ('ts, 'tr) rotatingTransport \<Rightarrow> goerror option \<times> ('ts, 'tr) rotatingTransport" where
  "rt_update env w cfg t =
     (case url_Parse (rc_Host cfg) of
        Inl e \<Rightarrow> (Some (WrapError (''parsing cluster host '' @ go_quote (rc_Host cfg) @ '': '') e), t)
      | Inr host \<Rightarrow>
          if rt_rt t \<noteq> None \<and> host = rt_host t \<and> rc_CAData cfg = rt_caData t then (None, t)
          else (case newClusterTransport env w (rc_CAData cfg) of
                  Inl e \<Rightarrow> (Some e, t)
                | Inr rt \<Rightarrow>
                    (None, t\<lparr>rt_host := host, rt_caData := rc_CAData cfg, rt_rt := Some rt\<rparr>)))"

text \<open>The transport and host to use; a failed refresh is only logged.\<close>

definition current ::
  "('ts, 'tr, 'x) genv \<Rightarrow> ('ts, 'tr) rotatingTransport \<Rightarrow> ('ts, 'tr, 'x) gke_world \<Rightarrow>
     ('tr option \<times> string) \<times> ('ts, 'tr) rotatingTransport \<times> ('ts, 'tr, 'x) gke_world" where
  "current env t w =
     (case cluster env (rt_key t) (rt_ref t) (rt_ts t) w of
        (Inl e, w1) \<Rightarrow> ((rt_rt t, rt_host t), t, w1)
      | (Inr c, w1) \<Rightarrow>
          (case restConfig c (gke_Endpoint (rt_ref t)) of
             Inl e \<Rightarrow> ((rt_rt t, rt_host t), t, w1)
           | Inr cfg \<Rightarrow>
               (case rt_update env w1 (cfg :: unit rest_config) t of
                  (_, t') \<Rightarrow> ((rt_rt t', rt_host t'), t', w1))))"

definition retarget :: "string \<Rightarrow> http_request \<Rightarrow> http_request" where
  "retarget host req =
     (if rq_URLHost req \<noteq> host then req\<lparr>rq_URLHost := host, rq_Host := []\<rparr> else req)"

text \<open>A round trip over a nil transport panics, which is the value \<open>None\<close>. \<open>send\<close> is the round trip of
  the underlying transport.\<close>

definition RoundTrip ::
  "('ts, 'tr, 'x) genv \<Rightarrow> ('tr \<Rightarrow> http_request \<Rightarrow> (('ts, 'tr, 'x) gke_world, 'resp) io) \<Rightarrow>
     ('ts, 'tr) rotatingTransport \<Rightarrow> http_request \<Rightarrow> ('ts, 'tr, 'x) gke_world \<Rightarrow>
     'resp option \<times> ('ts, 'tr) rotatingTransport \<times> ('ts, 'tr, 'x) gke_world" where
  "RoundTrip env send t req w =
     (case current env t w of
        ((None, host), t', w1) \<Rightarrow> (None, t', w1)
      | ((Some rt, host), t', w1) \<Rightarrow>
          (case send rt (retarget host req) w1 of (resp, w2) \<Rightarrow> (Some resp, t', w2)))"

section \<open>RESTConfig\<close>

datatype ('ts, 'tr) wrapper =
    RotatingWrapper "('ts, 'tr) rotatingTransport"
  | TokenSourceWrapper 'ts

definition newRotatingTransport :: "string \<Rightarrow> GKECluster \<Rightarrow> 'ts \<Rightarrow> ('ts, 'tr) rotatingTransport" where
  "newRotatingTransport key ref ts =
     \<lparr>rt_key = key, rt_ref = ref, rt_ts = ts, rt_host = [], rt_caData = [], rt_rt = None\<rparr>"

definition GKE_RESTConfig ::
  "('ts, 'tr, 'x) genv \<Rightarrow> string \<Rightarrow> RemoteConfig option \<Rightarrow>
     (('ts, 'tr, 'x) gke_world, ('ts, 'tr) wrapper rest_config result) io" where
  "GKE_RESTConfig env ns remote w =
     (case gkeClusterName remote of
        Inl e \<Rightarrow> (Inl e, w)
      | Inr key \<Rightarrow>
     (case tokenSource env w of
        (Inl e, w1) \<Rightarrow> (Inl e, w1)
      | (Inr ts, w1) \<Rightarrow>
     (case gkeClusterOf remote of
        None \<Rightarrow> (Inl (ErrorString ''nil pointer dereference''), w1)
      | Some ref \<Rightarrow>
     (case cluster env key ref ts w1 of
        (Inl e, w2) \<Rightarrow> (Inl e, w2)
      | (Inr c, w2) \<Rightarrow>
     (case restConfig c (gke_Endpoint ref) of
        Inl e \<Rightarrow> (Inl (WrapError (''GKE cluster '' @ key @ '': '') e), w2)
      | Inr cfg \<Rightarrow>
     (case rt_update env w2 cfg (newRotatingTransport key ref ts) of
        (Some e, _) \<Rightarrow> (Inl (WrapError (''GKE cluster '' @ key @ '': '') e), w2)
      | (None, rt) \<Rightarrow>
          (Inr (cfg\<lparr>rc_Wrappers := rc_Wrappers cfg @ [RotatingWrapper rt, TokenSourceWrapper ts]\<rparr>), w2)))))))"

definition gkeProvider ::
  "('ts, 'tr, 'x) genv \<Rightarrow> (('ts, 'tr, 'x) gke_world, ('ts, 'tr) wrapper) RemoteConfigProvider" where
  "gkeProvider env = \<lparr>rp_Key = GKE_Key, rp_RESTConfig = GKE_RESTConfig env\<rparr>"

text \<open>The provider implements the interface the controllers use.\<close>

lemma GKE_Key_Inl: "GKE_Key ns remote = Inl e \<Longrightarrow> gkeClusterName remote = Inl e"
  by (auto simp: GKE_Key_def dest: gkeClusterName_deref split: sum.splits option.splits)

interpretation gke: remote_provider "gkeProvider env" plainRemote connection for env
proof unfold_locales
  fix ns ns' r r' e and w :: "('a, 'b, 'c) gke_world"
  show "plainRemote r \<Longrightarrow> \<exists>k. rp_Key (gkeProvider env) ns r = Inr k"
    using GKE_Key_plain [of r] by (auto simp: gkeProvider_def plainRemote_def split: option.splits)
  show "plainRemote r \<Longrightarrow> plainRemote r' \<Longrightarrow>
      rp_Key (gkeProvider env) ns r = rp_Key (gkeProvider env) ns' r' \<longleftrightarrow> connection r = connection r'"
    by (simp add: gkeProvider_def GKE_Key_identifies)
  show "rp_Key (gkeProvider env) ns r = Inl e \<Longrightarrow> rp_RESTConfig (gkeProvider env) ns r w = (Inl e, w)"
    by (simp add: gkeProvider_def GKE_RESTConfig_def GKE_Key_Inl)
qed

section \<open>Settings never get out of step\<close>

text \<open>The transports of the process, under any interleaving of their updates: one is created by
  \<^verbatim>\<open>RESTConfig\<close>, and any request may update it at any time, with whatever configuration the cluster
  then has. Each update holds the transport's mutex, so it is one step. The test hook \<open>ct\<close> of the
  provider, which is set before the provider is used, does not change.\<close>

inductive transport_reachable ::
  "('ts, 'tr, 'x) genv \<Rightarrow> (string \<Rightarrow> 'tr result) option \<Rightarrow> ('ts, 'tr) rotatingTransport \<Rightarrow> bool"
  for env ct where
  created: "GKE_RESTConfig env ns remote w = (Inr cfg, w') \<Longrightarrow> p_clusterTransport w' = ct \<Longrightarrow>
    RotatingWrapper t \<in> set (rc_Wrappers cfg) \<Longrightarrow> transport_reachable env ct t"
| updated: "transport_reachable env ct t \<Longrightarrow> p_clusterTransport w = ct \<Longrightarrow>
    rt_update env w (cfg :: unit rest_config) t = (err, t') \<Longrightarrow> transport_reachable env ct t'"

definition buildTransport ::
  "('ts, 'tr, 'x) genv \<Rightarrow> (string \<Rightarrow> 'tr result) option \<Rightarrow> string \<Rightarrow> 'tr result" where
  "buildTransport env ct caData = (case ct of Some build \<Rightarrow> build caData | None \<Rightarrow> ge_NewTransport env caData)"

lemma newClusterTransport_build: "newClusterTransport env w = buildTransport env (p_clusterTransport w)"
  by (simp add: newClusterTransport_def buildTransport_def fun_eq_iff)

lemma rt_update_None:
  assumes "rt_update env w cfg t = (None, t')"
  shows "url_Parse (rc_Host cfg) = Inr (rt_host t')" and "rt_caData t' = rc_CAData cfg"
    and "t' = t \<and> rt_rt t \<noteq> None \<or>
      (\<exists>rt. newClusterTransport env w (rc_CAData cfg) = Inr rt \<and> rt_rt t' = Some rt)"
    and "rt_key t' = rt_key t" "rt_ref t' = rt_ref t" "rt_ts t' = rt_ts t"
  using assms by (auto simp: rt_update_def split: sum.splits if_splits)

lemma rt_update_Some: "rt_update env w cfg t = (Some e, t') \<Longrightarrow> t' = t"
  by (auto simp: rt_update_def split: sum.splits if_splits)

lemma RESTConfig_Inr:
  assumes "GKE_RESTConfig env ns remote w = (Inr cfg, w')"
  shows "\<exists>key ref ts c w1 t cfg0. gkeClusterName remote = Inr key \<and> gkeClusterOf remote = Some ref \<and>
    tokenSource env w = (Inr ts, w1) \<and> cluster env key ref ts w1 = (Inr c, w') \<and>
    restConfig c (gke_Endpoint ref) = Inr cfg0 \<and>
    rt_update env w' cfg0 (newRotatingTransport key ref ts) = (None, t) \<and>
    cfg = cfg0\<lparr>rc_Wrappers := [RotatingWrapper t, TokenSourceWrapper ts]\<rparr>"
proof -
  have nil: "restConfig c ep = Inr cfg0 \<Longrightarrow> rc_Wrappers cfg0 = []"
    for c ep and cfg0 :: "('a, 'b) wrapper rest_config"
    by (auto simp: restConfig_def ipRESTConfig_def Let_def split: if_splits sum.splits)
  from assms show ?thesis
    by (auto simp: GKE_RESTConfig_def nil split: sum.splits prod.splits option.splits)
qed

lemma reachable_built:
  "transport_reachable env ct t \<Longrightarrow>
     \<exists>rt. rt_rt t = Some rt \<and> buildTransport env ct (rt_caData t) = Inr rt"
proof (induction rule: transport_reachable.induct)
  case (created ns remote w cfg w' t)
  from RESTConfig_Inr [OF created(1)] created(3) obtain key ref ts and cfg0 :: "('a, 'b) wrapper rest_config"
    where "rt_update env w' cfg0 (newRotatingTransport key ref ts) = (None, t)" by auto
  from rt_update_None [OF this] created(2) show ?case
    by (auto simp: newRotatingTransport_def newClusterTransport_build)
next
  case (updated t w cfg err t')
  show ?case
  proof (cases err)
    case None
    with updated show ?thesis
      using rt_update_None(2,3) [of env w cfg t t'] by (auto simp: newClusterTransport_build)
  next
    case (Some e)
    with updated rt_update_Some show ?thesis by blast
  qed
qed

text \<open>C21: The recorded CA and the transport in use never get out of step: in every state a transport can
  reach, it has an underlying transport, and that is the one built from the recorded CA.\<close>

theorem transport_matches_its_ca:
  assumes "transport_reachable env ct t"
  shows "\<exists>rt. rt_rt t = Some rt \<and> buildTransport env ct (rt_caData t) = Inr rt"
  by (rule reachable_built [OF assms])

text \<open>A request never meets a nil transport: a round trip on a reachable transport always returns.\<close>

theorem round_trip_never_panics:
  assumes "transport_reachable env ct t"
  shows "\<exists>resp t' w'. RoundTrip env send t req w = (Some resp, t', w')"
proof -
  have keep: "rt_update env w1 cfg t = (err, t') \<Longrightarrow> rt_rt t' \<noteq> None" for w1 err t' and cfg :: "unit rest_config"
    using reachable_built [OF assms] rt_update_None(3) [of env w1 cfg t t'] rt_update_Some [of env w1 cfg t]
    by (cases err) auto
  then have "fst (fst (current env t w)) \<noteq> None"
    using reachable_built [OF assms] by (auto simp: current_def split: sum.splits prod.splits)
  then show ?thesis
    by (auto simp: RoundTrip_def split: prod.splits option.splits)
qed

text \<open>C20: Rotation. Whenever the current cluster resource gives a usable endpoint and CA, the request is
  sent over the transport for exactly that CA to exactly that host, whatever settings the
  transport had before.\<close>

theorem rotation_is_followed:
  assumes reach: "transport_reachable env ct t"
    and fetch: "cluster env (rt_key t) (rt_ref t) (rt_ts t) w = (Inr c, w1)"
    and ct: "p_clusterTransport w1 = ct"
    and cfg: "restConfig c (gke_Endpoint (rt_ref t)) = Inr (cfg :: unit rest_config)"
    and host: "url_Parse (rc_Host cfg) = Inr host"
    and build: "buildTransport env ct (rc_CAData cfg) = Inr rt"
    and sent: "send rt (retarget host req) w1 = (resp, w2)"
  shows "RoundTrip env send t req w
    = (Some resp, t\<lparr>rt_host := host, rt_caData := rc_CAData cfg, rt_rt := Some rt\<rparr>, w2)"
proof -
  let ?t = "t\<lparr>rt_host := host, rt_caData := rc_CAData cfg, rt_rt := Some rt\<rparr>"
  obtain old where old: "rt_rt t = Some old" "buildTransport env ct (rt_caData t) = Inr old"
    using reachable_built [OF reach] by blast
  have "rt_update env w1 cfg t = (None, ?t)"
  proof (cases "host = rt_host t \<and> rc_CAData cfg = rt_caData t")
    case True
    with old build have "?t = t" by (cases t) auto
    with True host old show ?thesis by (simp add: rt_update_def)
  next
    case False
    with host build ct show ?thesis by (auto simp: rt_update_def newClusterTransport_build)
  qed
  with fetch cfg sent show ?thesis
    by (simp add: RoundTrip_def current_def)
qed

text \<open>C22: Outages. When the cluster cannot be read, the request still goes out, over the last known
  transport to the last known host, and the transport is unchanged.\<close>

theorem outage_uses_last_settings:
  assumes reach: "transport_reachable env ct t"
    and fetch: "cluster env (rt_key t) (rt_ref t) (rt_ts t) w = (Inl e, w1)"
  shows "\<exists>rt. rt_rt t = Some rt \<and>
    RoundTrip env send t req w =
      (Some (fst (send rt (retarget (rt_host t) req) w1)), t, snd (send rt (retarget (rt_host t) req) w1))"
proof -
  obtain rt where "rt_rt t = Some rt" using reachable_built [OF reach] by blast
  with fetch show ?thesis
    by (simp add: RoundTrip_def current_def split: prod.split)
qed

text \<open>An unchanged endpoint and CA keep the connection: no transport is built, whatever building one
  would return, and the transport is the same as before.\<close>

theorem unchanged_settings_keep_connection:
  assumes "url_Parse (rc_Host cfg) = Inr (rt_host t)" and "rc_CAData cfg = rt_caData t"
    and "rt_rt t = Some rt"
  shows "rt_update env w cfg t = (None, t)"
  using assms by (simp add: rt_update_def)

text \<open>What \<^verbatim>\<open>RESTConfig\<close> returns: a configuration for the endpoint the KRMSyncer selects on the
  cluster it names, whose requests go first through the OAuth wrapper and then through a
  rotating transport for the same cluster, host and CA.\<close>

theorem RESTConfig_describes_the_cluster:
  assumes "GKE_RESTConfig env ns remote w = (Inr cfg, w')"
  shows "\<exists>key ref ts c t. gkeClusterName remote = Inr key \<and> gkeClusterOf remote = Some ref \<and>
    cacheFresh env key w' = Some c \<and>
    restConfig c (gke_Endpoint ref) = Inr (cfg\<lparr>rc_Wrappers := []\<rparr>) \<and>
    rc_Wrappers cfg = [RotatingWrapper t, TokenSourceWrapper ts] \<and>
    rt_key t = key \<and> rt_ref t = ref \<and> rt_ts t = ts \<and>
    url_Parse (rc_Host cfg) = Inr (rt_host t) \<and> rc_CAData cfg = rt_caData t \<and> rt_rt t \<noteq> None"
proof -
  from RESTConfig_Inr [OF assms] obtain key ref ts c w1 t cfg0 where
    r: "gkeClusterName remote = Inr key" "gkeClusterOf remote = Some ref"
    "cluster env key ref ts w1 = (Inr c, w')" "restConfig c (gke_Endpoint ref) = Inr cfg0"
    "rt_update env w' cfg0 (newRotatingTransport key ref ts) = (None, t)"
    "cfg = cfg0\<lparr>rc_Wrappers := [RotatingWrapper t, TokenSourceWrapper ts]\<rparr>"
    by blast
  have "rc_Wrappers cfg0 = []"
    using r(4) by (auto simp: restConfig_def ipRESTConfig_def Let_def split: if_splits sum.splits)
  then have "cfg\<lparr>rc_Wrappers := []\<rparr> = cfg0" unfolding r(6) by (cases cfg0) simp
  moreover have "cacheFresh env key w' = Some c"
    using clc.stored [of env "(key, ref, ts)"] r(3) by simp
  ultimately show ?thesis
    using r rt_update_None [OF r(5)] by (auto simp: newRotatingTransport_def)
qed

end
