(* ===== verification/Machinery.thy ===== *)
theory Machinery
  imports ApiTypes "HOL-Library.Word"
begin

text \<open>
  The code the program calls but does not contain: the helpers of \<^verbatim>\<open>k8s.io/apimachinery\<close> on
  unstructured objects and errors, and the client interface of controller-runtime. They are
  parameters of the model: a record \<open>apimachinery\<close> of pure helpers and a record \<open>'w client\<close> of
  the calls the source makes on a \<^verbatim>\<open>client.Client\<close>, each a function of the world. What the
  program relies on is the predicate \<open>unstructured_laws\<close>, which states the documented behaviour of
  the helpers; theorems that need it name it as a hypothesis.
\<close>

section \<open>JSON objects\<close>

text \<open>The dynamic values of an \<^verbatim>\<open>Unstructured\<close>: \<^verbatim>\<open>map[string]any\<close>. A float64 is its bit pattern.\<close>

datatype json =
    JNull
  | JBool bool
  | JInt int
  | JFloat "64 word"
  | JString string
  | JArray "json list"
  | JObject "string \<Rightarrow> json option"

type_synonym jobject = "string \<Rightarrow> json option"

section \<open>The helpers of k8s.io/apimachinery\<close>

record apimachinery =
  IsNotFound :: "goerror \<Rightarrow> bool"
  IsAlreadyExists :: "goerror \<Rightarrow> bool"
  IgnoreNotFound :: "goerror \<Rightarrow> goerror option"
  GVKString :: "GroupVersionKind \<Rightarrow> string"
  ParseGroupVersion :: "string \<Rightarrow> (string \<times> string) result"
  NestedFieldCopy :: "jobject \<Rightarrow> string list \<Rightarrow> json option result"
  SetNestedField :: "jobject \<Rightarrow> json \<Rightarrow> string list \<Rightarrow> jobject result"
  GetGVK :: "jobject \<Rightarrow> GroupVersionKind"
  SetGVK :: "GroupVersionKind \<Rightarrow> jobject \<Rightarrow> jobject"
  GetAPIVersion :: "jobject \<Rightarrow> string"
  GetKind :: "jobject \<Rightarrow> string"
  GetName :: "jobject \<Rightarrow> string"
  SetName :: "string \<Rightarrow> jobject \<Rightarrow> jobject"
  GetNamespace :: "jobject \<Rightarrow> string"
  SetNamespace :: "string \<Rightarrow> jobject \<Rightarrow> jobject"
  GetLabels :: "jobject \<Rightarrow> (string \<Rightarrow> string option) option"
  SetLabels :: "(string \<Rightarrow> string option) option \<Rightarrow> jobject \<Rightarrow> jobject"
  GetAnnotations :: "jobject \<Rightarrow> (string \<Rightarrow> string option) option"
  SetAnnotations :: "(string \<Rightarrow> string option) option \<Rightarrow> jobject \<Rightarrow> jobject"
  SetResourceVersion :: "string \<Rightarrow> jobject \<Rightarrow> jobject"
  SetUID :: "string \<Rightarrow> jobject \<Rightarrow> jobject"
  SetGeneration :: "int \<Rightarrow> jobject \<Rightarrow> jobject"
  SetManagedFields :: "json option \<Rightarrow> jobject \<Rightarrow> jobject"

section \<open>The calls on a client.Client\<close>

record patch_options =
  po_ForceOwnership :: bool
  po_FieldOwner :: string

record 'w client =
  cl_Get :: "GroupVersionKind \<Rightarrow> NamespacedName \<Rightarrow> ('w, jobject result) io"
  cl_Delete :: "jobject \<Rightarrow> ('w, goerror option) io"
  cl_PatchApply :: "patch_options \<Rightarrow> jobject \<Rightarrow> ('w, jobject result) io"
  cl_StatusPatchApply :: "patch_options \<Rightarrow> jobject \<Rightarrow> ('w, jobject result) io"
  cl_GetNamespace :: "string \<Rightarrow> ('w, goerror option) io"
  cl_CreateNamespace :: "string \<Rightarrow> ('w, goerror option) io"
  cl_ListKRMSyncers :: "('w, KRMSyncer list result) io"
  cl_GetKRMSyncer :: "NamespacedName \<Rightarrow> ('w, KRMSyncer result) io"
  cl_StatusUpdateKRMSyncer :: "KRMSyncer \<Rightarrow> ('w, goerror option) io"

section \<open>The documented behaviour of the unstructured helpers\<close>

text \<open>Following a path of keys: missing keys and null values are "not found", a step into a
  value that is not an object is an error.\<close>

fun follow :: "json \<Rightarrow> string list \<Rightarrow> json option result" where
  "follow v [] = Inr (Some v)"
| "follow (JObject m) (f # fs) = (case m f of None \<Rightarrow> Inr None | Some v \<Rightarrow> follow v fs)"
| "follow JNull (f # fs) = Inr None"
| "follow _ (f # fs) = Inl (ErrorString ''accessor error'')"

text \<open>Storing a value at a path, creating the missing levels; an error if a level on the way is
  not an object.\<close>

fun store :: "jobject \<Rightarrow> json \<Rightarrow> string list \<Rightarrow> jobject result" where
  "store m v [] = Inr m"
| "store m v [f] = Inr (m(f \<mapsto> v))"
| "store m v (f # g # fs) =
     (case m f of
        None \<Rightarrow> (case store Map.empty v (g # fs) of
                   Inl e \<Rightarrow> Inl e | Inr m' \<Rightarrow> Inr (m(f \<mapsto> JObject m')))
      | Some (JObject m0) \<Rightarrow> (case store m0 v (g # fs) of
                   Inl e \<Rightarrow> Inl e | Inr m' \<Rightarrow> Inr (m(f \<mapsto> JObject m')))
      | Some _ \<Rightarrow> Inl (ErrorString ''value cannot be set''))"

definition meta_ok :: "jobject \<Rightarrow> bool" where
  "meta_ok m \<longleftrightarrow> (case m ''metadata'' of None \<Rightarrow> True | Some (JObject _) \<Rightarrow> True | _ \<Rightarrow> False)"

definition is_metadata_setter :: "(jobject \<Rightarrow> jobject) \<Rightarrow> bool" where
  "is_metadata_setter f \<longleftrightarrow>
     (\<forall>m k. k \<noteq> ''metadata'' \<longrightarrow> f m k = m k) \<and> (\<forall>m. meta_ok m \<longrightarrow> meta_ok (f m))"

definition keeps :: "(jobject \<Rightarrow> 'a) \<Rightarrow> (jobject \<Rightarrow> jobject) \<Rightarrow> bool" where
  "keeps g f \<longleftrightarrow> (\<forall>m. meta_ok m \<longrightarrow> g (f m) = g m)"

definition reads_metadata :: "(jobject \<Rightarrow> 'a) \<Rightarrow> bool" where
  "reads_metadata g \<longleftrightarrow> (\<forall>m m'. m ''metadata'' = m' ''metadata'' \<longrightarrow> g m = g m')"

text \<open>
  The laws: field access follows the path and field update stores at the path; the metadata
  getters read, and the metadata setters write, the \<^verbatim>\<open>metadata\<close> entry only; what a setter wrote its
  getter returns, and the other getters are not disturbed; the group-version-kind is in the
  two entries \<^verbatim>\<open>apiVersion\<close> and \<^verbatim>\<open>kind\<close>.
\<close>

definition nested_laws :: "apimachinery \<Rightarrow> bool" where
  "nested_laws am \<longleftrightarrow>
     (\<forall>m fs. fs \<noteq> [] \<longrightarrow> NestedFieldCopy am m fs = follow (JObject m) fs) \<and>
     (\<forall>m v fs. fs \<noteq> [] \<longrightarrow> SetNestedField am m v fs = store m v fs)"

definition frame_laws :: "apimachinery \<Rightarrow> bool" where
  "frame_laws am \<longleftrightarrow>
     (\<forall>x. is_metadata_setter (SetName am x)) \<and>
     (\<forall>x. is_metadata_setter (SetNamespace am x)) \<and>
     (\<forall>x. is_metadata_setter (SetLabels am x)) \<and>
     (\<forall>x. is_metadata_setter (SetAnnotations am x)) \<and>
     (\<forall>x. is_metadata_setter (SetResourceVersion am x)) \<and>
     (\<forall>x. is_metadata_setter (SetUID am x)) \<and>
     (\<forall>x. is_metadata_setter (SetGeneration am x)) \<and>
     (\<forall>x. is_metadata_setter (SetManagedFields am x))"

definition name_laws :: "apimachinery \<Rightarrow> bool" where
  "name_laws am \<longleftrightarrow>
     reads_metadata (GetName am) \<and>
     (\<forall>x m. meta_ok m \<longrightarrow> GetName am (SetName am x m) = x) \<and>
     (\<forall>x. keeps (GetName am) (SetNamespace am x)) \<and>
     (\<forall>x. keeps (GetName am) (SetLabels am x)) \<and>
     (\<forall>x. keeps (GetName am) (SetAnnotations am x)) \<and>
     (\<forall>x. keeps (GetName am) (SetResourceVersion am x)) \<and>
     (\<forall>x. keeps (GetName am) (SetUID am x)) \<and>
     (\<forall>x. keeps (GetName am) (SetGeneration am x)) \<and>
     (\<forall>x. keeps (GetName am) (SetManagedFields am x))"

definition namespace_laws :: "apimachinery \<Rightarrow> bool" where
  "namespace_laws am \<longleftrightarrow>
     reads_metadata (GetNamespace am) \<and>
     (\<forall>x m. meta_ok m \<longrightarrow> GetNamespace am (SetNamespace am x m) = x) \<and>
     (\<forall>x. keeps (GetNamespace am) (SetName am x)) \<and>
     (\<forall>x. keeps (GetNamespace am) (SetLabels am x)) \<and>
     (\<forall>x. keeps (GetNamespace am) (SetAnnotations am x)) \<and>
     (\<forall>x. keeps (GetNamespace am) (SetResourceVersion am x)) \<and>
     (\<forall>x. keeps (GetNamespace am) (SetUID am x)) \<and>
     (\<forall>x. keeps (GetNamespace am) (SetGeneration am x)) \<and>
     (\<forall>x. keeps (GetNamespace am) (SetManagedFields am x))"

definition labels_laws :: "apimachinery \<Rightarrow> bool" where
  "labels_laws am \<longleftrightarrow>
     reads_metadata (GetLabels am) \<and>
     GetLabels am Map.empty = None \<and>
     (\<forall>x m. meta_ok m \<longrightarrow> GetLabels am (SetLabels am x m) = x) \<and>
     (\<forall>x. keeps (GetLabels am) (SetName am x)) \<and>
     (\<forall>x. keeps (GetLabels am) (SetNamespace am x)) \<and>
     (\<forall>x. keeps (GetLabels am) (SetAnnotations am x)) \<and>
     (\<forall>x. keeps (GetLabels am) (SetResourceVersion am x)) \<and>
     (\<forall>x. keeps (GetLabels am) (SetUID am x)) \<and>
     (\<forall>x. keeps (GetLabels am) (SetGeneration am x)) \<and>
     (\<forall>x. keeps (GetLabels am) (SetManagedFields am x))"

definition annotations_laws :: "apimachinery \<Rightarrow> bool" where
  "annotations_laws am \<longleftrightarrow>
     reads_metadata (GetAnnotations am) \<and>
     GetAnnotations am Map.empty = None \<and>
     (\<forall>x m. meta_ok m \<longrightarrow> GetAnnotations am (SetAnnotations am x m) = x) \<and>
     (\<forall>x. keeps (GetAnnotations am) (SetName am x)) \<and>
     (\<forall>x. keeps (GetAnnotations am) (SetNamespace am x)) \<and>
     (\<forall>x. keeps (GetAnnotations am) (SetLabels am x)) \<and>
     (\<forall>x. keeps (GetAnnotations am) (SetResourceVersion am x)) \<and>
     (\<forall>x. keeps (GetAnnotations am) (SetUID am x)) \<and>
     (\<forall>x. keeps (GetAnnotations am) (SetGeneration am x)) \<and>
     (\<forall>x. keeps (GetAnnotations am) (SetManagedFields am x))"

definition gvk_plain :: "GroupVersionKind \<Rightarrow> bool" where
  "gvk_plain g \<longleftrightarrow> CHR ''/'' \<notin> set (gvk_Group g) \<and> CHR ''/'' \<notin> set (gvk_Version g)"

definition gvk_laws :: "apimachinery \<Rightarrow> bool" where
  "gvk_laws am \<longleftrightarrow>
     (\<forall>g m k. k \<noteq> ''apiVersion'' \<longrightarrow> k \<noteq> ''kind'' \<longrightarrow> SetGVK am g m k = m k) \<and>
     (\<forall>g m m'. gvk_plain g \<longrightarrow> m ''apiVersion'' = SetGVK am g m' ''apiVersion'' \<longrightarrow>
        m ''kind'' = SetGVK am g m' ''kind'' \<longrightarrow> GetGVK am m = g)"

definition unstructured_laws :: "apimachinery \<Rightarrow> bool" where
  "unstructured_laws am \<longleftrightarrow> nested_laws am \<and> frame_laws am \<and> name_laws am \<and> namespace_laws am \<and>
     labels_laws am \<and> annotations_laws am \<and> gvk_laws am"

text \<open>The laws as conditional rewrite rules, one bundle per kind of law.\<close>

lemma nested_rewrites [simp]:
  assumes "unstructured_laws am" and "fs \<noteq> []"
  shows "NestedFieldCopy am m fs = follow (JObject m) fs"
    and "SetNestedField am m v fs = store m v fs"
  using assms by (simp_all add: unstructured_laws_def nested_laws_def)

lemma metadata_setterD:
  "is_metadata_setter f \<Longrightarrow> k \<noteq> ''metadata'' \<Longrightarrow> f m k = m k"
  "is_metadata_setter f \<Longrightarrow> meta_ok m \<Longrightarrow> meta_ok (f m)"
  by (simp_all add: is_metadata_setter_def)

lemma setter_frame [simp]:
  assumes "unstructured_laws am" and "k \<noteq> ''metadata''"
  shows "SetName am x0 m k = m k"
    and "SetNamespace am x1 m k = m k"
    and "SetLabels am x2 m k = m k"
    and "SetAnnotations am x3 m k = m k"
    and "SetResourceVersion am x4 m k = m k"
    and "SetUID am x5 m k = m k"
    and "SetGeneration am x6 m k = m k"
    and "SetManagedFields am x7 m k = m k"
  using assms by (simp_all add: unstructured_laws_def frame_laws_def metadata_setterD)

lemma setter_meta_ok [simp]:
  assumes "unstructured_laws am" and "meta_ok m"
  shows "meta_ok (SetName am x0 m)"
    and "meta_ok (SetNamespace am x1 m)"
    and "meta_ok (SetLabels am x2 m)"
    and "meta_ok (SetAnnotations am x3 m)"
    and "meta_ok (SetResourceVersion am x4 m)"
    and "meta_ok (SetUID am x5 m)"
    and "meta_ok (SetGeneration am x6 m)"
    and "meta_ok (SetManagedFields am x7 m)"
  using assms by (simp_all add: unstructured_laws_def frame_laws_def metadata_setterD)

lemma GetName_rewrites [simp]:
  assumes "unstructured_laws am" and "meta_ok m"
  shows "GetName am (SetName am x0 m) = x0"
    and "GetName am (SetNamespace am x1 m) = GetName am m"
    and "GetName am (SetLabels am x2 m) = GetName am m"
    and "GetName am (SetAnnotations am x3 m) = GetName am m"
    and "GetName am (SetResourceVersion am x4 m) = GetName am m"
    and "GetName am (SetUID am x5 m) = GetName am m"
    and "GetName am (SetGeneration am x6 m) = GetName am m"
    and "GetName am (SetManagedFields am x7 m) = GetName am m"
  using assms by (simp_all add: unstructured_laws_def name_laws_def keeps_def)

lemma GetNamespace_rewrites [simp]:
  assumes "unstructured_laws am" and "meta_ok m"
  shows "GetNamespace am (SetName am x0 m) = GetNamespace am m"
    and "GetNamespace am (SetNamespace am x1 m) = x1"
    and "GetNamespace am (SetLabels am x2 m) = GetNamespace am m"
    and "GetNamespace am (SetAnnotations am x3 m) = GetNamespace am m"
    and "GetNamespace am (SetResourceVersion am x4 m) = GetNamespace am m"
    and "GetNamespace am (SetUID am x5 m) = GetNamespace am m"
    and "GetNamespace am (SetGeneration am x6 m) = GetNamespace am m"
    and "GetNamespace am (SetManagedFields am x7 m) = GetNamespace am m"
  using assms by (simp_all add: unstructured_laws_def namespace_laws_def keeps_def)

lemma GetLabels_rewrites [simp]:
  assumes "unstructured_laws am" and "meta_ok m"
  shows "GetLabels am (SetName am x0 m) = GetLabels am m"
    and "GetLabels am (SetNamespace am x1 m) = GetLabels am m"
    and "GetLabels am (SetLabels am x2 m) = x2"
    and "GetLabels am (SetAnnotations am x3 m) = GetLabels am m"
    and "GetLabels am (SetResourceVersion am x4 m) = GetLabels am m"
    and "GetLabels am (SetUID am x5 m) = GetLabels am m"
    and "GetLabels am (SetGeneration am x6 m) = GetLabels am m"
    and "GetLabels am (SetManagedFields am x7 m) = GetLabels am m"
  using assms by (simp_all add: unstructured_laws_def labels_laws_def keeps_def)

lemma GetAnnotations_rewrites [simp]:
  assumes "unstructured_laws am" and "meta_ok m"
  shows "GetAnnotations am (SetName am x0 m) = GetAnnotations am m"
    and "GetAnnotations am (SetNamespace am x1 m) = GetAnnotations am m"
    and "GetAnnotations am (SetLabels am x2 m) = GetAnnotations am m"
    and "GetAnnotations am (SetAnnotations am x3 m) = x3"
    and "GetAnnotations am (SetResourceVersion am x4 m) = GetAnnotations am m"
    and "GetAnnotations am (SetUID am x5 m) = GetAnnotations am m"
    and "GetAnnotations am (SetGeneration am x6 m) = GetAnnotations am m"
    and "GetAnnotations am (SetManagedFields am x7 m) = GetAnnotations am m"
  using assms by (simp_all add: unstructured_laws_def annotations_laws_def keeps_def)

lemma SetGVK_frame [simp]:
  "unstructured_laws am \<Longrightarrow> k \<noteq> ''apiVersion'' \<Longrightarrow> k \<noteq> ''kind'' \<Longrightarrow> SetGVK am g m k = m k"
  unfolding unstructured_laws_def gvk_laws_def by (elim conjE allE [of _ g]) simp

lemma SetGVK_meta_ok [simp]: "unstructured_laws am \<Longrightarrow> meta_ok (SetGVK am g m) = meta_ok m"
  by (simp add: meta_ok_def)

lemma meta_ok_empty [simp]: "meta_ok Map.empty"
  by (simp add: meta_ok_def)

lemma GetGVK_SetGVK:
  assumes "unstructured_laws am" and "gvk_plain g"
    and "m ''apiVersion'' = SetGVK am g m' ''apiVersion''" and "m ''kind'' = SetGVK am g m' ''kind''"
  shows "GetGVK am m = g"
proof -
  have "gvk_laws am" using assms(1) by (simp only: unstructured_laws_def)
  then have "gvk_plain g \<longrightarrow> m ''apiVersion'' = SetGVK am g m' ''apiVersion'' \<longrightarrow>
      m ''kind'' = SetGVK am g m' ''kind'' \<longrightarrow> GetGVK am m = g"
    unfolding gvk_laws_def by (elim conjE) (erule allE)+
  with assms(2-) show ?thesis by (simp only: simp_thms)
qed

lemma reads_metadataD: "reads_metadata g \<Longrightarrow> m ''metadata'' = m' ''metadata'' \<Longrightarrow> g m = g m'"
  unfolding reads_metadata_def by (erule allE [of _ m], erule allE [of _ m']) (rule mp)

lemma getters_metadata:
  assumes "unstructured_laws am" and "m ''metadata'' = m' ''metadata''"
  shows "GetName am m = GetName am m'" and "GetNamespace am m = GetNamespace am m'"
    and "GetLabels am m = GetLabels am m'" and "GetAnnotations am m = GetAnnotations am m'"
proof -
  have r: "reads_metadata (GetName am)" "reads_metadata (GetNamespace am)"
    "reads_metadata (GetLabels am)" "reads_metadata (GetAnnotations am)"
    using assms(1)
    by (simp_all only: unstructured_laws_def name_laws_def namespace_laws_def labels_laws_def
        annotations_laws_def)
  show "GetName am m = GetName am m'" by (rule reads_metadataD [OF r(1), of m m']) (fact assms(2))
  show "GetNamespace am m = GetNamespace am m'"
    by (rule reads_metadataD [OF r(2), of m m']) (fact assms(2))
  show "GetLabels am m = GetLabels am m'"
    by (rule reads_metadataD [OF r(3), of m m']) (fact assms(2))
  show "GetAnnotations am m = GetAnnotations am m'"
    by (rule reads_metadataD [OF r(4), of m m']) (fact assms(2))
qed

lemma getters_no_metadata:
  assumes "unstructured_laws am" and "m ''metadata'' = None"
  shows "GetLabels am m = None" and "GetAnnotations am m = None"
proof -
  have "GetLabels am Map.empty = None" "GetAnnotations am Map.empty = None"
    using assms(1) by (simp_all only: unstructured_laws_def labels_laws_def annotations_laws_def)
  then show "GetLabels am m = None" and "GetAnnotations am m = None"
    using getters_metadata(3,4) [OF assms(1), of m Map.empty, unfolded assms(2)] by simp_all
qed

text \<open>The error predicates: \<^verbatim>\<open>client.IgnoreNotFound\<close> returns nil exactly on not-found errors.\<close>

definition error_laws :: "apimachinery \<Rightarrow> bool" where
  "error_laws am \<longleftrightarrow>
     (\<forall>e. IgnoreNotFound am e = (if IsNotFound am e then None else Some e))"

end
