(* ===== verification/RemoteClients.thy ===== *)
theory RemoteClients
  imports RotatingTransport Machinery
begin

text \<open>
  \<^verbatim>\<open>syncer/controllers/remote_clients.go\<close>: the cache of destination clients that all push watchers
  share. \<^verbatim>\<open>client.New\<close> of controller-runtime is the parameter \<open>newClient\<close>. The mutex is held during the
  whole of \<^verbatim>\<open>get\<close>, so the cache changes only in the steps shown.
\<close>

section \<open>The cache\<close>

record ('w, 't) remoteClientCache =
  rcc_provider :: "('w, 't) RemoteConfigProvider"
  rcc_clients :: "string \<Rightarrow> 'w client option"

definition newRemoteClientCache :: "('w, 't) RemoteConfigProvider \<Rightarrow> ('w, 't) remoteClientCache" where
  "newRemoteClientCache provider = \<lparr>rcc_provider = provider, rcc_clients = Map.empty\<rparr>"

definition remoteClientCache_get ::
  "('t rest_config \<Rightarrow> ('w, 'w client result) io) \<Rightarrow> string \<Rightarrow> RemoteConfig option \<Rightarrow>
     ('w, 't) remoteClientCache \<times> 'w \<Rightarrow> 'w client result \<times> ('w, 't) remoteClientCache \<times> 'w" where
  "remoteClientCache_get newClient ns remote = (\<lambda>(c, w).
     (case rp_Key (rcc_provider c) ns remote of
        Inl e \<Rightarrow> (Inl e, c, w)
      | Inr key \<Rightarrow>
          (case rcc_clients c key of
             Some cl \<Rightarrow> (Inr cl, c, w)
           | None \<Rightarrow>
               (case rp_RESTConfig (rcc_provider c) ns remote w of
                  (Inl e, w1) \<Rightarrow> (Inl e, c, w1)
                | (Inr cfg, w1) \<Rightarrow>
                    (case newClient cfg w1 of
                       (Inl e, w2) \<Rightarrow> (Inl e, c, w2)
                     | (Inr cl, w2) \<Rightarrow>
                         (Inr cl, c\<lparr>rcc_clients := (rcc_clients c)(key \<mapsto> cl)\<rparr>, w2))))))"

section \<open>One client per connection\<close>

definition cachedClient ::
  "string \<times> RemoteConfig option \<Rightarrow> ('w, 't) remoteClientCache \<times> 'w \<Rightarrow> 'w client option" where
  "cachedClient a s = (case rp_Key (rcc_provider (fst s)) (fst a) (snd a) of
     Inl _ \<Rightarrow> None | Inr key \<Rightarrow> rcc_clients (fst s) key)"

lemma get_provider [simp]:
  "rcc_provider (fst (snd (remoteClientCache_get newClient ns remote s))) = rcc_provider (fst s)"
  by (cases s) (auto simp: remoteClientCache_get_def split: sum.splits option.splits prod.splits)

interpretation rcc: persistent_cache cachedClient
  "\<lambda>a. remoteClientCache_get newClient (fst a) (snd a)" for newClient
  by unfold_locales
    (auto simp: remoteClientCache_get_def cachedClient_def split: sum.splits option.splits prod.splits)

text \<open>Where the cached clients come from: each was built from a configuration of a valid remote
  with the entry's key.\<close>

definition builtFor ::
  "('w, 't) RemoteConfigProvider \<Rightarrow> ('t rest_config \<Rightarrow> ('w, 'w client result) io) \<Rightarrow>
     string \<Rightarrow> RemoteConfig option \<Rightarrow> 'w client \<Rightarrow> bool" where
  "builtFor provider newClient ns remote cl \<longleftrightarrow>
     (\<exists>w cfg w1 w2. rp_RESTConfig provider ns remote w = (Inr cfg, w1) \<and> newClient cfg w1 = (Inr cl, w2))"

inductive cache_reachable ::
  "(RemoteConfig option \<Rightarrow> bool) \<Rightarrow> ('w, 't) RemoteConfigProvider \<Rightarrow>
     ('t rest_config \<Rightarrow> ('w, 'w client result) io) \<Rightarrow> ('w, 't) remoteClientCache \<Rightarrow> bool"
  for valid provider newClient where
  fresh: "cache_reachable valid provider newClient (newRemoteClientCache provider)"
| got: "cache_reachable valid provider newClient c \<Longrightarrow> valid remote \<Longrightarrow>
    remoteClientCache_get newClient ns remote (c, w) = (r, c', w') \<Longrightarrow>
    cache_reachable valid provider newClient c'"

lemma cache_provider: "cache_reachable valid provider newClient c \<Longrightarrow> rcc_provider c = provider"
proof (induction rule: cache_reachable.induct)
  case (got c remote ns w r c' w')
  then show ?case using get_provider [of newClient ns remote "(c, w)"] by simp
qed (simp add: newRemoteClientCache_def)

lemma get_entries:
  assumes "remoteClientCache_get newClient ns remote (c, w) = (r, c', w')"
    and "rcc_clients c' key = Some cl"
  shows "rcc_clients c key = Some cl \<or>
    rp_Key (rcc_provider c) ns remote = Inr key \<and> builtFor (rcc_provider c) newClient ns remote cl"
  using assms
  by (fastforce simp: remoteClientCache_get_def builtFor_def
      split: sum.splits option.splits prod.splits if_splits)

lemma cache_entries:
  "cache_reachable valid provider newClient c \<Longrightarrow> rcc_clients c key = Some cl \<Longrightarrow>
     \<exists>ns remote. valid remote \<and> rp_Key provider ns remote = Inr key \<and> builtFor provider newClient ns remote cl"
proof (induction arbitrary: key cl rule: cache_reachable.induct)
  case fresh
  then show ?case by (simp add: newRemoteClientCache_def)
next
  case (got c remote ns w r c' w')
  from get_entries [OF got.hyps(3) got.prems] got.IH got.hyps(2) cache_provider [OF got.hyps(1)]
  show ?case by blast
qed

text \<open>What the interface of the provider gives for the cache: a returned client belongs to the
  connection asked for, and remotes of one connection get the same client.\<close>

context remote_provider
begin

lemma client_of_connection:
  assumes reach: "cache_reachable valid provider newClient c" and r: "valid r"
    and got: "remoteClientCache_get newClient ns r (c, w) = (Inr cl, c', w')"
  shows "\<exists>ns0 r0. valid r0 \<and> conn r0 = conn r \<and> builtFor provider newClient ns0 r0 cl"
proof -
  have reach': "cache_reachable valid provider newClient c'" by (rule cache_reachable.got [OF reach r got])
  obtain k where k: "rp_Key provider ns r = Inr k" using key_exists [OF r] by blast
  have "rcc_clients c' k = Some cl"
    using rcc.stored [of newClient "(ns, r)" "(c, w)" cl "(c', w')"] got k cache_provider [OF reach']
    by (simp add: cachedClient_def)
  from cache_entries [OF reach' this] obtain ns0 r0 where
    "valid r0" "rp_Key provider ns0 r0 = Inr k" "builtFor provider newClient ns0 r0 cl" by blast
  then show ?thesis using key_identifies [of r0 r ns0 ns] k r by auto
qed

lemma shared_client:
  assumes reach: "cache_reachable valid provider newClient c" and r: "valid r" "valid r'" "conn r = conn r'"
    and got: "remoteClientCache_get newClient ns r (c, w) = (Inr cl, s1)"
    and s2: "s2 = fold (\<lambda>a s. snd (remoteClientCache_get newClient (fst a) (snd a) s)) as s1"
  shows "remoteClientCache_get newClient ns' r' s2 = (Inr cl, s2)"
proof -
  have same: "remoteClientCache_get newClient ns r s2 = (Inr cl, s2)"
    using rcc.one_value [of newClient "(ns, r)" "(c, w)" cl s1 s2 as] got s2 by simp
  have "rcc_provider (fst s2) = rcc_provider (fst s1)"
    unfolding s2 by (induction as arbitrary: s1) simp_all
  then have prov: "rcc_provider (fst s2) = provider"
    using get_provider [of newClient ns r "(c, w)"] got cache_provider [OF reach] by simp
  have "rp_Key provider ns' r' = rp_Key provider ns r"
    using key_identifies [of r' r ns' ns] r by simp
  then have "cachedClient (ns', r') s2 = cachedClient (ns, r) s2"
    using prov by (simp add: cachedClient_def)
  moreover have "cachedClient (ns, r) s2 = Some cl"
    using rcc.stored [of newClient "(ns, r)" s2] same by simp
  ultimately show ?thesis
    using rcc.hit [of "(ns', r')" s2 cl newClient] by simp
qed

end

text \<open>A client taken from the cache talks to the cluster asked for: it was built from a configuration
  of a remote with the same project, location, cluster name and endpoint.\<close>

theorem client_belongs_to_the_connection:
  assumes "cache_reachable plainRemote (gkeProvider env) newClient c" and "plainRemote r"
    and "remoteClientCache_get newClient ns r (c, w) = (Inr cl, c', w')"
  shows "\<exists>ns0 r0. plainRemote r0 \<and> connection r0 = connection r \<and>
    builtFor (gkeProvider env) newClient ns0 r0 cl"
  by (rule gke.client_of_connection [OF assms])

text \<open>C28: KRMSyncers of the same connection share one client: once a client was handed out, every later
  lookup for the connection, from any namespace and after any other lookups, returns the same
  client and does no I/O.\<close>

theorem connection_has_one_client:
  assumes "cache_reachable plainRemote (gkeProvider env) newClient c"
    and "plainRemote r" and "plainRemote r'" and "connection r = connection r'"
    and "remoteClientCache_get newClient ns r (c, w) = (Inr cl, s1)"
    and "s2 = fold (\<lambda>a s. snd (remoteClientCache_get newClient (fst a) (snd a) s)) as s1"
  shows "remoteClientCache_get newClient ns' r' s2 = (Inr cl, s2)"
  by (rule gke.shared_client [OF assms])

end
