(* ===== verification/ExampleGke.thy ===== *)
theory ExampleGke
  imports RemoteClients
begin

text \<open>
  A concrete GKE environment for the theorems about the provider: tokens and transports are
  strings, and the rest of the world is the clock in nanoseconds. In the first quarter of an hour the
  GKE API answers with a cluster, in the second with the same cluster after a rotation of its CA
  and endpoint, in the third it refuses, and after that it does not answer.
\<close>

definition rotatedCluster :: gkeCluster where
  "rotatedCluster = exampleCluster\<lparr>gc_ClusterCACertificate := ''Y2I='', gc_IPPrivateEndpoint := ''10.0.0.9''\<rparr>"

definition exGoodResponse :: "string \<Rightarrow> http_response" where
  "exGoodResponse body =
     \<lparr>resp_StatusCode = 200, resp_Status = ''200 OK'', resp_Body = body, resp_BodyErr = None, resp_CloseErr = None\<rparr>"

type_synonym ex_gworld = "(string, string, int) gke_world"

definition exAnswer :: "int \<Rightarrow> http_response result" where
  "exAnswer t =
     (if t < 900000000000 then Inr (exGoodResponse (json_encode (clusterJSON exampleCluster)))
      else if t < 1800000000000 then Inr (exGoodResponse (json_encode (clusterJSON rotatedCluster)))
      else if t < 2700000000000 then
        Inr \<lparr>resp_StatusCode = 403, resp_Status = ''403 Forbidden'', resp_Body = ''no'', resp_BodyErr = None,
             resp_CloseErr = None\<rparr>
      else Inl (ErrorString ''timeout''))"

definition exGenv :: "(string, string, int) genv" where
  "exGenv =
     \<lparr>ge_Now = (\<lambda>t. t),
      ge_Do = (\<lambda>req w. (exAnswer (GKEConfigProvider.more w), w)),
      ge_DefaultTokenSource = (\<lambda>scopes w. (Inr ''adc'', w)),
      ge_ReuseTokenSource = (\<lambda>ts. ts),
      ge_DefaultTransport = ''http'',
      ge_NewTransport = (\<lambda>ca. Inr (''tls:'' @ ca))\<rparr>"

definition exGworld :: "(string \<Rightarrow> cachedGKECluster option) \<Rightarrow> string option \<Rightarrow> int \<Rightarrow> ex_gworld" where
  "exGworld cache ts time =
     \<lparr>p_TokenSource = None, p_ContainerAPIEndpoint = [], p_Transport = None, p_ts = ts,
      p_cache = cache, p_ttl = 0, p_clusterTransport = None, \<dots> = time\<rparr>"

definition exRef :: GKECluster where
  "exRef = \<lparr>gke_Project = ''p'', gke_Location = ''l'', gke_Name = ''c'', gke_Endpoint = ''PrivateIP''\<rparr>"

definition exRemote :: "RemoteConfig option" where
  "exRemote = Some \<lparr>remote_GKECluster = Some exRef\<rparr>"

definition exKey :: string where
  "exKey = ''projects/p/locations/l/clusters/c''"

definition exEntry :: cachedGKECluster where
  "exEntry = \<lparr>cg_cluster = exampleCluster, cg_fetchedAt = 5\<rparr>"

lemma exKey_name: "gkeClusterName exRemote = Inr exKey" "gkeClusterOf exRemote = Some exRef"
  by (simp_all add: gkeClusterName_def gkeClusterOf_def exRemote_def exRef_def exKey_def)

lemma exRef_endpoint: "gke_Endpoint exRef = ''PrivateIP''"
  by (simp add: exRef_def)

lemma plainRemote_ex: "plainRemote exRemote"
  by (simp add: plainRemote_def exKey_name(2)) (simp add: exRef_def plainSegment_def)

lemma exRequest_url: "url_Parse (gr_URL (clusterRequest exGenv exRef ts (exGworld c ts' t))) = Inr ''container.googleapis.com''"
proof -
  have "plain_host ''container.googleapis.com''" by code_simp
  from url_Parse_https_path [OF this] have "url_Parse (clusterURL defaultContainerAPIEndpoint exRef) = Inr ''container.googleapis.com''"
    by code_simp
  then show ?thesis by (simp add: clusterRequest_def exGworld_def)
qed

lemma exGworld_more: "GKEConfigProvider.more (exGworld c ts t) = t"
  by (simp add: exGworld_def)

lemma ex_calls: "ge_Do exGenv req w = (exAnswer (GKEConfigProvider.more w), w)"
  by (simp add: exGenv_def)

lemma ex_printable: "printable_cluster exampleCluster" "printable_cluster rotatedCluster"
  by (simp_all add: printable_cluster_def exampleCluster_def rotatedCluster_def printable_def byte_in_def)

lemma ex_answer_read: "c \<in> {exampleCluster, rotatedCluster} \<Longrightarrow>
    readCluster key (exGoodResponse (json_encode (clusterJSON c))) = Inr c"
proof -
  assume c: "c \<in> {exampleCluster, rotatedCluster}"
  have "length (json_encode (clusterJSON exampleCluster)) < bodyLimit" "length (json_encode (clusterJSON rotatedCluster)) < bodyLimit"
    by (simp_all add: clusterJSON_def exampleCluster_def rotatedCluster_def encode_string_def escape_char_def bodyLimit_def)
  with c ex_printable show ?thesis
    by (auto simp: readCluster_def readLimited_def exGoodResponse_def unmarshalCluster_encoded Let_def)
qed

lemma ex_refused: "googleAPIErrorMessage ''no'' = ''no''"
proof -
  have "json_parse ''no'' = None"
    by (simp add: json_parse_def beginValue_def json_isSpace_def byte_in_def inLiteral_def)
  moreover have "strings_TrimSpace ''no'' = ''no''" by code_simp
  ultimately show ?thesis
    by (simp add: googleAPIErrorMessage_def unmarshalMessage_def json_Unmarshal_def)
qed

lemma ex_fetch:
  "fetchCluster exGenv key exRef ts (exGworld c ts' t)
     = ((if t < 900000000000 then Inr exampleCluster
         else if t < 1800000000000 then Inr rotatedCluster
         else if t < 2700000000000 then Inl (ErrorString (''getting GKE cluster '' @ key @ '': 403 Forbidden: no''))
         else Inl (WrapError (''getting GKE cluster '' @ key @ '': '') (ErrorString ''timeout''))), exGworld c ts' t)"
proof -
  have "readCluster key \<lparr>resp_StatusCode = 403, resp_Status = ''403 Forbidden'', resp_Body = ''no'',
      resp_BodyErr = None, resp_CloseErr = None\<rparr>
    = Inl (ErrorString (''getting GKE cluster '' @ key @ '': 403 Forbidden: no''))"
    by (simp add: readCluster_def readLimited_def bodyLimit_def ex_refused)
  then show ?thesis
    by (simp add: fetchCluster_def Let_def exRequest_url ex_calls exGworld_more exAnswer_def ex_answer_read)
qed


theorem cluster_is_read_whole_witness:
  "\<exists>c. fetchCluster exGenv exKey exRef ''adc'' (exGworld Map.empty None 0) = (Inr c, exGworld Map.empty None 0) \<and>
     c = exampleCluster"
proof (intro exI conjI)
  show f: "fetchCluster exGenv exKey exRef ''adc'' (exGworld Map.empty None 0) = (Inr exampleCluster, exGworld Map.empty None 0)"
    by (simp add: ex_fetch)
  show "exampleCluster = exampleCluster"
    by (rule cluster_is_read_whole [OF f, where resp = "exGoodResponse (json_encode (clusterJSON exampleCluster))"])
      (simp_all add: ex_calls exGworld_more exAnswer_def exGoodResponse_def unmarshalCluster_encoded ex_printable)
qed

lemma ex_now: "now exGenv (exGworld c ts t) = t"
  by (simp add: now_def exGenv_def exGworld_def)

lemma exGworld_cache: "p_cache (exGworld c ts t) = c" "clusterTTL (exGworld c ts t) = 600000000000"
  "(exGworld c ts t)\<lparr>p_cache := c'\<rparr> = exGworld c' ts t"
  "(exGworld c ts t)\<lparr>p_ts := ts'\<rparr> = exGworld c ts' t" "p_ts (exGworld c ts t) = ts"
  "p_TokenSource (exGworld c ts t) = None" "p_clusterTransport (exGworld c ts t) = None"
  by (simp_all add: exGworld_def clusterTTL_def gkeClusterTTL_def)

lemma ex_cluster_miss:
  "t < 900000000000 \<Longrightarrow> c key = None \<Longrightarrow> cluster exGenv key exRef ts (exGworld c ts' t)
     = (Inr exampleCluster, exGworld (c(key \<mapsto> \<lparr>cg_cluster = exampleCluster, cg_fetchedAt = t\<rparr>)) ts' t)"
  by (simp add: cluster_def cacheFresh_def exGworld_cache ex_fetch ex_now)

lemma ex_cluster_outage:
  "2700000000000 \<le> t \<Longrightarrow> c key = None \<Longrightarrow> cluster exGenv key exRef ts (exGworld c ts' t)
     = (Inl (WrapError (''getting GKE cluster '' @ key @ '': '') (ErrorString ''timeout'')), exGworld c ts' t)"
  by (simp add: cluster_def cacheFresh_def exGworld_cache ex_fetch)

lemma ex_cluster_expired:
  "cluster exGenv exKey exRef ts (exGworld [exKey \<mapsto> exEntry] ts' 900000000000)
     = (Inr rotatedCluster,
        exGworld [exKey \<mapsto> \<lparr>cg_cluster = rotatedCluster, cg_fetchedAt = 900000000000\<rparr>] ts' 900000000000)"
  by (simp add: cluster_def cacheFresh_def exGworld_cache ex_fetch ex_now exEntry_def)

lemma ex_url: "url_Parse ''https://10.0.0.2'' = Inr ''10.0.0.2''" "url_Parse ''https://10.0.0.9'' = Inr ''10.0.0.9''"
proof -
  have h: "plain_host ''10.0.0.2''" "plain_host ''10.0.0.9''" by code_simp+
  from url_Parse_https [OF h(1)] url_Parse_https [OF h(2)]
  show "url_Parse ''https://10.0.0.2'' = Inr ''10.0.0.2''" "url_Parse ''https://10.0.0.9'' = Inr ''10.0.0.9''" by simp_all
qed

definition exTransport :: "(string, string) rotatingTransport" where
  "exTransport = \<lparr>rt_key = exKey, rt_ref = exRef, rt_ts = ''adc'', rt_host = ''10.0.0.2'', rt_caData = ''ca'',
     rt_rt = Some ''tls:ca''\<rparr>"

definition exConfig :: "(string, string) wrapper rest_config" where
  "exConfig = \<lparr>rc_Host = ''https://10.0.0.2'', rc_CAData = ''ca'', rc_Timeout = 0,
     rc_Wrappers = [RotatingWrapper exTransport, TokenSourceWrapper ''adc'']\<rparr>"

lemma ex_RESTConfig:
  "GKE_RESTConfig exGenv ns exRemote (exGworld Map.empty None 5)
     = (Inr exConfig, exGworld [exKey \<mapsto> exEntry] (Some ''adc'') 5)"
proof -
  have ts: "tokenSource exGenv (exGworld Map.empty None 5) = (Inr ''adc'', exGworld Map.empty (Some ''adc'') 5)"
    by (simp add: tokenSource_def exGworld_cache) (simp add: exGenv_def exGworld_cache)
  have cl: "cluster exGenv exKey exRef ''adc'' (exGworld Map.empty (Some ''adc'') 5)
      = (Inr exampleCluster, exGworld [exKey \<mapsto> exEntry] (Some ''adc'') 5)"
    by (simp add: ex_cluster_miss exEntry_def)
  have "newClusterTransport exGenv w ''ca'' = Inr ''tls:ca''" if "p_clusterTransport w = None" for w
    using that by (simp add: newClusterTransport_def exGenv_def)
  then show ?thesis
    by (simp add: GKE_RESTConfig_def exKey_name ts cl exRef_endpoint exampleCluster_config
        rt_update_def ex_url newRotatingTransport_def exGworld_cache exConfig_def exTransport_def)
qed

lemma exTransport_reachable: "transport_reachable exGenv None exTransport"
  by (rule transport_reachable.created [OF ex_RESTConfig]) (simp_all add: exGworld_cache exConfig_def)

lemma rotatedCluster_config:
  "restConfig rotatedCluster ''PrivateIP''
     = Inr \<lparr>rc_Host = ''https://10.0.0.9'', rc_CAData = ''cb'', rc_Timeout = 0, rc_Wrappers = []\<rparr>"
proof -
  have "base64_DecodeString ''Y2I='' = Inr ''cb''" by code_simp
  then show ?thesis
    by (simp add: restConfig_def ipRESTConfig_def endpoint_defs rotatedCluster_def)
qed

section \<open>Witnesses: the provider\<close>

theorem fetchCluster_error_names_cluster_witness:
  "\<exists>stage \<in> {''getting'', ''reading'', ''decoding''}. \<exists>detail.
     ''getting GKE cluster k: 403 Forbidden: no'' = stage @ '' GKE cluster '' @ ''k'' @ '': '' @ detail"
  using fetchCluster_error_names_cluster [of exGenv "''k''" exRef "''t''" "exGworld Map.empty None 2000000000000", OF _ exRequest_url]
  by (simp add: ex_fetch)

theorem cluster_reuse_window_witness:
  "cluster exGenv exKey exRef ''t'' (exGworld [exKey \<mapsto> exEntry] None 600000000004)
     = (Inr exampleCluster, exGworld [exKey \<mapsto> exEntry] None 600000000004)"
proof -
  have first: "cluster exGenv exKey exRef ''t'' (exGworld Map.empty None 5)
      = (Inr exampleCluster, exGworld [exKey \<mapsto> exEntry] None 5)"
    by (simp add: ex_cluster_miss exEntry_def)
  have same: "p_cache (exGworld [exKey \<mapsto> exEntry] None 600000000004) exKey = p_cache (exGworld [exKey \<mapsto> exEntry] None 5) exKey"
    by (simp add: exGworld_cache)
  from cluster_reuse_window [where ref' = exRef and ts' = "''t''", OF first same] show ?thesis
    by (auto simp: exGworld_cache ex_now exEntry_def)
qed

theorem failed_fetch_writes_nothing_witness:
  "cacheFresh exGenv exKey (exGworld Map.empty None 2700000000000) = None \<and>
   (\<exists>e. fetchCluster exGenv exKey exRef ''t'' (exGworld Map.empty None 2700000000000)
      = (Inl e, exGworld Map.empty None 2700000000000))"
  using failed_fetch_writes_nothing [OF ex_cluster_outage [of 2700000000000 Map.empty exKey "''t''" None]] by auto

theorem token_source_is_shared_witness:
  "tokenSource exGenv (exGworld Map.empty (Some ''adc'') 7) = (Inr ''adc'', exGworld Map.empty (Some ''adc'') 7)"
proof -
  have "tokenSource exGenv (exGworld Map.empty None 5) = (Inr ''adc'', exGworld Map.empty (Some ''adc'') 5)"
    by (simp add: tokenSource_def exGworld_cache) (simp add: exGenv_def exGworld_cache)
  with token_source_is_shared [of exGenv "exGworld Map.empty None 5"] show ?thesis
    by (auto simp: exGworld_cache)
qed

section \<open>Witnesses: the transport\<close>

theorem transport_matches_its_ca_witness:
  "rt_rt exTransport = Some ''tls:ca'' \<and>
   (\<exists>rt. rt_rt exTransport = Some rt \<and> buildTransport exGenv None (rt_caData exTransport) = Inr rt)"
  using transport_matches_its_ca [OF exTransport_reachable] by (simp add: exTransport_def)

theorem round_trip_never_panics_witness:
  "\<exists>resp t' w'. RoundTrip exGenv (\<lambda>rt req w. (rt, w)) exTransport
     \<lparr>rq_URLHost = ''h'', rq_Host = ''h'', rq_Rest = ''GET''\<rparr> (exGworld Map.empty None 0) = (Some resp, t', w')"
  by (rule round_trip_never_panics [OF exTransport_reachable])

theorem rotation_is_followed_witness:
  "fst (RoundTrip exGenv (\<lambda>rt req w. ((rt, rq_URLHost req), w)) exTransport
     \<lparr>rq_URLHost = ''10.0.0.2'', rq_Host = ''10.0.0.2'', rq_Rest = ''GET''\<rparr>
     (exGworld [exKey \<mapsto> exEntry] (Some ''adc'') 900000000000)) = Some (''tls:cb'', ''10.0.0.9'')"
proof -
  let ?req = "\<lparr>rq_URLHost = ''10.0.0.2'', rq_Host = ''10.0.0.2'', rq_Rest = ''GET''\<rparr>"
  let ?send = "\<lambda>rt req w. ((rt, rq_URLHost req), w)"
  let ?w1 = "exGworld [exKey \<mapsto> \<lparr>cg_cluster = rotatedCluster, cg_fetchedAt = 900000000000\<rparr>] (Some ''adc'') 900000000000"
  have fetch: "cluster exGenv (rt_key exTransport) (rt_ref exTransport) (rt_ts exTransport)
      (exGworld [exKey \<mapsto> exEntry] (Some ''adc'') 900000000000) = (Inr rotatedCluster, ?w1)"
    using ex_cluster_expired by (simp add: exTransport_def)
  have cfg: "restConfig rotatedCluster (gke_Endpoint (rt_ref exTransport))
      = Inr \<lparr>rc_Host = ''https://10.0.0.9'', rc_CAData = ''cb'', rc_Timeout = 0, rc_Wrappers = []\<rparr>"
    using rotatedCluster_config by (simp add: exTransport_def exRef_endpoint)
  have sent: "?send ''tls:cb'' (retarget ''10.0.0.9'' ?req) ?w1 = ((''tls:cb'', ''10.0.0.9''), ?w1)"
    by (simp add: retarget_def)
  have "RoundTrip exGenv ?send exTransport ?req (exGworld [exKey \<mapsto> exEntry] (Some ''adc'') 900000000000)
      = (Some (''tls:cb'', ''10.0.0.9''),
         exTransport\<lparr>rt_host := ''10.0.0.9'', rt_caData := ''cb'', rt_rt := Some ''tls:cb''\<rparr>, ?w1)"
    using rotation_is_followed [where rt = "''tls:cb''" and send = ?send and req = ?req, OF exTransport_reachable fetch _ cfg]
      ex_url(2) sent
    by (simp add: exGworld_cache buildTransport_def exGenv_def)
  then show ?thesis by simp
qed

theorem outage_uses_last_settings_witness:
  "fst (RoundTrip exGenv (\<lambda>rt req w. ((rt, rq_URLHost req), w)) exTransport
     \<lparr>rq_URLHost = ''h'', rq_Host = ''h'', rq_Rest = ''GET''\<rparr> (exGworld Map.empty None 2700000000000))
   = Some (''tls:ca'', ''10.0.0.2'')"
proof -
  have "cluster exGenv (rt_key exTransport) (rt_ref exTransport) (rt_ts exTransport) (exGworld Map.empty None 2700000000000)
      = (Inl (WrapError (''getting GKE cluster '' @ exKey @ '': '') (ErrorString ''timeout'')), exGworld Map.empty None 2700000000000)"
    using ex_cluster_outage by (simp add: exTransport_def)
  from outage_uses_last_settings [OF exTransport_reachable this, of "\<lambda>rt req w. ((rt, rq_URLHost req), w)"
      "\<lparr>rq_URLHost = ''h'', rq_Host = ''h'', rq_Rest = ''GET''\<rparr>"]
  show ?thesis by (auto simp: exTransport_def retarget_def)
qed

theorem RESTConfig_describes_the_cluster_witness:
  "rc_Host exConfig = ''https://10.0.0.2'' \<and>
   (\<exists>ts t. rc_Wrappers exConfig = [RotatingWrapper t, TokenSourceWrapper ts] \<and> rt_ref t = exRef \<and> rt_rt t \<noteq> None)"
  using RESTConfig_describes_the_cluster [OF ex_RESTConfig [of "[]"]]
  by (auto simp: exKey_name) (simp add: exConfig_def)

section \<open>Witnesses: the client cache\<close>

text \<open>A client that does nothing, for the cache.\<close>

definition idleClient :: "ex_gworld client" where
  "idleClient = \<lparr>cl_Get = (\<lambda>_ _ w. (Inr Map.empty, w)), cl_Delete = (\<lambda>_ w. (None, w)),
     cl_PatchApply = (\<lambda>_ u w. (Inr u, w)), cl_StatusPatchApply = (\<lambda>_ u w. (Inr u, w)),
     cl_GetNamespace = (\<lambda>_ w. (None, w)), cl_CreateNamespace = (\<lambda>_ w. (None, w)),
     cl_ListKRMSyncers = (\<lambda>w. (Inr [], w)), cl_GetKRMSyncer = (\<lambda>_ w. (Inl (ErrorString ''none''), w)),
     cl_StatusUpdateKRMSyncer = (\<lambda>_ w. (None, w))\<rparr>"

definition exNewClient :: "(string, string) wrapper rest_config \<Rightarrow> (ex_gworld, ex_gworld client result) io" where
  "exNewClient cfg w = (Inr idleClient, w)"

lemma ex_get:
  "\<exists>c' w'. remoteClientCache_get exNewClient ''ns'' exRemote
     (newRemoteClientCache (gkeProvider exGenv), exGworld Map.empty None 5) = (Inr idleClient, c', w')"
proof -
  obtain k where "GKE_Key ''ns'' exRemote = Inr k"
    using GKE_Key_plain [OF plainRemote_ex exKey_name(2)] by blast
  then show ?thesis
    by (simp add: remoteClientCache_get_def newRemoteClientCache_def gkeProvider_def ex_RESTConfig exNewClient_def)
qed

theorem client_belongs_to_the_connection_witness:
  "\<exists>ns0 r0. plainRemote r0 \<and> connection r0 = connection exRemote \<and>
     builtFor (gkeProvider exGenv) exNewClient ns0 r0 idleClient"
proof -
  obtain c' w' where get: "remoteClientCache_get exNewClient ''ns'' exRemote
     (newRemoteClientCache (gkeProvider exGenv), exGworld Map.empty None 5) = (Inr idleClient, c', w')"
    using ex_get by blast
  from client_belongs_to_the_connection [OF cache_reachable.fresh plainRemote_ex get] show ?thesis .
qed

theorem connection_has_one_client_witness:
  "\<exists>s. remoteClientCache_get exNewClient ''other'' exRemote s = (Inr idleClient, s)"
proof -
  obtain c' w' where get: "remoteClientCache_get exNewClient ''ns'' exRemote
     (newRemoteClientCache (gkeProvider exGenv), exGworld Map.empty None 5) = (Inr idleClient, c', w')"
    using ex_get by blast
  from connection_has_one_client [OF cache_reachable.fresh plainRemote_ex plainRemote_ex refl get refl, where ns' = "''other''"]
  show ?thesis by blast
qed

end
