(* ===== verification/ExampleMachinery.thy ===== *)
theory ExampleMachinery
  imports Machinery GoStd
begin

text \<open>
  A concrete instance of the parameter record \<open>apimachinery\<close>, at which the theorems are applied to
  concrete inputs. It keeps the metadata accessors in the \<^verbatim>\<open>metadata\<close> entry of the object and
  satisfies all the laws, so the laws are consistent.
\<close>

definition ex_meta :: "jobject \<Rightarrow> jobject" where
  "ex_meta m = (case m ''metadata'' of Some (JObject o') \<Rightarrow> o' | _ \<Rightarrow> Map.empty)"

definition ex_set_meta :: "string \<Rightarrow> json option \<Rightarrow> jobject \<Rightarrow> jobject" where
  "ex_set_meta k v m =
     (case m ''metadata'' of
        None \<Rightarrow> m(''metadata'' \<mapsto> JObject (Map.empty(k := v)))
      | Some (JObject o') \<Rightarrow> m(''metadata'' \<mapsto> JObject (o'(k := v)))
      | Some _ \<Rightarrow> m)"

definition ex_str :: "json option \<Rightarrow> string" where
  "ex_str v = (case v of Some (JString s) \<Rightarrow> s | _ \<Rightarrow> [])"

definition ex_opt :: "string \<Rightarrow> json option" where
  "ex_opt s = (if s = [] then None else Some (JString s))"

definition ex_strmap :: "json option \<Rightarrow> (string \<Rightarrow> string option) option" where
  "ex_strmap v = (case v of
     Some (JObject o') \<Rightarrow> Some (\<lambda>k. case o' k of Some (JString s) \<Rightarrow> Some s | _ \<Rightarrow> None)
   | _ \<Rightarrow> None)"

definition ex_jmap :: "(string \<Rightarrow> string option) option \<Rightarrow> json option" where
  "ex_jmap l = map_option (\<lambda>f. JObject (\<lambda>k. map_option JString (f k))) l"

definition ex_ParseGroupVersion :: "string \<Rightarrow> (string \<times> string) result" where
  "ex_ParseGroupVersion gv =
     (if gv = [] \<or> gv = ''/'' then Inr ([], [])
      else case strings_Split gv (CHR ''/'') of
        [v] \<Rightarrow> Inr ([], v)
      | [g, v] \<Rightarrow> Inr (g, v)
      | _ \<Rightarrow> Inl (ErrorString (''unexpected GroupVersion string: '' @ gv)))"

definition ex_apiVersion :: "GroupVersionKind \<Rightarrow> string" where
  "ex_apiVersion g = (if gvk_Group g = [] then gvk_Version g else gvk_Group g @ ''/'' @ gvk_Version g)"

definition ex_NotFound :: "goerror \<Rightarrow> bool" where
  "ex_NotFound e = (case e of StatusError r _ \<Rightarrow> r = ''NotFound'' | _ \<Rightarrow> False)"

definition ex_AlreadyExists :: "goerror \<Rightarrow> bool" where
  "ex_AlreadyExists e = (case e of StatusError r _ \<Rightarrow> r = ''AlreadyExists'' | _ \<Rightarrow> False)"

definition ex_am :: apimachinery where
  "ex_am = \<lparr>
     IsNotFound = ex_NotFound,
     IsAlreadyExists = ex_AlreadyExists,
     IgnoreNotFound = (\<lambda>e. if ex_NotFound e then None else Some e),
     GVKString = (\<lambda>g. gvk_Group g @ ''/'' @ gvk_Version g @ '', Kind='' @ gvk_Kind g),
     ParseGroupVersion = ex_ParseGroupVersion,
     NestedFieldCopy = (\<lambda>m. follow (JObject m)),
     SetNestedField = store,
     GetGVK = (\<lambda>m. case ex_ParseGroupVersion (ex_str (m ''apiVersion'')) of
         Inl _ \<Rightarrow> \<lparr>gvk_Group = [], gvk_Version = [], gvk_Kind = []\<rparr>
       | Inr (g, v) \<Rightarrow> \<lparr>gvk_Group = g, gvk_Version = v, gvk_Kind = ex_str (m ''kind'')\<rparr>),
     SetGVK = (\<lambda>g m. m(''apiVersion'' \<mapsto> JString (ex_apiVersion g), ''kind'' \<mapsto> JString (gvk_Kind g))),
     GetAPIVersion = (\<lambda>m. ex_str (m ''apiVersion'')),
     GetKind = (\<lambda>m. ex_str (m ''kind'')),
     GetName = (\<lambda>m. ex_str (ex_meta m ''name'')),
     SetName = (\<lambda>n. ex_set_meta ''name'' (ex_opt n)),
     GetNamespace = (\<lambda>m. ex_str (ex_meta m ''namespace'')),
     SetNamespace = (\<lambda>n. ex_set_meta ''namespace'' (ex_opt n)),
     GetLabels = (\<lambda>m. ex_strmap (ex_meta m ''labels'')),
     SetLabels = (\<lambda>l. ex_set_meta ''labels'' (ex_jmap l)),
     GetAnnotations = (\<lambda>m. ex_strmap (ex_meta m ''annotations'')),
     SetAnnotations = (\<lambda>l. ex_set_meta ''annotations'' (ex_jmap l)),
     SetResourceVersion = (\<lambda>s. ex_set_meta ''resourceVersion'' (ex_opt s)),
     SetUID = (\<lambda>s. ex_set_meta ''uid'' (ex_opt s)),
     SetGeneration = (\<lambda>n. ex_set_meta ''generation'' (if n = 0 then None else Some (JInt n))),
     SetManagedFields = ex_set_meta ''managedFields''\<rparr>"

lemma ex_meta_set: "meta_ok m \<Longrightarrow> ex_meta (ex_set_meta k v m) = (ex_meta m)(k := v)"
  by (auto simp: ex_meta_def ex_set_meta_def meta_ok_def split: option.splits json.splits)

lemma ex_set_meta_setter: "is_metadata_setter (ex_set_meta k v)"
  by (auto simp: is_metadata_setter_def ex_set_meta_def meta_ok_def split: option.splits json.splits)

lemma ex_reads: "reads_metadata (\<lambda>m. f (ex_meta m k))"
  by (simp add: reads_metadata_def ex_meta_def)

lemma ex_keeps: "j \<noteq> k \<Longrightarrow> keeps (\<lambda>m. f (ex_meta m j)) (ex_set_meta k v)"
  by (simp add: keeps_def ex_meta_set)

lemma ex_str_opt: "ex_str (ex_opt s) = s"
  by (simp add: ex_str_def ex_opt_def)

lemma ex_meta_empty: "ex_strmap (ex_meta Map.empty k) = None"
  by (simp add: ex_meta_def ex_strmap_def)

lemma ex_strmap_jmap: "ex_strmap (ex_jmap l) = l"
  by (cases l) (auto simp: ex_strmap_def ex_jmap_def fun_eq_iff split: option.split)

lemma Split_one_sep:
  assumes "c \<notin> set a" and "c \<notin> set b"
  shows "strings_Split (a @ c # b) c = [a, b]"
  using assms by (induction a) (auto simp: Split_no_sep)

lemma ex_Parse_apiVersion:
  assumes "gvk_plain g"
  shows "ex_ParseGroupVersion (ex_apiVersion g) = Inr (gvk_Group g, gvk_Version g)"
proof (cases "gvk_Group g = []")
  case True
  with assms have "gvk_Version g \<noteq> ''/''" by (auto simp: gvk_plain_def)
  with True assms show ?thesis
    by (auto simp: ex_ParseGroupVersion_def ex_apiVersion_def gvk_plain_def Split_no_sep)
next
  case False
  then have "gvk_Group g @ CHR ''/'' # gvk_Version g \<noteq> ''/''" by (cases "gvk_Group g") auto
  with False assms show ?thesis
    by (simp add: ex_ParseGroupVersion_def ex_apiVersion_def gvk_plain_def Split_one_sep)
qed

lemma ex_nested_laws: "nested_laws ex_am"
  by (simp add: nested_laws_def ex_am_def)

lemma ex_frame_laws: "frame_laws ex_am"
  by (simp add: frame_laws_def ex_am_def ex_set_meta_setter)

lemma ex_getter_laws:
  "name_laws ex_am" "namespace_laws ex_am" "labels_laws ex_am" "annotations_laws ex_am"
  by (simp_all add: name_laws_def namespace_laws_def labels_laws_def annotations_laws_def ex_am_def
      ex_reads ex_keeps ex_meta_set ex_str_opt ex_strmap_jmap ex_meta_empty)

lemma ex_gvk_laws: "gvk_laws ex_am"
  by (auto simp: gvk_laws_def ex_am_def ex_str_def ex_Parse_apiVersion)

lemma ex_unstructured_laws: "unstructured_laws ex_am"
  by (simp add: unstructured_laws_def ex_nested_laws ex_frame_laws ex_getter_laws ex_gvk_laws)

lemma ex_error_laws: "error_laws ex_am"
  by (simp add: error_laws_def ex_am_def)

end
