(* ===== verification/DynamicSync.thy ===== *)
theory DynamicSync
  imports Machinery GoStd
begin

text \<open>
  The helpers of \<^verbatim>\<open>DynamicResourceReconciler\<close> that build and write the destination object:
  \<^verbatim>\<open>filterFields\<close>, \<^verbatim>\<open>isFullSync\<close>, \<^verbatim>\<open>destinationExists\<close> and \<^verbatim>\<open>applyToDestination\<close>. The lemmas say which parts
  of the source object reach the destination, and which calls are made on the destination client
  in which order.
\<close>

section \<open>krmsyncer_controller.go: building the destination object\<close>

fun isFullSync :: "string list \<Rightarrow> bool" where
  "isFullSync [] = False"
| "isFullSync (field # flds) = (if field = ''spec'' then True else isFullSync flds)"

text \<open>The loop over the sync fields, with its two early returns.\<close>

fun copyFields :: "apimachinery \<Rightarrow> jobject \<Rightarrow> string list \<Rightarrow> jobject \<Rightarrow> jobject result" where
  "copyFields am src [] dest = Inr dest"
| "copyFields am src (field # flds) dest =
     (let parts = strings_Split field (CHR ''.'') in
      case NestedFieldCopy am src parts of
        Inl e \<Rightarrow> Inl (ErrorString (''failed to get field '' @ field @ '': '' @ err_msg e))
      | Inr None \<Rightarrow> copyFields am src flds dest
      | Inr (Some val) \<Rightarrow>
          (case SetNestedField am dest val parts of
             Inl e \<Rightarrow> Inl (ErrorString (''failed to set field '' @ field @ '': '' @ err_msg e))
           | Inr dest' \<Rightarrow> copyFields am src flds dest'))"

definition destSkeleton :: "apimachinery \<Rightarrow> jobject \<Rightarrow> string list \<Rightarrow> jobject" where
  "destSkeleton am src flds =
     (let dest = SetNamespace am (GetNamespace am src)
                   (SetName am (GetName am src) (SetGVK am (GetGVK am src) Map.empty)) in
      if isFullSync flds
      then SetAnnotations am (GetAnnotations am src) (SetLabels am (GetLabels am src) dest)
      else dest)"

definition filterFields :: "apimachinery \<Rightarrow> jobject \<Rightarrow> string list \<Rightarrow> jobject result" where
  "filterFields am src flds = copyFields am src flds (destSkeleton am src flds)"

definition prepareForDestination :: "apimachinery \<Rightarrow> jobject \<Rightarrow> jobject" where
  "prepareForDestination am obj =
     SetManagedFields am None (SetGeneration am 0 (SetUID am [] (SetResourceVersion am [] obj)))"

section \<open>krmsyncer_controller.go: writing the destination object\<close>

definition objectKey :: "apimachinery \<Rightarrow> jobject \<Rightarrow> NamespacedName" where
  "objectKey am obj = \<lparr>nn_Namespace = GetNamespace am obj, nn_Name = GetName am obj\<rparr>"

definition destinationExists ::
  "apimachinery \<Rightarrow> 'w client \<Rightarrow> jobject \<Rightarrow> ('w, bool result) io" where
  "destinationExists am destClient obj w =
     (case cl_Get destClient (GetGVK am obj) (objectKey am obj) w of
        (Inr _, w') \<Rightarrow> (Inr True, w')
      | (Inl e, w') \<Rightarrow>
          if IsNotFound am e then (Inr False, w')
          else (Inl (WrapError ''failed to check destination object: '' e), w'))"

text \<open>The first part of \<^verbatim>\<open>applyToDestination\<close>: the destination namespace is created if missing.\<close>

definition ensureNamespace :: "apimachinery \<Rightarrow> 'w client \<Rightarrow> string \<Rightarrow> ('w, goerror option) io" where
  "ensureNamespace am destClient nsName w =
     (if nsName = [] then (None, w)
      else case cl_GetNamespace destClient nsName w of
        (None, w1) \<Rightarrow> (None, w1)
      | (Some e, w1) \<Rightarrow>
          if IsNotFound am e then
            (case cl_CreateNamespace destClient nsName w1 of
               (None, w2) \<Rightarrow> (None, w2)
             | (Some e', w2) \<Rightarrow>
                 if IsAlreadyExists am e' then (None, w2)
                 else (Some (ErrorString (''failed to create destination namespace '' @ go_quote nsName
                        @ '': '' @ err_msg e')), w2))
          else (Some (ErrorString (''failed to check destination namespace '' @ go_quote nsName
                  @ '': '' @ err_msg e)), w1))"

definition patchOpts :: patch_options where
  "patchOpts = \<lparr>po_ForceOwnership = True, po_FieldOwner = ''krm-syncer''\<rparr>"

definition statusObject :: "apimachinery \<Rightarrow> jobject \<Rightarrow> json \<Rightarrow> jobject" where
  "statusObject am obj status =
     [''apiVersion'' \<mapsto> JString (GetAPIVersion am obj),
      ''kind'' \<mapsto> JString (GetKind am obj),
      ''metadata'' \<mapsto> JObject [''name'' \<mapsto> JString (GetName am obj),
                              ''namespace'' \<mapsto> JString (GetNamespace am obj)],
      ''status'' \<mapsto> status]"

text \<open>The second part: server-side apply of the object, then of its status. \<^verbatim>\<open>Patch\<close> overwrites the
  object with the server's answer, which is why the status is copied before it.\<close>

definition patchObject :: "apimachinery \<Rightarrow> 'w client \<Rightarrow> jobject \<Rightarrow> ('w, goerror option) io" where
  "patchObject am destClient obj w =
     (case NestedFieldCopy am obj [''status''] of
        Inl e \<Rightarrow> (Some (ErrorString (''failed to copy status: '' @ err_msg e)), w)
      | Inr found \<Rightarrow>
          (case cl_PatchApply destClient patchOpts obj w of
             (Inl e, w1) \<Rightarrow>
               (Some (ErrorString (''failed to apply object to destination: '' @ err_msg e)), w1)
           | (Inr obj', w1) \<Rightarrow>
               (case found of
                  None \<Rightarrow> (None, w1)
                | Some status \<Rightarrow>
                    (case cl_StatusPatchApply destClient patchOpts (statusObject am obj' status) w1 of
                       (Inl e, w2) \<Rightarrow>
                         (Some (ErrorString (''failed to apply status subresource to destination: ''
                            @ err_msg e)), w2)
                     | (Inr _, w2) \<Rightarrow> (None, w2)))))"

definition applyToDestination :: "apimachinery \<Rightarrow> 'w client \<Rightarrow> jobject \<Rightarrow> ('w, goerror option) io" where
  "applyToDestination am destClient obj w =
     (case ensureNamespace am destClient (GetNamespace am obj) w of
        (Some e, w1) \<Rightarrow> (Some e, w1)
      | (None, w1) \<Rightarrow> patchObject am destClient obj w1)"

lemma isFullSync_iff: "isFullSync flds \<longleftrightarrow> ''spec'' \<in> set flds"
  by (induction flds) auto

section \<open>Which fields reach the destination\<close>

text \<open>The values the CRD admits in \<^verbatim>\<open>syncFields\<close> (an enum on the items).\<close>

definition syncFieldEnum :: "string set" where
  "syncFieldEnum = {''spec'', ''status'', ''spec.resourceID''}"

text \<open>The \<^verbatim>\<open>spec\<close> of the destination object for a set of selected fields: all of the source's, only
  its resource ID, or nothing.\<close>

definition selectedSpec :: "jobject \<Rightarrow> string set \<Rightarrow> json option" where
  "selectedSpec src P =
     (if ''spec'' \<in> P then src ''spec''
      else if ''spec.resourceID'' \<in> P then
        (case src ''spec'' of
           Some (JObject m) \<Rightarrow> map_option (\<lambda>v. JObject [''resourceID'' \<mapsto> v]) (m ''resourceID'')
         | _ \<Rightarrow> None)
      else None)"

definition selectedStatus :: "jobject \<Rightarrow> string set \<Rightarrow> json option" where
  "selectedStatus src P = (if ''status'' \<in> P then src ''status'' else None)"

definition copied :: "jobject \<Rightarrow> jobject \<Rightarrow> string set \<Rightarrow> jobject \<Rightarrow> bool" where
  "copied src base P dest \<longleftrightarrow>
     (\<forall>k. k \<noteq> ''spec'' \<and> k \<noteq> ''status'' \<longrightarrow> dest k = base k) \<and>
     dest ''status'' = selectedStatus src P \<and> dest ''spec'' = selectedSpec src P"

lemma Split_fields:
  "strings_Split ''spec'' (CHR ''.'') = [''spec'']"
  "strings_Split ''status'' (CHR ''.'') = [''status'']"
  "strings_Split ''spec.resourceID'' (CHR ''.'') = [''spec'', ''resourceID'']"
  by simp_all

lemma follow_field: "follow (JObject m) [k] = Inr (m k)"
  by (simp split: option.split)

lemma copied_upd:
  assumes "copied src base P dest"
  shows "src ''status'' = Some v \<Longrightarrow> copied src base (insert ''status'' P) (dest(''status'' \<mapsto> v))"
    and "src ''spec'' = Some v \<Longrightarrow> copied src base (insert ''spec'' P) (dest(''spec'' \<mapsto> v))"
    and "src ''status'' = None \<Longrightarrow> copied src base (insert ''status'' P) dest"
    and "src ''spec'' = None \<Longrightarrow> copied src base (insert ''spec'' P) dest"
  using assms by (auto simp: copied_def selectedStatus_def selectedSpec_def)

text \<open>One iteration of the field loop.\<close>

lemma copy_one_field:
  assumes laws: "nested_laws am" and f: "f \<in> syncFieldEnum" and inv: "copied src base P dest"
  shows "copyFields am src [f] dest = Inr dest' \<Longrightarrow> copied src base (insert f P) dest'"
    and "(\<exists>dest'. copyFields am src [f] dest = Inr dest') \<longleftrightarrow>
          f = ''spec.resourceID'' \<longrightarrow> (case src ''spec'' of Some (JObject _) \<Rightarrow> True | Some JNull \<Rightarrow> True
             | None \<Rightarrow> True | _ \<Rightarrow> False)"
proof -
  note nested = laws [unfolded nested_laws_def]
  consider "f = ''spec''" | "f = ''status''" | "f = ''spec.resourceID''"
    using f by (auto simp: syncFieldEnum_def)
  then have "(copyFields am src [f] dest = Inr dest' \<longrightarrow> copied src base (insert f P) dest') \<and>
      ((\<exists>dest'. copyFields am src [f] dest = Inr dest') \<longleftrightarrow>
        f = ''spec.resourceID'' \<longrightarrow> (case src ''spec'' of Some (JObject _) \<Rightarrow> True | Some JNull \<Rightarrow> True
             | None \<Rightarrow> True | _ \<Rightarrow> False))"
  proof cases
    case 1
    with nested inv show ?thesis
      by (cases "src ''spec''") (auto simp: Split_fields follow_field copied_upd)
  next
    case 2
    with nested inv show ?thesis
      by (cases "src ''status''") (auto simp: Split_fields follow_field copied_upd)
  next
    case 3
    have sel: "dest ''spec'' = selectedSpec src P" using inv by (simp add: copied_def)
    show ?thesis
    proof (cases "src ''spec''")
      case None
      with 3 nested inv show ?thesis
        by (auto simp: Split_fields copied_def selectedSpec_def selectedStatus_def)
    next
      case (Some v)
      show ?thesis
      proof (cases v)
        case (JObject m)
        show ?thesis
        proof (cases "m ''resourceID''")
          case None
          with 3 Some JObject nested inv show ?thesis
            by (auto simp: Split_fields copied_def selectedSpec_def selectedStatus_def)
        next
          case (Some r)
          have "store dest r [''spec'', ''resourceID''] = Inr (dest(''spec'' \<mapsto>
              (if ''spec'' \<in> P then JObject m else JObject [''resourceID'' \<mapsto> r])))"
            using sel Some JObject \<open>src ''spec'' = Some v\<close>
            by (auto simp: selectedSpec_def fun_upd_idem split: if_splits)
          with 3 Some JObject \<open>src ''spec'' = Some v\<close> nested inv show ?thesis
            by (auto simp: Split_fields copied_def selectedSpec_def selectedStatus_def)
        qed
      next
        case JNull
        with 3 Some nested inv show ?thesis
          by (auto simp: Split_fields copied_def selectedSpec_def selectedStatus_def)
      qed (use 3 Some nested in \<open>auto simp: Split_fields\<close>)
    qed
  qed
  then show "copyFields am src [f] dest = Inr dest' \<Longrightarrow> copied src base (insert f P) dest'"
    and "(\<exists>dest'. copyFields am src [f] dest = Inr dest') \<longleftrightarrow>
          f = ''spec.resourceID'' \<longrightarrow> (case src ''spec'' of Some (JObject _) \<Rightarrow> True | Some JNull \<Rightarrow> True
             | None \<Rightarrow> True | _ \<Rightarrow> False)"
    by blast+
qed

text \<open>The source object has a \<^verbatim>\<open>spec\<close> the field path \<^verbatim>\<open>spec.resourceID\<close> can be read from.\<close>

definition specReadable :: "jobject \<Rightarrow> bool" where
  "specReadable src \<longleftrightarrow> (case src ''spec'' of Some (JObject _) \<Rightarrow> True | Some JNull \<Rightarrow> True
     | None \<Rightarrow> True | _ \<Rightarrow> False)"

lemma copyFields_Cons:
  "copyFields am src (f # fs) dest =
     (case copyFields am src [f] dest of Inl e \<Rightarrow> Inl e | Inr d \<Rightarrow> copyFields am src fs d)"
  by (simp add: Let_def split: sum.split option.split)

lemma copyFields_copied:
  assumes "nested_laws am"
  shows "set flds \<subseteq> syncFieldEnum \<Longrightarrow> copied src base P dest \<Longrightarrow>
    copyFields am src flds dest = Inr dest' \<Longrightarrow> copied src base (P \<union> set flds) dest'"
proof (induction flds arbitrary: P dest)
  case (Cons f fs)
  from Cons.prems(3) obtain d where d: "copyFields am src [f] dest = Inr d"
    and rest: "copyFields am src fs d = Inr dest'"
    unfolding copyFields_Cons [of am src f fs] by (auto split: sum.splits)
  have "copied src base (insert f P) d"
    using copy_one_field(1) [OF assms _ Cons.prems(2) d] Cons.prems(1) by simp
  from Cons.IH [OF _ this rest] Cons.prems(1) show ?case by simp
qed simp

lemma copyFields_total:
  assumes "nested_laws am"
  shows "set flds \<subseteq> syncFieldEnum \<Longrightarrow> copied src base P dest \<Longrightarrow>
    (\<exists>dest'. copyFields am src flds dest = Inr dest') \<longleftrightarrow>
      (''spec.resourceID'' \<in> set flds \<longrightarrow> specReadable src)"
proof (induction flds arbitrary: P dest)
  case (Cons f fs)
  note one = copy_one_field [OF assms _ Cons.prems(2), of f, folded specReadable_def]
  from Cons.prems(1) have f: "f \<in> syncFieldEnum" by simp
  show ?case
  proof (cases "copyFields am src [f] dest")
    case (Inl e)
    with one(2) [OF f] show ?thesis
      unfolding copyFields_Cons [of am src f fs] by auto
  next
    case (Inr d)
    from one(2) [OF f] Inr have "f = ''spec.resourceID'' \<longrightarrow> specReadable src" by auto
    with Cons.IH [OF _ one(1) [OF f Inr]] Cons.prems(1) Inr show ?thesis
      unfolding copyFields_Cons [of am src f fs] by auto
  qed
qed simp

text \<open>The skeleton holds the identity and, in a full sync, the labels and annotations.\<close>

lemma skeleton_facts:
  assumes laws: "unstructured_laws am"
  shows "k \<noteq> ''metadata'' \<Longrightarrow> destSkeleton am src flds k = SetGVK am (GetGVK am src) Map.empty k"
    and "meta_ok (destSkeleton am src flds)"
    and "GetName am (destSkeleton am src flds) = GetName am src"
    and "GetNamespace am (destSkeleton am src flds) = GetNamespace am src"
    and "GetLabels am (destSkeleton am src flds) = (if isFullSync flds then GetLabels am src else None)"
    and "GetAnnotations am (destSkeleton am src flds)
           = (if isFullSync flds then GetAnnotations am src else None)"
  using laws getters_no_metadata [OF laws, of "SetGVK am (GetGVK am src) Map.empty"]
  by (simp_all add: destSkeleton_def Let_def)

text \<open>The object as it is sent: the skeleton plus the selected fields, with the server-managed
  metadata cleared.\<close>

lemma filterFields_copied:
  assumes "unstructured_laws am" and "set flds \<subseteq> syncFieldEnum" and "filterFields am src flds = Inr dest"
  shows "copied src (destSkeleton am src flds) (set flds) dest"
proof -
  have "copied src (destSkeleton am src flds) {} (destSkeleton am src flds)"
    using assms(1) by (simp add: copied_def skeleton_facts selectedStatus_def selectedSpec_def)
  from copyFields_copied [OF _ assms(2) this assms(3) [unfolded filterFields_def]] assms(1)
  show ?thesis by (simp add: unstructured_laws_def)
qed

lemma prepared_object:
  assumes laws: "unstructured_laws am" and enum: "set flds \<subseteq> syncFieldEnum"
    and plain: "gvk_plain (GetGVK am src)"
    and ok: "filterFields am src flds = Inr dest" and obj: "obj = prepareForDestination am dest"
  shows "GetGVK am obj = GetGVK am src \<and> objectKey am obj = objectKey am src \<and>
    obj ''status'' = selectedStatus src (set flds) \<and> obj ''spec'' = selectedSpec src (set flds) \<and>
    GetLabels am obj = (if ''spec'' \<in> set flds then GetLabels am src else None) \<and>
    GetAnnotations am obj = (if ''spec'' \<in> set flds then GetAnnotations am src else None) \<and>
    (\<forall>k. obj k \<noteq> None \<longrightarrow> k \<in> {''apiVersion'', ''kind'', ''metadata'', ''spec'', ''status''})"
proof -
  let ?sk = "destSkeleton am src flds"
  note sk = skeleton_facts [OF laws]
  have frame: "obj k = dest k" if "k \<noteq> ''metadata''" for k
    using laws that by (simp add: obj prepareForDestination_def)
  have cp: "copied src ?sk (set flds) dest" by (rule filterFields_copied [OF laws enum ok])
  then have md: "dest ''metadata'' = ?sk ''metadata''" by (simp add: copied_def)
  then have "meta_ok dest" using sk(2) by (simp add: meta_ok_def)
  with laws have get: "GetName am obj = GetName am dest" "GetNamespace am obj = GetNamespace am dest"
    "GetLabels am obj = GetLabels am dest" "GetAnnotations am obj = GetAnnotations am dest"
    by (simp_all add: obj prepareForDestination_def)
  have sel: "obj ''status'' = selectedStatus src (set flds)" "obj ''spec'' = selectedSpec src (set flds)"
    using cp frame by (simp_all add: copied_def)
  have md_get: "GetName am dest = GetName am ?sk" "GetNamespace am dest = GetNamespace am ?sk"
    "GetLabels am dest = GetLabels am ?sk" "GetAnnotations am dest = GetAnnotations am ?sk"
    by (rule getters_metadata [where m = dest and m' = ?sk, OF laws md])+
  have "GetGVK am obj = GetGVK am src"
    by (rule GetGVK_SetGVK [OF laws plain, of _ Map.empty]) (use cp frame sk in \<open>simp_all add: copied_def\<close>)
  moreover have "k \<in> {''apiVersion'', ''kind'', ''metadata'', ''spec'', ''status''}" if "obj k \<noteq> None" for k
  proof (rule ccontr)
    assume k: "k \<notin> {''apiVersion'', ''kind'', ''metadata'', ''spec'', ''status''}"
    then have "obj k = ?sk k" using frame cp by (auto simp: copied_def)
    with k that laws sk(1) [of k] show False by simp
  qed
  ultimately show ?thesis
    by (simp add: sel objectKey_def get md_get sk isFullSync_iff)
qed

text \<open>C8: What a rule sends to the destination. For admissible sync fields, the prepared object has the
  source's group-version-kind, name and namespace; its status and spec are exactly the selected
  ones; labels and annotations are the source's in a full sync and absent otherwise; and there
  is no other top-level field.\<close>

theorem filterFields_sends_exactly_the_selection:
  assumes "unstructured_laws am" and "set flds \<subseteq> syncFieldEnum"
    and "gvk_plain (GetGVK am src)"
    and "filterFields am src flds = Inr dest" and "obj = prepareForDestination am dest"
  shows "GetGVK am obj = GetGVK am src \<and> objectKey am obj = objectKey am src \<and>
    obj ''status'' = selectedStatus src (set flds) \<and> obj ''spec'' = selectedSpec src (set flds) \<and>
    GetLabels am obj = (if ''spec'' \<in> set flds then GetLabels am src else None) \<and>
    GetAnnotations am obj = (if ''spec'' \<in> set flds then GetAnnotations am src else None) \<and>
    (\<forall>k. obj k \<noteq> None \<longrightarrow> k \<in> {''apiVersion'', ''kind'', ''metadata'', ''spec'', ''status''})"
  by (rule prepared_object [OF assms])

lemma filterFields_total:
  assumes "unstructured_laws am" and "set flds \<subseteq> syncFieldEnum"
  shows "(\<exists>dest. filterFields am src flds = Inr dest) \<longleftrightarrow>
    (''spec.resourceID'' \<in> set flds \<longrightarrow> specReadable src)"
proof -
  have "copied src (destSkeleton am src flds) {} (destSkeleton am src flds)"
    using assms(1) by (simp add: copied_def skeleton_facts selectedStatus_def selectedSpec_def)
  from copyFields_total [OF _ assms(2) this] assms(1) show ?thesis
    unfolding filterFields_def by (simp add: unstructured_laws_def)
qed

text \<open>C9: Filtering fails only when the resource ID is selected and the source's \<^verbatim>\<open>spec\<close> is neither an
  object nor null; in every other case an object is produced.\<close>

theorem filterFields_succeeds_iff:
  assumes "unstructured_laws am" and "set flds \<subseteq> syncFieldEnum"
  shows "(\<exists>dest. filterFields am src flds = Inr dest) \<longleftrightarrow>
    (''spec.resourceID'' \<in> set flds \<longrightarrow> specReadable src)"
  by (rule filterFields_total [OF assms])

section \<open>Which calls are made on the destination\<close>

lemma apply_success:
  assumes "applyToDestination am cl obj w = (None, w')"
  shows "\<exists>w1 obj' w2. ensureNamespace am cl (GetNamespace am obj) w = (None, w1) \<and>
    cl_PatchApply cl patchOpts obj w1 = (Inr obj', w2) \<and>
    (case NestedFieldCopy am obj [''status''] of
       Inl _ \<Rightarrow> False
     | Inr None \<Rightarrow> w' = w2
     | Inr (Some st) \<Rightarrow>
         \<exists>r. cl_StatusPatchApply cl patchOpts (statusObject am obj' st) w2 = (Inr r, w'))"
proof -
  from assms obtain w1 where ns: "ensureNamespace am cl (GetNamespace am obj) w = (None, w1)"
    and patch: "patchObject am cl obj w1 = (None, w')"
    by (auto simp: applyToDestination_def split: prod.splits option.splits)
  from patch obtain obj' w2 where "cl_PatchApply cl patchOpts obj w1 = (Inr obj', w2)"
    by (auto simp: patchObject_def split: sum.splits prod.splits)
  with ns patch show ?thesis
    by (auto simp: patchObject_def split: sum.splits prod.splits option.splits)
qed

text \<open>If applying an object reports success, the destination namespace was there or created, the
  whole object was applied, and the status it had before the apply was applied to the status
  subresource of the object the server returned; nothing was done after that.\<close>

theorem apply_success_means_applied:
  assumes "applyToDestination am cl obj w = (None, w')"
  shows "\<exists>w1 obj' w2. ensureNamespace am cl (GetNamespace am obj) w = (None, w1) \<and>
    cl_PatchApply cl patchOpts obj w1 = (Inr obj', w2) \<and>
    (case NestedFieldCopy am obj [''status''] of
       Inl _ \<Rightarrow> False
     | Inr None \<Rightarrow> w' = w2
     | Inr (Some st) \<Rightarrow>
         \<exists>r. cl_StatusPatchApply cl patchOpts (statusObject am obj' st) w2 = (Inr r, w'))"
  by (rule apply_success [OF assms])

text \<open>Losing the race for creating the namespace changes nothing: whether the create call succeeds
  or answers that the namespace already exists, the object is applied in the same way.\<close>

theorem namespace_race_is_harmless:
  assumes "GetNamespace am obj \<noteq> []"
    and "cl_GetNamespace cl (GetNamespace am obj) w = (Some e, w1)" and "IsNotFound am e"
    and "cl_CreateNamespace cl (GetNamespace am obj) w1 = (r, w2)"
    and "case r of None \<Rightarrow> True | Some e' \<Rightarrow> IsAlreadyExists am e'"
  shows "applyToDestination am cl obj w = patchObject am cl obj w2"
  using assms
  by (auto simp: applyToDestination_def ensureNamespace_def split: option.splits)

text \<open>When the destination namespace can neither be read nor created, the object is not written:
  the world afterwards is the one the namespace calls left behind.\<close>

theorem no_write_without_namespace:
  assumes "ensureNamespace am cl (GetNamespace am obj) w = (Some e, w1)"
  shows "applyToDestination am cl obj w = (Some e, w1) \<and>
    (w1 = snd (cl_GetNamespace cl (GetNamespace am obj) w) \<or>
     w1 = snd (cl_CreateNamespace cl (GetNamespace am obj)
                (snd (cl_GetNamespace cl (GetNamespace am obj) w))))"
  using assms
  by (auto simp: applyToDestination_def ensureNamespace_def split: prod.splits option.splits if_splits)

end
