(* ===== verification/Rules.thy ===== *)
theory Rules
  imports Machinery GoStd
begin

text \<open>
  The rule language of a KRMSyncer: which rules are accepted (\<^verbatim>\<open>validateRule\<close>), which
  group-version-kinds a rule stands for given the discovery result (\<^verbatim>\<open>expandRule\<close>), and which
  watched kinds a rule applies to (\<^verbatim>\<open>ruleMatchesGVK\<close>). The first two belong to
  \<^verbatim>\<open>KRMSyncerReconciler\<close>, the third to \<^verbatim>\<open>DynamicResourceReconciler\<close>; that they agree is what makes a
  started watch useful.
\<close>

section \<open>krmsyncer_controller.go: rules\<close>

definition kccSuffix :: string where
  "kccSuffix = ''cnrm.cloud.google.com''"

definition kccWildcard :: string where
  "kccWildcard = ''*.cnrm.cloud.google.com''"

text \<open>The condition on the group that \<^verbatim>\<open>validateRule\<close>, \<^verbatim>\<open>expandRule\<close> and \<^verbatim>\<open>ruleMatchesGVK\<close> share.\<close>

definition isKCCGroup :: "string \<Rightarrow> bool" where
  "isKCCGroup grp \<longleftrightarrow> grp = kccWildcard \<or> strings_HasSuffix grp (''.'' @ kccSuffix)
     \<or> grp = kccSuffix"

definition isKCCGlob :: "ResourceRule \<Rightarrow> bool" where
  "isKCCGlob rule \<longleftrightarrow> isKCCGroup (rule_Group rule) \<and> rule_Version rule = ''*'' \<and> rule_Kind rule = ''*''"

definition hasGlob :: "ResourceRule \<Rightarrow> bool" where
  "hasGlob rule \<longleftrightarrow> strings_Contains (rule_Group rule) ''*'' \<or> strings_Contains (rule_Version rule) ''*''
     \<or> strings_Contains (rule_Kind rule) ''*''"

definition globError :: goerror where
  "globError = ErrorString (''globbing ('' @ [CHR 0x27] @ ''*'' @ [CHR 0x27]
     @ '') is only allowed for version and kind if group is KCC (e.g. *.cnrm.cloud.google.com)'')"

definition validateRule :: "ResourceRule \<Rightarrow> goerror option" where
  "validateRule rule =
     (if hasGlob rule then
        (if \<not> isKCCGroup (rule_Group rule) \<or> rule_Version rule \<noteq> ''*'' \<or> rule_Kind rule \<noteq> ''*''
         then Some globError else None)
      else None)"

definition groupMatch :: "ResourceRule \<Rightarrow> string \<Rightarrow> bool" where
  "groupMatch rule grp \<longleftrightarrow>
     (if rule_Group rule = kccWildcard then strings_HasSuffix grp kccSuffix
      else grp = rule_Group rule)"

text \<open>One iteration of the loop over the discovered resource lists.\<close>

definition expandList :: "apimachinery \<Rightarrow> ResourceRule \<Rightarrow> APIResourceList \<Rightarrow> GroupVersionKind list" where
  "expandList am rule rl =
     (case ParseGroupVersion am (rl_GroupVersion rl) of
        Inl _ \<Rightarrow> []
      | Inr (grp, version) \<Rightarrow>
          if \<not> groupMatch rule grp then []
          else map (\<lambda>res. \<lparr>gvk_Group = grp, gvk_Version = version, gvk_Kind = res_Kind res\<rparr>)
                 (filter (\<lambda>res. \<not> strings_Contains (res_Name res) ''/'') (rl_APIResources rl)))"

definition expandRule ::
  "apimachinery \<Rightarrow> ResourceRule \<Rightarrow> APIResourceList list \<Rightarrow> GroupVersionKind list result" where
  "expandRule am rule resourceLists =
     (case validateRule rule of
        Some e \<Rightarrow> Inl e
      | None \<Rightarrow>
          if isKCCGlob rule then Inr (concat (map (expandList am rule) resourceLists))
          else Inr [\<lparr>gvk_Group = rule_Group rule, gvk_Version = rule_Version rule,
                     gvk_Kind = rule_Kind rule\<rparr>])"

definition ruleMatchesGVK :: "ResourceRule \<Rightarrow> GroupVersionKind \<Rightarrow> bool" where
  "ruleMatchesGVK rule gvk =
     (if isKCCGlob rule then
        (if rule_Group rule = kccWildcard then strings_HasSuffix (gvk_Group gvk) kccSuffix
         else gvk_Group gvk = rule_Group rule)
      else rule_Group rule = gvk_Group gvk \<and> rule_Version rule = gvk_Version gvk
        \<and> rule_Kind rule = gvk_Kind gvk)"

section \<open>What rules mean\<close>

text \<open>The kinds a discovery result serves: the top-level resources of the lists whose group and
  version parse.\<close>

definition servesKind :: "apimachinery \<Rightarrow> GroupVersionKind \<Rightarrow> APIResourceList \<Rightarrow> bool" where
  "servesKind am gvk rl \<longleftrightarrow>
     ParseGroupVersion am (rl_GroupVersion rl) = Inr (gvk_Group gvk, gvk_Version gvk) \<and>
     list_ex (\<lambda>res. CHR ''/'' \<notin> set (res_Name res) \<and> res_Kind res = gvk_Kind gvk)
       (rl_APIResources rl)"

definition servedBy :: "apimachinery \<Rightarrow> APIResourceList list \<Rightarrow> GroupVersionKind \<Rightarrow> bool" where
  "servedBy am rls gvk \<longleftrightarrow> list_ex (servesKind am gvk) rls"

lemma star_in: "hasGlob rule \<longleftrightarrow>
    CHR ''*'' \<in> set (rule_Group rule) \<union> set (rule_Version rule) \<union> set (rule_Kind rule)"
  by (auto simp: hasGlob_def str_simps)

lemma isKCCGlob_hasGlob: "isKCCGlob rule \<Longrightarrow> hasGlob rule"
  by (simp add: isKCCGlob_def star_in)

lemma validateRule_None_iff: "validateRule rule = None \<longleftrightarrow> \<not> hasGlob rule \<or> isKCCGlob rule"
  by (simp add: validateRule_def isKCCGlob_def)

lemma set_expandList:
  "gvk \<in> set (expandList am rule rl) \<longleftrightarrow> servesKind am gvk rl \<and> groupMatch rule (gvk_Group gvk)"
proof (cases "ParseGroupVersion am (rl_GroupVersion rl)")
  case (Inl e)
  then show ?thesis by (simp add: expandList_def servesKind_def)
next
  case (Inr gv)
  then show ?thesis
    by (cases gvk; cases gv)
      (auto simp: expandList_def servesKind_def str_simps list_ex_iff image_iff)
qed

lemma set_expandRule_glob:
  assumes "isKCCGlob rule" and "expandRule am rule rls = Inr gvks"
  shows "gvk \<in> set gvks \<longleftrightarrow> servedBy am rls gvk \<and> groupMatch rule (gvk_Group gvk)"
  using assms
  by (auto simp: expandRule_def set_expandList servedBy_def list_ex_iff split: option.splits)

text \<open>A rule is accepted exactly if it names one kind literally or is the glob over all versions
  and kinds of a Config Connector group.\<close>

theorem expandRule_accepts_iff:
  "(\<exists>gvks. expandRule am rule rls = Inr gvks) \<longleftrightarrow>
     CHR ''*'' \<notin> set (rule_Group rule) \<union> set (rule_Version rule) \<union> set (rule_Kind rule) \<or>
     rule_Version rule = ''*'' \<and> rule_Kind rule = ''*'' \<and>
       (rule_Group rule = ''*.cnrm.cloud.google.com'' \<or> rule_Group rule = ''cnrm.cloud.google.com'' \<or>
        (\<exists>pre. rule_Group rule = pre @ ''.cnrm.cloud.google.com''))"
proof -
  have valid: "(\<exists>gvks. expandRule am rule rls = Inr gvks) \<longleftrightarrow> \<not> hasGlob rule \<or> isKCCGlob rule"
    unfolding validateRule_None_iff [symmetric] by (simp add: expandRule_def split: option.splits)
  have kcc: "isKCCGroup g \<longleftrightarrow> g = ''*.cnrm.cloud.google.com'' \<or> g = ''cnrm.cloud.google.com'' \<or>
      (\<exists>pre. g = pre @ ''.cnrm.cloud.google.com'')" for g
    unfolding isKCCGroup_def HasSuffix_iff kccWildcard_def kccSuffix_def append.simps by blast
  show ?thesis
    unfolding valid star_in isKCCGlob_def kcc by blast
qed

lemma expandRule_kinds:
  assumes "expandRule am rule rls = Inr gvks"
  shows "set gvks = (if isKCCGlob rule then {gvk. servedBy am rls gvk \<and> ruleMatchesGVK rule gvk}
                     else {gvk. ruleMatchesGVK rule gvk})"
proof (cases "isKCCGlob rule")
  case True
  then show ?thesis
    by (simp add: set_eq_iff set_expandRule_glob [OF True assms] ruleMatchesGVK_def groupMatch_def)
next
  case False
  then show ?thesis
    using assms by (auto simp: expandRule_def ruleMatchesGVK_def split: option.splits)
qed


text \<open>A glob rule whose group has a star anywhere but in the leading wildcard is accepted but
  stands for no kind at all, as no served group has a star in its name: the rule is silently
  ignored rather than reported as invalid.\<close>

theorem inner_glob_watches_nothing:
  assumes "isKCCGlob rule" and "rule_Group rule \<noteq> kccWildcard"
    and "CHR ''*'' \<in> set (rule_Group rule)"
    and "\<forall>gvk. servedBy am rls gvk \<longrightarrow> CHR ''*'' \<notin> set (gvk_Group gvk)"
  shows "expandRule am rule rls = Inr []"
proof -
  from assms(1) obtain gvks where gvks: "expandRule am rule rls = Inr gvks"
    by (auto simp: expandRule_def validateRule_None_iff split: option.splits)
  have "gvk \<notin> set gvks" for gvk
    unfolding set_expandRule_glob [OF assms(1) gvks] groupMatch_def using assms(2-4) by auto
  then have "gvks = []" by (cases gvks) auto
  with gvks show ?thesis by simp
qed

text \<open>The leading wildcard also applies to groups that only end in the same letters, without the
  dot before \<^verbatim>\<open>cnrm\<close>.\<close>

theorem wildcard_ignores_the_dot:
  "ruleMatchesGVK \<lparr>rule_Group = ''*.cnrm.cloud.google.com'', rule_Version = ''*'', rule_Kind = ''*'',
      rule_Namespaces = ns, rule_SyncFields = sf\<rparr>
    \<lparr>gvk_Group = pre @ ''cnrm.cloud.google.com'', gvk_Version = v, gvk_Kind = k\<rparr>"
  by (simp add: ruleMatchesGVK_def isKCCGlob_def isKCCGroup_def kccWildcard_def kccSuffix_def str_simps)

end
