(* ===== verification/FailureTracker.thy ===== *)
theory FailureTracker
  imports ApiTypes
begin

text \<open>
  \<^verbatim>\<open>syncer/controllers/metrics.go\<close>: the gauges and the \<^verbatim>\<open>failureTracker\<close> that keeps a gauge equal
  to the number of objects whose latest attempt failed. Gauges are shared: every tracker of a
  GVK increments and decrements the same Prometheus gauge, so the model keeps them in a store
  of their own. (A gauge is a float64; the model's \<open>int\<close> is exact below 2 to the 53.) A mutex
  makes each method atomic, so interleavings are sequences of whole calls.

  The interface locale \<open>failure_set\<close> states what the reconcilers rely on; it is interpreted on
  the tracker below.
\<close>

section \<open>The tracker\<close>

datatype gauge =
    FailedObjects string string string
  | SetupFailed

type_synonym gauges = "gauge \<Rightarrow> int"

definition gauge_Inc :: "gauge \<Rightarrow> gauges \<Rightarrow> gauges" where
  "gauge_Inc g gs = gs(g := gs g + 1)"

definition gauge_Dec :: "gauge \<Rightarrow> gauges \<Rightarrow> gauges" where
  "gauge_Dec g gs = gs(g := gs g - 1)"

definition failedObjectsGauge :: "GroupVersionKind \<Rightarrow> gauge" where
  "failedObjectsGauge gvk = FailedObjects (gvk_Group gvk) (gvk_Version gvk) (gvk_Kind gvk)"

record failureTracker =
  ft_gauge :: gauge
  ft_failed :: "NamespacedName set"

definition newFailureTracker :: "gauge \<Rightarrow> failureTracker" where
  "newFailureTracker g = \<lparr>ft_gauge = g, ft_failed = {}\<rparr>"

text \<open>A nil tracker (\<open>None\<close>) ignores all updates.\<close>

definition markFailed ::
  "failureTracker option \<Rightarrow> NamespacedName \<Rightarrow> gauges \<Rightarrow> failureTracker option \<times> gauges" where
  "markFailed t key gs =
     (case t of
        None \<Rightarrow> (None, gs)
      | Some ft \<Rightarrow>
          if key \<notin> ft_failed ft
          then (Some (ft\<lparr>ft_failed := insert key (ft_failed ft)\<rparr>), gauge_Inc (ft_gauge ft) gs)
          else (Some ft, gs))"

definition markSucceeded ::
  "failureTracker option \<Rightarrow> NamespacedName \<Rightarrow> gauges \<Rightarrow> failureTracker option \<times> gauges" where
  "markSucceeded t key gs =
     (case t of
        None \<Rightarrow> (None, gs)
      | Some ft \<Rightarrow>
          if key \<in> ft_failed ft
          then (Some (ft\<lparr>ft_failed := ft_failed ft - {key}\<rparr>), gauge_Dec (ft_gauge ft) gs)
          else (Some ft, gs))"

text \<open>The failing objects a tracker reports; none for a nil tracker.\<close>

definition failing :: "failureTracker option \<Rightarrow> NamespacedName set" where
  "failing t = (case t of None \<Rightarrow> {} | Some ft \<Rightarrow> ft_failed ft)"

lemma failing_markFailed:
  "failing (fst (markFailed (Some ft) key gs)) = insert key (ft_failed ft)"
  by (auto simp: failing_def markFailed_def)

lemma failing_markSucceeded:
  "failing (fst (markSucceeded t key gs)) = failing t - {key}"
  by (auto simp: failing_def markSucceeded_def split: option.split)

lemma mark_nil [simp]:
  "markFailed None key gs = (None, gs)" "markSucceeded None key gs = (None, gs)"
  by (simp_all add: markFailed_def markSucceeded_def)

lemma markFailed_Some:
  "markFailed (Some ft) key gs =
     (Some (ft\<lparr>ft_failed := insert key (ft_failed ft)\<rparr>),
      if key \<in> ft_failed ft then gs else gauge_Inc (ft_gauge ft) gs)"
  by (auto simp: markFailed_def insert_absorb)

lemma markSucceeded_Some:
  "markSucceeded (Some ft) key gs =
     (Some (ft\<lparr>ft_failed := ft_failed ft - {key}\<rparr>),
      if key \<in> ft_failed ft then gauge_Dec (ft_gauge ft) gs else gs)"
  by (auto simp: markSucceeded_def)

section \<open>The contract of a failure tracker\<close>

locale failure_set =
  fixes failed :: "'k \<Rightarrow> 's \<Rightarrow> 's"
    and succeeded :: "'k \<Rightarrow> 's \<Rightarrow> 's"
    and fails :: "'s \<Rightarrow> 'k set"
    and level :: "'s \<Rightarrow> int"
  assumes fails_failed: "fails (failed k s) = insert k (fails s)"
    and fails_succeeded: "fails (succeeded k s) = fails s - {k}"
    and level_failed: "level (failed k s) = level s + (if k \<in> fails s then 0 else 1)"
    and level_succeeded: "level (succeeded k s) = level s - (if k \<in> fails s then 1 else 0)"
begin

text \<open>An attempt is a key and whether it failed.\<close>

definition attempt :: "'k \<times> bool \<Rightarrow> 's \<Rightarrow> 's" where
  "attempt a s = (if snd a then failed (fst a) s else succeeded (fst a) s)"

lemma fails_attempt: "fails (attempt (k, b) s) = (if b then insert k (fails s) else fails s - {k})"
  by (simp add: attempt_def fails_failed fails_succeeded)

text \<open>After any sequence of attempts a key fails exactly if its latest attempt failed, and a key
  that was not attempted is as it was.\<close>

lemma fails_run:
  "k \<in> fails (fold attempt as s) \<longleftrightarrow>
     (case map_of (rev as) k of None \<Rightarrow> k \<in> fails s | Some b \<Rightarrow> b)"
proof (induction as arbitrary: s rule: rev_induct)
  case (snoc a as)
  then show ?case by (cases a) (auto simp: fails_attempt)
qed simp

lemma finite_run: "finite (fails s) \<Longrightarrow> finite (fails (fold attempt as s))"
proof (induction as arbitrary: s)
  case (Cons a as)
  then show ?case by (cases a) (simp add: fails_attempt)
qed simp

text \<open>The level follows the number of failing keys.\<close>

lemma level_attempt:
  assumes "finite (fails s)"
  shows "level (attempt a s) - int (card (fails (attempt a s))) = level s - int (card (fails s))"
proof (cases "fst a \<in> fails s")
  case True
  then have "0 < card (fails s)"
    using assms by (auto simp: card_gt_0_iff)
  with True assms show ?thesis
    by (cases a) (auto simp: attempt_def fails_failed fails_succeeded level_failed level_succeeded
        insert_absorb card_Diff_singleton)
next
  case False
  with assms show ?thesis
    by (cases a) (auto simp: attempt_def fails_failed fails_succeeded level_failed level_succeeded)
qed

lemma level_run:
  "finite (fails s) \<Longrightarrow>
     level (fold attempt as s) - int (card (fails (fold attempt as s)))
       = level s - int (card (fails s))"
proof (induction as arbitrary: s)
  case (Cons a as)
  then have "finite (fails (attempt a s))"
    using finite_run [of s "[a]"] by simp
  with Cons show ?case by (simp add: level_attempt)
qed simp

end

text \<open>The tracker with the store of gauges implements the contract.\<close>

type_synonym tracked = "failureTracker \<times> gauges"

definition tracked_failed :: "NamespacedName \<Rightarrow> tracked \<Rightarrow> tracked" where
  "tracked_failed key s = (case markFailed (Some (fst s)) key (snd s) of
     (t, gs) \<Rightarrow> (the t, gs))"

definition tracked_succeeded :: "NamespacedName \<Rightarrow> tracked \<Rightarrow> tracked" where
  "tracked_succeeded key s = (case markSucceeded (Some (fst s)) key (snd s) of
     (t, gs) \<Rightarrow> (the t, gs))"

interpretation ft: failure_set tracked_failed tracked_succeeded "\<lambda>s. ft_failed (fst s)"
  "\<lambda>s. snd s (ft_gauge (fst s))"
  by unfold_locales
    (auto simp: tracked_failed_def tracked_succeeded_def markFailed_Some markSucceeded_Some
      gauge_Inc_def gauge_Dec_def)

lemma tracked_gauge:
  "ft_gauge (fst (tracked_failed key s)) = ft_gauge (fst s)"
  "ft_gauge (fst (tracked_succeeded key s)) = ft_gauge (fst s)"
  by (simp_all add: tracked_failed_def tracked_succeeded_def markFailed_Some markSucceeded_Some)

text \<open>A sequence of attempts on one tracker, as the reconcilers report them.\<close>

fun run_attempts :: "(NamespacedName \<times> bool) list \<Rightarrow> tracked \<Rightarrow> tracked" where
  "run_attempts [] s = s"
| "run_attempts ((key, isFailure) # as) s =
     run_attempts as (if isFailure then tracked_failed key s else tracked_succeeded key s)"

lemma run_attempts_fold: "run_attempts as s = fold ft.attempt as s"
  by (induction as s rule: run_attempts.induct) (auto simp: ft.attempt_def)

lemma run_attempts_gauge: "ft_gauge (fst (run_attempts as s)) = ft_gauge (fst s)"
  by (induction as s rule: run_attempts.induct) (auto simp: tracked_gauge)

text \<open>A tracker that starts empty holds, after any sequence of reported attempts, exactly the
  objects whose latest attempt failed, and its gauge has grown by exactly their number, however
  often an object failed in between.\<close>

theorem tracker_counts_failing:
  "ft_failed (fst (run_attempts as (newFailureTracker g, gs)))
     = {key. map_of (rev as) key = Some True} \<and>
   snd (run_attempts as (newFailureTracker g, gs)) g
     = gs g + int (card {key. map_of (rev as) key = Some True})"
proof -
  let ?s = "(newFailureTracker g, gs)"
  let ?t = "run_attempts as ?s"
  have new: "ft_failed (fst ?s) = {}" "ft_gauge (fst ?s) = g"
    by (simp_all add: newFailureTracker_def)
  have set: "ft_failed (fst ?t) = {key. map_of (rev as) key = Some True}"
    using new(1) by (auto simp: run_attempts_fold ft.fails_run split: option.splits)
  have "snd ?t (ft_gauge (fst ?t)) - int (card (ft_failed (fst ?t)))
      = snd ?s (ft_gauge (fst ?s)) - int (card (ft_failed (fst ?s)))"
    unfolding run_attempts_fold by (rule ft.level_run) (simp add: newFailureTracker_def)
  with set new show ?thesis
    by (simp add: run_attempts_gauge)
qed

section \<open>All trackers of the process\<close>

text \<open>
  The process holds one tracker per watcher and one for the KRMSyncers. Trackers are created as
  watches start; a new tracker does not reset the gauge it shares with the others. A step is a
  creation or one atomic method call on some tracker.
\<close>

record metrics_sys =
  ms_trackers :: "nat \<Rightarrow> failureTracker option"
  ms_gauges :: gauges

definition metrics_init :: metrics_sys where
  "metrics_init = \<lparr>ms_trackers = Map.empty, ms_gauges = (\<lambda>_. 0)\<rparr>"

inductive metrics_step :: "metrics_sys \<Rightarrow> metrics_sys \<Rightarrow> bool" where
  create: "ms_trackers s i = None \<Longrightarrow>
     metrics_step s (s\<lparr>ms_trackers := (ms_trackers s)(i \<mapsto> newFailureTracker g)\<rparr>)"
| fail: "ms_trackers s i = Some ft \<Longrightarrow> markFailed (Some ft) key (ms_gauges s) = (t, gs) \<Longrightarrow>
     metrics_step s (s\<lparr>ms_trackers := (ms_trackers s)(i := t), ms_gauges := gs\<rparr>)"
| succeed: "ms_trackers s i = Some ft \<Longrightarrow> markSucceeded (Some ft) key (ms_gauges s) = (t, gs) \<Longrightarrow>
     metrics_step s (s\<lparr>ms_trackers := (ms_trackers s)(i := t), ms_gauges := gs\<rparr>)"

inductive metrics_reachable :: "metrics_sys \<Rightarrow> bool" where
  start: "metrics_reachable metrics_init"
| step: "metrics_reachable s \<Longrightarrow> metrics_step s t \<Longrightarrow> metrics_reachable t"

definition share :: "gauge \<Rightarrow> failureTracker option \<Rightarrow> int" where
  "share g t = (case t of None \<Rightarrow> 0
     | Some ft \<Rightarrow> if ft_gauge ft = g then int (card (ft_failed ft)) else 0)"

definition metrics_inv :: "metrics_sys \<Rightarrow> bool" where
  "metrics_inv s \<longleftrightarrow> finite (dom (ms_trackers s)) \<and>
     (\<forall>i ft. ms_trackers s i = Some ft \<longrightarrow> finite (ft_failed ft)) \<and>
     (\<forall>g. ms_gauges s g = (\<Sum>i \<in> dom (ms_trackers s). share g (ms_trackers s i)))"

lemma sum_share_update:
  assumes fin: "finite (dom m)" and i: "m i = Some ft"
  shows "(\<Sum>j \<in> dom (m(i \<mapsto> ft')). share g ((m(i \<mapsto> ft')) j))
      = (\<Sum>j \<in> dom m. share g (m j)) - share g (Some ft) + share g (Some ft')"
proof -
  from i have mem: "i \<in> dom m" and dom: "dom (m(i \<mapsto> ft')) = dom m" by auto
  have rest: "(\<Sum>j \<in> dom m - {i}. share g ((m(i \<mapsto> ft')) j)) = (\<Sum>j \<in> dom m - {i}. share g (m j))"
    by (rule sum.cong) auto
  have "(\<Sum>j \<in> dom m. share g ((m(i \<mapsto> ft')) j))
      = share g (Some ft') + (\<Sum>j \<in> dom m - {i}. share g (m j))"
    unfolding sum.remove [OF fin mem] rest by simp
  moreover have "(\<Sum>j \<in> dom m. share g (m j))
      = share g (Some ft) + (\<Sum>j \<in> dom m - {i}. share g (m j))"
    unfolding sum.remove [OF fin mem] using i by simp
  ultimately show ?thesis unfolding dom by simp
qed

lemma share_markFailed:
  assumes "finite (ft_failed ft)" and "markFailed (Some ft) key gs = (Some ft', gs')"
  shows "gs' g - share g (Some ft') = gs g - share g (Some ft)" and "finite (ft_failed ft')"
proof -
  from assms(2) have ft': "ft' = ft\<lparr>ft_failed := insert key (ft_failed ft)\<rparr>"
    and gs': "gs' = (if key \<in> ft_failed ft then gs else gauge_Inc (ft_gauge ft) gs)"
    by (auto simp: markFailed_Some)
  show "gs' g - share g (Some ft') = gs g - share g (Some ft)"
    using assms(1) unfolding ft' gs' share_def gauge_Inc_def
    by (cases "key \<in> ft_failed ft") (simp_all add: insert_absorb)
  show "finite (ft_failed ft')" using assms(1) unfolding ft' by simp
qed

lemma share_markSucceeded:
  assumes "finite (ft_failed ft)" and "markSucceeded (Some ft) key gs = (Some ft', gs')"
  shows "gs' g - share g (Some ft') = gs g - share g (Some ft)" and "finite (ft_failed ft')"
proof -
  from assms(2) have ft': "ft' = ft\<lparr>ft_failed := ft_failed ft - {key}\<rparr>"
    and gs': "gs' = (if key \<in> ft_failed ft then gauge_Dec (ft_gauge ft) gs else gs)"
    by (auto simp: markSucceeded_Some)
  have "int (card (ft_failed ft - {key})) = int (card (ft_failed ft)) - 1" if "key \<in> ft_failed ft"
    using card_Suc_Diff1 [OF assms(1) that] by simp
  then show "gs' g - share g (Some ft') = gs g - share g (Some ft)"
    unfolding ft' gs' share_def gauge_Dec_def
    by (cases "key \<in> ft_failed ft") simp_all
  show "finite (ft_failed ft')" using assms(1) unfolding ft' by simp
qed

lemma metrics_inv_update:
  assumes inv: "metrics_inv s" and i: "ms_trackers s i = Some ft"
    and fin: "finite (ft_failed ft')"
    and sh: "\<And>g. gs g - share g (Some ft') = ms_gauges s g - share g (Some ft)"
  shows "metrics_inv (s\<lparr>ms_trackers := (ms_trackers s)(i \<mapsto> ft'), ms_gauges := gs\<rparr>)"
proof -
  from inv have dom: "finite (dom (ms_trackers s))"
    and sum: "\<And>g. ms_gauges s g = (\<Sum>j \<in> dom (ms_trackers s). share g (ms_trackers s j))"
    by (auto simp: metrics_inv_def)
  have "gs g = (\<Sum>j \<in> dom ((ms_trackers s)(i \<mapsto> ft')). share g (((ms_trackers s)(i \<mapsto> ft')) j))" for g
    unfolding sum_share_update [OF dom i] using sh [of g] sum [of g] by simp
  with inv fin show ?thesis
    by (simp add: metrics_inv_def)
qed

lemma metrics_step_inv: "metrics_step s t \<Longrightarrow> metrics_inv s \<Longrightarrow> metrics_inv t"
proof (induction rule: metrics_step.induct)
  case (create s i g)
  have "dom ((ms_trackers s)(i \<mapsto> newFailureTracker g)) = insert i (dom (ms_trackers s))" by auto
  moreover have "i \<notin> dom (ms_trackers s)" using create by auto
  moreover have "share g' (Some (newFailureTracker g)) = 0" for g'
    by (simp add: share_def newFailureTracker_def)
  ultimately show ?case using create
    by (auto simp: metrics_inv_def newFailureTracker_def intro!: sum.cong)
next
  case (fail s i ft key t gs)
  then obtain ft' where t: "t = Some ft'" by (auto simp: markFailed_Some)
  have fin: "finite (ft_failed ft)" using fail by (auto simp: metrics_inv_def)
  from share_markFailed [OF fin] fail t show ?case
    by (auto intro!: metrics_inv_update)
next
  case (succeed s i ft key t gs)
  then obtain ft' where t: "t = Some ft'" by (auto simp: markSucceeded_Some)
  have fin: "finite (ft_failed ft)" using succeed by (auto simp: metrics_inv_def)
  from share_markSucceeded [OF fin] succeed t show ?case
    by (auto intro!: metrics_inv_update)
qed

text \<open>C33: In every state the process can reach, each gauge equals the number of failing objects
  summed over all trackers that share it: trackers never disturb each other's count.\<close>

theorem gauges_equal_failing_objects:
  assumes "metrics_reachable s"
  shows "ms_gauges s g = (\<Sum>i \<in> dom (ms_trackers s). share g (ms_trackers s i))"
proof -
  from assms have "metrics_inv s"
  proof (induction rule: metrics_reachable.induct)
    case start
    show ?case by (simp add: metrics_inv_def metrics_init_def)
  next
    case (step s t)
    then show ?case by (blast intro: metrics_step_inv)
  qed
  then show ?thesis by (simp add: metrics_inv_def)
qed

definition metrics_example :: metrics_sys where
  "metrics_example =
     \<lparr>ms_trackers = [0 \<mapsto> \<lparr>ft_gauge = SetupFailed,
         ft_failed = {\<lparr>nn_Namespace = ''default'', nn_Name = ''sync''\<rparr>}\<rparr>],
      ms_gauges = (\<lambda>_. 0)(SetupFailed := 1)\<rparr>"

lemma metrics_example_reachable: "metrics_reachable metrics_example"
proof -
  let ?s1 = "metrics_init\<lparr>ms_trackers := (ms_trackers metrics_init)(0 \<mapsto> newFailureTracker SetupFailed)\<rparr>"
  have "metrics_reachable ?s1"
    by (rule metrics_reachable.step [OF metrics_reachable.start])
      (rule metrics_step.create, simp add: metrics_init_def)
  moreover have "metrics_step ?s1 metrics_example"
    using metrics_step.fail [of ?s1 0 "newFailureTracker SetupFailed"
        "\<lparr>nn_Namespace = ''default'', nn_Name = ''sync''\<rparr>"]
    by (simp add: metrics_init_def newFailureTracker_def markFailed_Some gauge_Inc_def
        metrics_example_def)
  ultimately show ?thesis by (rule metrics_reachable.step)
qed

theorem gauges_equal_failing_objects_witness:
  "metrics_reachable metrics_example \<and> ms_gauges metrics_example SetupFailed = 1 \<and>
   ms_gauges metrics_example SetupFailed
     = (\<Sum>i \<in> dom (ms_trackers metrics_example). share SetupFailed (ms_trackers metrics_example i))"
  using metrics_example_reachable
    gauges_equal_failing_objects [OF metrics_example_reachable, of SetupFailed]
  by (simp add: metrics_example_def)

end
