(* ===== verification/DynamicReconcile.thy ===== *)
theory DynamicReconcile
  imports DynamicSync RemoteClients Rules FailureTracker
begin

text \<open>
  \<^verbatim>\<open>DynamicResourceReconciler.Reconcile\<close> of \<^verbatim>\<open>syncer/controllers/krmsyncer_controller.go\<close>: one event for one
  object. The object is read from the source, the KRMSyncers are listed, and every rule of every
  KRMSyncer that applies is carried out on its destination, each failure being collected. The
  body of the inner loop is one definition per outcome, \<open>syncRule\<close> composes them, and the two
  loops are folds.
\<close>

section \<open>The reconciler\<close>

record RemoteGVK =
  rg_Cluster :: string
  rg_GVK :: GroupVersionKind

text \<open>The pointer fields \<^verbatim>\<open>remoteClients\<close> and \<^verbatim>\<open>failures\<close> refer to objects shared with other code; they are
  in the state \<open>sync_state\<close> that \<^verbatim>\<open>Reconcile\<close> works on, with \<open>None\<close> for nil.\<close>

record ('w, 't) DynamicResourceReconciler =
  dr_LocalClient :: "'w client"
  dr_RemoteClient :: "'w client"
  dr_RemoteConfigProvider :: "('w, 't) RemoteConfigProvider"
  dr_GVK :: GroupVersionKind
  dr_Mode :: Mode
  dr_Remote :: RemoteGVK

record ('w, 't) sync_state =
  ss_remoteClients :: "('w, 't) remoteClientCache option"
  ss_failures :: "failureTracker option"
  ss_gauges :: gauges
  ss_world :: 'w

text \<open>What the loops change: the collected errors, the client cache and the world.\<close>

type_synonym ('w, 't) loop_state = "goerror list \<times> ('w, 't) remoteClientCache option \<times> 'w"

definition getRemoteClient ::
  "('t rest_config \<Rightarrow> ('w, 'w client result) io) \<Rightarrow> ('w, 't) DynamicResourceReconciler \<Rightarrow> KRMSyncer \<Rightarrow>
     ('w, 't) remoteClientCache option \<times> 'w \<Rightarrow>
     'w client result \<times> ('w, 't) remoteClientCache option \<times> 'w" where
  "getRemoteClient newClient r krmsyncer = (\<lambda>(cache, w).
     (case cache of
        Some c \<Rightarrow>
          (case remoteClientCache_get newClient (ks_Namespace krmsyncer) (spec_Remote (ks_Spec krmsyncer)) (c, w) of
             (res, c', w') \<Rightarrow> (res, Some c', w'))
      | None \<Rightarrow>
          (case rp_RESTConfig (dr_RemoteConfigProvider r) (ks_Namespace krmsyncer)
                  (spec_Remote (ks_Spec krmsyncer)) w of
             (Inl e, w1) \<Rightarrow> (Inl e, None, w1)
           | (Inr cfg, w1) \<Rightarrow>
               (case newClient cfg w1 of (res, w2) \<Rightarrow> (res, None, w2)))))"

section \<open>Which KRMSyncers and rules apply\<close>

definition syncerMode :: "KRMSyncer \<Rightarrow> Mode" where
  "syncerMode krmsyncer =
     (if spec_Mode (ks_Spec krmsyncer) = [] then ModePull else spec_Mode (ks_Spec krmsyncer))"

definition syncerApplies :: "('w, 't) DynamicResourceReconciler \<Rightarrow> KRMSyncer \<Rightarrow> bool" where
  "syncerApplies r krmsyncer \<longleftrightarrow>
     \<not> spec_Suspend (ks_Spec krmsyncer) \<and> syncerMode krmsyncer = dr_Mode r \<and>
     (dr_Mode r = ModePull \<longrightarrow>
        (case rp_Key (dr_RemoteConfigProvider r) (ks_Namespace krmsyncer) (spec_Remote (ks_Spec krmsyncer)) of
           Inl _ \<Rightarrow> False
         | Inr connKey \<Rightarrow> connKey = rg_Cluster (dr_Remote r)))"

definition ruleApplies :: "('w, 't) DynamicResourceReconciler \<Rightarrow> NamespacedName \<Rightarrow> ResourceRule \<Rightarrow> bool" where
  "ruleApplies r req rule \<longleftrightarrow>
     ruleMatchesGVK rule (dr_GVK r) \<and>
     (length (rule_Namespaces rule) > 0 \<longrightarrow> list_ex (\<lambda>ns. ns = nn_Namespace req) (rule_Namespaces rule))"

section \<open>Carrying out one rule\<close>

definition toDelete :: "apimachinery \<Rightarrow> GroupVersionKind \<Rightarrow> NamespacedName \<Rightarrow> jobject" where
  "toDelete am gvk req = SetNamespace am (nn_Namespace req) (SetName am (nn_Name req) (SetGVK am gvk Map.empty))"

definition deleteOnDestination ::
  "apimachinery \<Rightarrow> GroupVersionKind \<Rightarrow> NamespacedName \<Rightarrow> 'w client \<Rightarrow> ('w, goerror option) io" where
  "deleteOnDestination am gvk req destClient w =
     (case cl_Delete destClient (toDelete am gvk req) w of
        (None, w1) \<Rightarrow> (None, w1)
      | (Some e, w1) \<Rightarrow> ((if IsNotFound am e then None else Some e), w1))"

definition missingError :: "apimachinery \<Rightarrow> GroupVersionKind \<Rightarrow> KRMSyncer \<Rightarrow> jobject \<Rightarrow> goerror" where
  "missingError am gvk krmsyncer destObj =
     (let name = (if GetNamespace am destObj \<noteq> [] then GetNamespace am destObj @ ''/'' @ GetName am destObj
                  else GetName am destObj) in
      ErrorString (''destination object '' @ gvk_Kind gvk @ '' '' @ name @ '' does not exist (KRMSyncer ''
        @ ks_Namespace krmsyncer @ ''/'' @ ks_Name krmsyncer
        @ '' syncs status only and does not create objects)''))"

definition syncToDestination ::
  "apimachinery \<Rightarrow> GroupVersionKind \<Rightarrow> KRMSyncer \<Rightarrow> string list \<Rightarrow> jobject \<Rightarrow> 'w client \<Rightarrow>
     ('w, goerror option) io" where
  "syncToDestination am gvk krmsyncer syncFields u destClient w =
     (case filterFields am u syncFields of
        Inl e \<Rightarrow> (Some e, w)
      | Inr dest \<Rightarrow>
          (let destObj = prepareForDestination am dest in
           if isFullSync syncFields then applyToDestination am destClient destObj w
           else (case destinationExists am destClient destObj w of
                   (Inl e, w1) \<Rightarrow> (Some e, w1)
                 | (Inr False, w1) \<Rightarrow> (Some (missingError am gvk krmsyncer destObj), w1)
                 | (Inr True, w1) \<Rightarrow> applyToDestination am destClient destObj w1)))"

text \<open>The source object is \<open>None\<close> when it is deleted.\<close>

definition carryOut ::
  "apimachinery \<Rightarrow> GroupVersionKind \<Rightarrow> NamespacedName \<Rightarrow> jobject option \<Rightarrow> KRMSyncer \<Rightarrow> ResourceRule \<Rightarrow>
     'w client \<Rightarrow> ('w, goerror option) io" where
  "carryOut am gvk req source krmsyncer rule destClient w =
     (case source of
        None \<Rightarrow> deleteOnDestination am gvk req destClient w
      | Some u \<Rightarrow> syncToDestination am gvk krmsyncer (rule_SyncFields rule) u destClient w)"

text \<open>One rule that applies: the destination client is determined, then the rule is carried out. The
  result is the error to collect.\<close>

definition runRule ::
  "apimachinery \<Rightarrow> ('t rest_config \<Rightarrow> ('w, 'w client result) io) \<Rightarrow> ('w, 't) DynamicResourceReconciler \<Rightarrow>
     NamespacedName \<Rightarrow> jobject option \<Rightarrow> KRMSyncer \<Rightarrow> ResourceRule \<Rightarrow>
     ('w, 't) remoteClientCache option \<times> 'w \<Rightarrow>
     goerror option \<times> ('w, 't) remoteClientCache option \<times> 'w" where
  "runRule am newClient r req source krmsyncer rule = (\<lambda>(cache, w).
     (case (if dr_Mode r = ModePush then getRemoteClient newClient r krmsyncer (cache, w)
            else (Inr (dr_LocalClient r), cache, w)) of
        (Inl e, cache', w') \<Rightarrow> (Some e, cache', w')
      | (Inr destClient, cache', w') \<Rightarrow>
          (case carryOut am (dr_GVK r) req source krmsyncer rule destClient w' of
             (err, w'') \<Rightarrow> (err, cache', w''))))"

definition syncRule ::
  "apimachinery \<Rightarrow> ('t rest_config \<Rightarrow> ('w, 'w client result) io) \<Rightarrow> ('w, 't) DynamicResourceReconciler \<Rightarrow>
     NamespacedName \<Rightarrow> jobject option \<Rightarrow> KRMSyncer \<Rightarrow> ResourceRule \<Rightarrow>
     ('w, 't) loop_state \<Rightarrow> ('w, 't) loop_state" where
  "syncRule am newClient r req source krmsyncer rule = (\<lambda>(errs, cache, w).
     (if \<not> ruleApplies r req rule then (errs, cache, w)
      else (case runRule am newClient r req source krmsyncer rule (cache, w) of
              (err, cache', w') \<Rightarrow> (collect errs err, cache', w'))))"

definition syncSyncer ::
  "apimachinery \<Rightarrow> ('t rest_config \<Rightarrow> ('w, 'w client result) io) \<Rightarrow> ('w, 't) DynamicResourceReconciler \<Rightarrow>
     NamespacedName \<Rightarrow> jobject option \<Rightarrow> KRMSyncer \<Rightarrow> ('w, 't) loop_state \<Rightarrow> ('w, 't) loop_state" where
  "syncSyncer am newClient r req source krmsyncer s =
     (if \<not> syncerApplies r krmsyncer then s
      else fold (syncRule am newClient r req source krmsyncer) (spec_Rules (ks_Spec krmsyncer)) s)"

section \<open>Reconcile\<close>

definition reportFailed :: "NamespacedName \<Rightarrow> ('w, 't) sync_state \<Rightarrow> ('w, 't) sync_state" where
  "reportFailed key s = (case markFailed (ss_failures s) key (ss_gauges s) of
     (t, gs) \<Rightarrow> s\<lparr>ss_failures := t, ss_gauges := gs\<rparr>)"

definition reportSucceeded :: "NamespacedName \<Rightarrow> ('w, 't) sync_state \<Rightarrow> ('w, 't) sync_state" where
  "reportSucceeded key s = (case markSucceeded (ss_failures s) key (ss_gauges s) of
     (t, gs) \<Rightarrow> s\<lparr>ss_failures := t, ss_gauges := gs\<rparr>)"

text \<open>Reading the source: the object, \<open>None\<close> if it does not exist, or an error.\<close>

definition readSource ::
  "apimachinery \<Rightarrow> ('w, 't) DynamicResourceReconciler \<Rightarrow> NamespacedName \<Rightarrow> ('w, jobject option result) io" where
  "readSource am r req w =
     (case cl_Get (dr_RemoteClient r) (dr_GVK r) req w of
        (Inr u, w1) \<Rightarrow> (Inr (Some u), w1)
      | (Inl e, w1) \<Rightarrow> if IgnoreNotFound am e = None then (Inr None, w1) else (Inl e, w1))"

definition DynamicReconcile ::
  "apimachinery \<Rightarrow> ('t rest_config \<Rightarrow> ('w, 'w client result) io) \<Rightarrow> ('w, 't) DynamicResourceReconciler \<Rightarrow>
     NamespacedName \<Rightarrow> ('w, 't) sync_state \<Rightarrow> goerror option \<times> ('w, 't) sync_state" where
  "DynamicReconcile am newClient r req s =
     (case readSource am r req (ss_world s) of
        (Inl e, w1) \<Rightarrow> (Some e, reportFailed req (s\<lparr>ss_world := w1\<rparr>))
      | (Inr source, w1) \<Rightarrow>
     (case cl_ListKRMSyncers (dr_LocalClient r) w1 of
        (Inl e, w2) \<Rightarrow> (Some e, s\<lparr>ss_world := w2\<rparr>)
      | (Inr krmsyncers, w2) \<Rightarrow>
     (case fold (syncSyncer am newClient r req source) krmsyncers ([], ss_remoteClients s, w2) of
        (syncErrors, cache, w3) \<Rightarrow>
          (let s3 = s\<lparr>ss_remoteClients := cache, ss_world := w3\<rparr> in
           if syncErrors \<noteq> [] then (errors_Join (map Some syncErrors), reportFailed req s3)
           else (None, reportSucceeded req s3)))))"

section \<open>The loops try every applicable rule once\<close>

definition applicable ::
  "('w, 't) DynamicResourceReconciler \<Rightarrow> NamespacedName \<Rightarrow> KRMSyncer list \<Rightarrow> (KRMSyncer \<times> ResourceRule) list" where
  "applicable r req krmsyncers =
     [(krmsyncer, rule). krmsyncer \<leftarrow> filter (syncerApplies r) krmsyncers,
        rule \<leftarrow> filter (ruleApplies r req) (spec_Rules (ks_Spec krmsyncer))]"

text \<open>The reference the loops are compared with.\<close>

definition runRules ::
  "apimachinery \<Rightarrow> ('t rest_config \<Rightarrow> ('w, 'w client result) io) \<Rightarrow> ('w, 't) DynamicResourceReconciler \<Rightarrow>
     NamespacedName \<Rightarrow> jobject option \<Rightarrow> (KRMSyncer \<times> ResourceRule) list \<Rightarrow>
     ('w, 't) remoteClientCache option \<times> 'w \<Rightarrow>
     goerror option list \<times> ('w, 't) remoteClientCache option \<times> 'w" where
  "runRules am newClient r req source =
     run_all (\<lambda>(krmsyncer, rule). runRule am newClient r req source krmsyncer rule)"

lemma syncers_applicable:
  "fold (syncSyncer am newClient r req source) krmsyncers s
     = fold (\<lambda>(k, rule). syncRule am newClient r req source k rule) (applicable r req krmsyncers) s"
proof -
  let ?rule = "syncRule am newClient r req source"
  have rules: "fold (?rule k) rules s = fold (?rule k) (filter (ruleApplies r req) rules) s" for k rules s
    by (rule fold_skip) (simp add: syncRule_def split: prod.split)
  have syncer: "syncSyncer am newClient r req source k s
      = fold (?rule k) (filter (ruleApplies r req) (spec_Rules (ks_Spec k))) s"
    if "syncerApplies r k" for k s
    using that rules by (simp add: syncSyncer_def)
  have "fold (syncSyncer am newClient r req source) krmsyncers s
      = fold (syncSyncer am newClient r req source) (filter (syncerApplies r) krmsyncers) s"
    by (rule fold_skip) (simp add: syncSyncer_def)
  also have "\<dots> = fold (\<lambda>k. fold (?rule k) (filter (ruleApplies r req) (spec_Rules (ks_Spec k))))
      (filter (syncerApplies r) krmsyncers) s"
    by (rule fold_cong) (auto simp: syncer fun_eq_iff)
  also have "\<dots> = fold (\<lambda>(k, rule). ?rule k rule) (applicable r req krmsyncers) s"
    unfolding applicable_def by (rule fold_nested)
  finally show ?thesis .
qed

lemma applicable_rules: "(k, rule) \<in> set (applicable r req krmsyncers) \<Longrightarrow> ruleApplies r req rule"
  by (auto simp: applicable_def)

lemma loops_run_applicable:
  "fold (syncSyncer am newClient r req source) krmsyncers ([], s)
     = (case runRules am newClient r req source (applicable r req krmsyncers) s of
          (outs, s') \<Rightarrow> (non_nil outs, s'))"
  unfolding syncers_applicable runRules_def
  by (subst fold_collect [where step = "\<lambda>(k, rule). runRule am newClient r req source k rule"])
    (auto simp: syncRule_def dest: applicable_rules split: prod.splits)

text \<open>C4: Every rule that applies to the object is tried exactly once, in the order of the KRMSyncers and
  their rules, whether or not others fail, and the reconcile returns the join of all their errors.
  Nothing else is done on a destination.\<close>

theorem every_applicable_rule_is_tried:
  assumes read: "readSource am r req (ss_world s) = (Inr source, w1)"
    and syncers: "cl_ListKRMSyncers (dr_LocalClient r) w1 = (Inr krmsyncers, w2)"
    and run: "runRules am newClient r req source (applicable r req krmsyncers) (ss_remoteClients s, w2)
      = (outs, cache, w3)"
  shows "length outs = length (applicable r req krmsyncers) \<and>
    fst (DynamicReconcile am newClient r req s) = errors_Join outs \<and>
    ss_world (snd (DynamicReconcile am newClient r req s)) = w3 \<and>
    ss_remoteClients (snd (DynamicReconcile am newClient r req s)) = cache"
proof -
  have len: "length outs = length (applicable r req krmsyncers)"
    using run unfolding runRules_def by (rule run_all_length)
  have loops: "fold (syncSyncer am newClient r req source) krmsyncers ([], ss_remoteClients s, w2)
      = (non_nil outs, cache, w3)"
    using loops_run_applicable [of am newClient r req source krmsyncers "(ss_remoteClients s, w2)"] run by simp
  have none: "non_nil outs = [] \<Longrightarrow> errors_Join outs = None" by (simp add: errors_Join_def)
  show ?thesis
    using len read syncers loops none
    by (simp add: DynamicReconcile_def errors_Join_non_nil reportFailed_def reportSucceeded_def Let_def
        split: prod.split)
qed

section \<open>Results and the failure metric\<close>

text \<open>C5: The failure metric follows the result. After a reconcile that returns no error the object is not
  counted as failing; after one whose source read failed or whose rules failed it is; other
  objects are not touched. The one exception is a failed list of the KRMSyncers, after which the
  object is counted as it was before.\<close>

theorem metric_follows_result:
  assumes tracked: "ss_failures s = Some ft"
    and rec: "DynamicReconcile am newClient r req s = (res, s')"
  shows "(res = None \<and> failing (ss_failures s') = ft_failed ft - {req}) \<or>
    (res \<noteq> None \<and> failing (ss_failures s') = insert req (ft_failed ft)) \<or>
    (res \<noteq> None \<and> failing (ss_failures s') = ft_failed ft \<and>
      (\<exists>source w1 e w2. readSource am r req (ss_world s) = (Inr source, w1) \<and>
         cl_ListKRMSyncers (dr_LocalClient r) w1 = (Inl e, w2) \<and> res = Some e))"
  using rec tracked
  by (auto simp: DynamicReconcile_def reportFailed_def reportSucceeded_def Let_def markFailed_Some
      markSucceeded_Some failing_def errors_Join_map_Some split: prod.splits sum.splits if_splits)

text \<open>A reconcile returns without an error exactly if the source could be read (or the object is gone),
  the KRMSyncers could be listed and every rule that applies was carried out without an error.\<close>

theorem reconcile_succeeds_iff:
  "fst (DynamicReconcile am newClient r req s) = None \<longleftrightarrow>
     (\<exists>source w1 krmsyncers w2.
        readSource am r req (ss_world s) = (Inr source, w1) \<and>
        cl_ListKRMSyncers (dr_LocalClient r) w1 = (Inr krmsyncers, w2) \<and>
        list_all (\<lambda>out. out = None)
          (fst (runRules am newClient r req source (applicable r req krmsyncers) (ss_remoteClients s, w2))))"
proof -
  have none: "non_nil outs = [] \<longleftrightarrow> list_all (\<lambda>out. out = None) outs" for outs :: "goerror option list"
    by (simp add: non_nil_empty_iff list_all_iff)
  show ?thesis
    by (cases "readSource am r req (ss_world s)")
      (auto simp: DynamicReconcile_def Let_def loops_run_applicable errors_Join_map_Some none
        split: prod.splits sum.splits if_splits)
qed

text \<open>An event for an object no rule applies to makes two reads, of the object and of the list of
  KRMSyncers, and nothing else.\<close>

theorem unmatched_object_is_left_alone:
  assumes "readSource am r req (ss_world s) = (Inr source, w1)"
    and "cl_ListKRMSyncers (dr_LocalClient r) w1 = (Inr krmsyncers, w2)"
    and "\<forall>k \<in> set krmsyncers. syncerApplies r k \<longrightarrow>
           (\<forall>rule \<in> set (spec_Rules (ks_Spec k)). \<not> ruleApplies r req rule)"
  shows "DynamicReconcile am newClient r req s = (None, reportSucceeded req (s\<lparr>ss_world := w2\<rparr>))"
proof -
  have "applicable r req krmsyncers = []"
    using assms(3) by (auto simp: applicable_def filter_empty_conv)
  with assms(1,2) show ?thesis
    by (simp add: DynamicReconcile_def loops_run_applicable runRules_def Let_def)
qed

section \<open>What is done to the destination\<close>

text \<open>A rule that does not sync the whole \<^verbatim>\<open>spec\<close> never creates anything: when the destination object
  does not exist, the only call is the read that found this out, and the rule fails.\<close>

theorem status_sync_creates_nothing:
  assumes "\<not> isFullSync syncFields" and "filterFields am u syncFields = Inr dest"
    and "cl_Get destClient (GetGVK am (prepareForDestination am dest))
           (objectKey am (prepareForDestination am dest)) w = (Inl e, w1)"
    and "IsNotFound am e"
  shows "syncToDestination am gvk krmsyncer syncFields u destClient w
    = (Some (missingError am gvk krmsyncer (prepareForDestination am dest)), w1)"
  using assms by (simp add: syncToDestination_def destinationExists_def Let_def)

lemma sync_success:
  assumes "syncToDestination am gvk krmsyncer syncFields u destClient w = (None, w')"
  shows "\<exists>dest w1. filterFields am u syncFields = Inr dest \<and>
    applyToDestination am destClient (prepareForDestination am dest) w1 = (None, w') \<and>
    (if isFullSync syncFields then w1 = w
     else destinationExists am destClient (prepareForDestination am dest) w = (Inr True, w1))"
  using assms
  by (auto simp: syncToDestination_def Let_def split: sum.splits prod.splits bool.splits if_splits)

text \<open>A rule is carried out successfully on an existing source object only by applying the filtered
  object, and, unless the whole \<^verbatim>\<open>spec\<close> is synced, only after the destination object was found.\<close>

theorem sync_success_means_applied:
  assumes "syncToDestination am gvk krmsyncer syncFields u destClient w = (None, w')"
  shows "\<exists>dest w1. filterFields am u syncFields = Inr dest \<and>
    applyToDestination am destClient (prepareForDestination am dest) w1 = (None, w') \<and>
    (if isFullSync syncFields then w1 = w
     else destinationExists am destClient (prepareForDestination am dest) w = (Inr True, w1))"
  by (rule sync_success [OF assms])

text \<open>Deletion. An object that is gone from the source is deleted on the destination under its own
  kind, namespace and name, by one call, and an object that is already gone there is a success.\<close>

theorem deletion_is_propagated:
  assumes laws: "unstructured_laws am" and plain: "gvk_plain gvk"
    and del: "cl_Delete destClient (toDelete am gvk req) w = (res, w1)"
  shows "carryOut am gvk req None krmsyncer rule destClient w
      = ((case res of None \<Rightarrow> None | Some e \<Rightarrow> if IsNotFound am e then None else Some e), w1) \<and>
    GetGVK am (toDelete am gvk req) = gvk \<and> objectKey am (toDelete am gvk req) = req"
proof -
  let ?sk = "SetGVK am gvk Map.empty"
  have "GetGVK am (toDelete am gvk req) = gvk"
    by (rule GetGVK_SetGVK [OF laws plain, of _ Map.empty]) (simp_all add: toDelete_def laws)
  moreover have "objectKey am (toDelete am gvk req) = req"
    by (cases req) (simp add: objectKey_def toDelete_def laws)
  ultimately show ?thesis
    using del by (simp add: carryOut_def deleteOnDestination_def split: option.split)
qed

section \<open>One direction only\<close>

text \<open>The calls that keep a property of the world: the reads of a client, and all calls of a client
  on objects.\<close>

definition reads_keep :: "('w \<Rightarrow> bool) \<Rightarrow> 'w client \<Rightarrow> bool" where
  "reads_keep I cl \<longleftrightarrow>
     (\<forall>gvk key w. I w \<longrightarrow> I (snd (cl_Get cl gvk key w))) \<and>
     (\<forall>w. I w \<longrightarrow> I (snd (cl_ListKRMSyncers cl w)))"

definition calls_keep :: "('w \<Rightarrow> bool) \<Rightarrow> 'w client \<Rightarrow> bool" where
  "calls_keep I cl \<longleftrightarrow> reads_keep I cl \<and>
     (\<forall>obj w. I w \<longrightarrow> I (snd (cl_Delete cl obj w))) \<and>
     (\<forall>opts obj w. I w \<longrightarrow> I (snd (cl_PatchApply cl opts obj w))) \<and>
     (\<forall>opts obj w. I w \<longrightarrow> I (snd (cl_StatusPatchApply cl opts obj w))) \<and>
     (\<forall>ns w. I w \<longrightarrow> I (snd (cl_GetNamespace cl ns w))) \<and>
     (\<forall>ns w. I w \<longrightarrow> I (snd (cl_CreateNamespace cl ns w)))"

lemma reads_keepD:
  assumes "reads_keep I cl" and "I w"
  shows "cl_Get cl gvk key w = (x, w') \<Longrightarrow> I w'" and "cl_ListKRMSyncers cl w = (y, w') \<Longrightarrow> I w'"
  using assms unfolding reads_keep_def by (metis snd_conv)+

lemma calls_keepD:
  assumes "calls_keep I cl" and "I w"
  shows "cl_Get cl gvk key w = (x0, w') \<Longrightarrow> I w'"
    and "cl_Delete cl obj w = (x1, w') \<Longrightarrow> I w'"
    and "cl_PatchApply cl opts obj w = (x2, w') \<Longrightarrow> I w'"
    and "cl_StatusPatchApply cl opts obj w = (x3, w') \<Longrightarrow> I w'"
    and "cl_GetNamespace cl ns w = (x4, w') \<Longrightarrow> I w'"
    and "cl_CreateNamespace cl ns w = (x5, w') \<Longrightarrow> I w'"
  using assms unfolding calls_keep_def reads_keep_def by (metis snd_conv)+

lemma ensureNamespace_keeps:
  "calls_keep I cl \<Longrightarrow> I w \<Longrightarrow> ensureNamespace am cl ns w = (res, w') \<Longrightarrow> I w'"
  by (auto simp: ensureNamespace_def dest: calls_keepD(5,6) split: if_splits prod.splits option.splits)

lemma patchObject_keeps:
  "calls_keep I cl \<Longrightarrow> I w \<Longrightarrow> patchObject am cl obj w = (res, w') \<Longrightarrow> I w'"
  by (auto simp: patchObject_def dest: calls_keepD(3,4) split: prod.splits option.splits sum.splits)

lemma applyToDestination_keeps:
  "calls_keep I cl \<Longrightarrow> I w \<Longrightarrow> applyToDestination am cl obj w = (res, w') \<Longrightarrow> I w'"
  by (auto simp: applyToDestination_def dest: ensureNamespace_keeps patchObject_keeps
      split: prod.splits option.splits)

lemma destinationExists_keeps:
  "calls_keep I cl \<Longrightarrow> I w \<Longrightarrow> destinationExists am cl obj w = (res, w') \<Longrightarrow> I w'"
  by (auto simp: destinationExists_def dest: calls_keepD(1) split: prod.splits sum.splits if_splits)

lemma carryOut_keeps:
  "calls_keep I cl \<Longrightarrow> I w \<Longrightarrow> carryOut am gvk req source k rule cl w = (res, w') \<Longrightarrow> I w'"
  by (auto simp: carryOut_def deleteOnDestination_def syncToDestination_def Let_def
      dest: calls_keepD(2) applyToDestination_keeps destinationExists_keeps
      split: prod.splits sum.splits option.splits if_splits bool.splits)

lemma runRules_keeps:
  assumes "\<And>k rule cache w out cache' w'. R k rule \<Longrightarrow> I cache w \<Longrightarrow>
    runRule am newClient r req source k rule (cache, w) = (out, cache', w') \<Longrightarrow> I cache' w'"
    and "\<forall>(k, rule) \<in> set ps. R k rule"
    and "I cache w" and "runRules am newClient r req source ps (cache, w) = (outs, cache', w')"
  shows "I cache' w'"
  using run_all_preserves [of ps "\<lambda>(cache, w). I cache w"
      "\<lambda>(k, rule). runRule am newClient r req source k rule" "(cache, w)" outs "(cache', w')"] assms
  by (fastforce simp: runRules_def)

text \<open>What every step keeps, a reconcile keeps. \<open>S\<close> is what is known of the source object read, \<open>R\<close> of the
  rules that apply.\<close>

lemma DynamicReconcile_keeps:
  assumes rule: "\<And>source k rule cache w out cache' w'. S source \<Longrightarrow> R k rule \<Longrightarrow> I cache w \<Longrightarrow>
      runRule am newClient r req source k rule (cache, w) = (out, cache', w') \<Longrightarrow> I cache' w'"
    and source: "\<And>cache w x w'. I cache w \<Longrightarrow> cl_Get (dr_RemoteClient r) (dr_GVK r) req w = (x, w') \<Longrightarrow> I cache w'"
    and list: "\<And>cache w x w'. I cache w \<Longrightarrow> cl_ListKRMSyncers (dr_LocalClient r) w = (x, w') \<Longrightarrow> I cache w'"
    and known: "\<And>x. fst (readSource am r req (ss_world s)) = Inr x \<Longrightarrow> S x"
      "\<And>ks k rule. fst (cl_ListKRMSyncers (dr_LocalClient r) (snd (readSource am r req (ss_world s)))) = Inr ks \<Longrightarrow>
        (k, rule) \<in> set (applicable r req ks) \<Longrightarrow> R k rule"
    and start: "I (ss_remoteClients s) (ss_world s)"
    and rec: "DynamicReconcile am newClient r req s = (res, s')"
  shows "I (ss_remoteClients s') (ss_world s')"
proof -
  have read: "readSource am r req (ss_world s) = (x, w1) \<Longrightarrow> I (ss_remoteClients s) w1" for x w1
    using source [OF start] by (auto simp: readSource_def split: prod.splits sum.splits if_splits)
  have loop: "S source \<Longrightarrow> \<forall>(k, rule) \<in> set ps. R k rule \<Longrightarrow> I (ss_remoteClients s) w2 \<Longrightarrow>
      runRules am newClient r req source ps (ss_remoteClients s, w2) = (outs, cache, w3) \<Longrightarrow> I cache w3"
    for source w2 ps outs cache w3
    using runRules_keeps [of R I am newClient r req source] rule by blast
  have s': "(ss_remoteClients s', ss_world s') =
    (case readSource am r req (ss_world s) of
       (Inl e, w1) \<Rightarrow> (ss_remoteClients s, w1)
     | (Inr source, w1) \<Rightarrow>
         (case cl_ListKRMSyncers (dr_LocalClient r) w1 of
            (Inl e, w2) \<Rightarrow> (ss_remoteClients s, w2)
          | (Inr ks, w2) \<Rightarrow>
              snd (runRules am newClient r req source (applicable r req ks) (ss_remoteClients s, w2))))"
    using arg_cong [OF rec, of "\<lambda>p. (ss_remoteClients (snd p), ss_world (snd p))"]
    by (simp add: DynamicReconcile_def Let_def loops_run_applicable reportFailed_def reportSucceeded_def
        split: prod.splits sum.splits if_splits)
  obtain x w1 where x: "readSource am r req (ss_world s) = (x, w1)" by (metis prod.exhaust)
  obtain y w2 where y: "cl_ListKRMSyncers (dr_LocalClient r) w1 = (y, w2)" by (metis prod.exhaust)
  note w1 = read [OF x] and w2 = list [OF read [OF x] y]
  show ?thesis
  proof (cases x)
    case (Inr source)
    have src: "S source" using known(1) x Inr by simp
    show ?thesis
    proof (cases y)
      case (Inr ks)
      have "(ss_remoteClients s', ss_world s')
          = snd (runRules am newClient r req source (applicable r req ks) (ss_remoteClients s, w2))"
        using s' x y Inr \<open>x = Inr source\<close> by simp
      then obtain outs where run: "runRules am newClient r req source (applicable r req ks) (ss_remoteClients s, w2)
          = (outs, ss_remoteClients s', ss_world s')"
        by (metis prod.collapse)
      have "\<forall>(k, rule) \<in> set (applicable r req ks). R k rule"
        using known(2) x y Inr by auto
      from loop [OF src this w2 run] show ?thesis .
    qed (use s' x y Inr w2 in simp)
  qed (use s' x w1 in simp)
qed

text \<open>C2: Pull mode never writes to the source cluster. Every property of the world that reading the source
  object keeps and that the calls of the local client keep survives a reconcile; no other call of
  the source cluster's client is made, so its writes need not keep the property.\<close>

theorem pull_never_writes_to_source:
  assumes "dr_Mode r = ModePull"
    and "\<forall>gvk key w. I w \<longrightarrow> I (snd (cl_Get (dr_RemoteClient r) gvk key w))"
    and "calls_keep I (dr_LocalClient r)"
    and "I (ss_world s)"
  shows "I (ss_world (snd (DynamicReconcile am newClient r req s)))"
proof -
  obtain res s' where rec: "DynamicReconcile am newClient r req s = (res, s')"
    by (cases "DynamicReconcile am newClient r req s")
  have local_reads: "reads_keep I (dr_LocalClient r)" using assms(3) by (simp add: calls_keep_def)
  have "(\<lambda>_. I) (ss_remoteClients s') (ss_world s')"
  proof (rule DynamicReconcile_keeps [where S = "\<lambda>_. True" and R = "\<lambda>_ _. True", OF _ _ _ _ _ _ rec])
    fix source k rule cache w out cache' w'
    assume "I w" and "runRule am newClient r req source k rule (cache, w) = (out, cache', w')"
    then show "I w'"
      using assms(1,3) by (auto simp: runRule_def dest: carryOut_keeps split: prod.splits)
  next
    fix w x w'
    assume "I w" and "cl_Get (dr_RemoteClient r) (dr_GVK r) req w = (x, w')"
    then show "I w'" using assms(2) by (metis snd_conv)
  next
    fix w x w'
    assume "I w" and "cl_ListKRMSyncers (dr_LocalClient r) w = (x, w')"
    then show "I w'" by (rule reads_keepD(2) [OF local_reads])
  qed (simp_all add: assms(4))
  then show ?thesis using rec by simp
qed

text \<open>For the other direction: the calls that produce a destination client keep the property, the
  clients they produce keep it, and so do the cached ones. What is asked of a client is a
  parameter \<open>C\<close>.\<close>

definition connections_give ::
  "('w client \<Rightarrow> bool) \<Rightarrow> ('w \<Rightarrow> bool) \<Rightarrow> ('t rest_config \<Rightarrow> ('w, 'w client result) io) \<Rightarrow> ('w, 't) RemoteConfigProvider \<Rightarrow> bool" where
  "connections_give C I newClient provider \<longleftrightarrow>
     (\<forall>ns remote w. I w \<longrightarrow> I (snd (rp_RESTConfig provider ns remote w))) \<and>
     (\<forall>cfg w. I w \<longrightarrow> I (snd (newClient cfg w))) \<and>
     (\<forall>cfg w cl. I w \<longrightarrow> fst (newClient cfg w) = Inr cl \<longrightarrow> C cl)"

definition cache_gives ::
  "('w client \<Rightarrow> bool) \<Rightarrow> ('w \<Rightarrow> bool) \<Rightarrow> ('t rest_config \<Rightarrow> ('w, 'w client result) io) \<Rightarrow> ('w, 't) remoteClientCache option \<Rightarrow> bool" where
  "cache_gives C I newClient cache \<longleftrightarrow>
     (case cache of None \<Rightarrow> True
      | Some c \<Rightarrow> connections_give C I newClient (rcc_provider c) \<and>
          (\<forall>key cl. rcc_clients c key = Some cl \<longrightarrow> C cl))"

abbreviation connections_keep ::
  "('w \<Rightarrow> bool) \<Rightarrow> ('t rest_config \<Rightarrow> ('w, 'w client result) io) \<Rightarrow> ('w, 't) RemoteConfigProvider \<Rightarrow> bool" where
  "connections_keep I \<equiv> connections_give (calls_keep I) I"

abbreviation cache_keeps ::
  "('w \<Rightarrow> bool) \<Rightarrow> ('t rest_config \<Rightarrow> ('w, 'w client result) io) \<Rightarrow> ('w, 't) remoteClientCache option \<Rightarrow> bool" where
  "cache_keeps I \<equiv> cache_gives (calls_keep I) I"

lemma connections_giveD:
  assumes "connections_give C I newClient provider" and "I w"
  shows "rp_RESTConfig provider ns remote w = (x, w') \<Longrightarrow> I w'"
    and "newClient cfg w = (y, w') \<Longrightarrow> I w'"
    and "newClient cfg w = (Inr cl, w') \<Longrightarrow> C cl"
  using assms unfolding connections_give_def by (metis fst_conv snd_conv)+

lemma cache_get_gives:
  assumes "cache_gives C I newClient (Some c)" and "I w"
    and "remoteClientCache_get newClient ns remote (c, w) = (res, c', w')"
  shows "cache_gives C I newClient (Some c') \<and> I w' \<and> (\<forall>cl. res = Inr cl \<longrightarrow> C cl)"
proof -
  have prov: "connections_give C I newClient (rcc_provider c)"
    and old: "\<And>key cl. rcc_clients c key = Some cl \<Longrightarrow> C cl"
    using assms(1) by (auto simp: cache_gives_def)
  note get = assms(3) [unfolded remoteClientCache_get_def split_conv]
  show ?thesis
  proof (cases "rp_Key (rcc_provider c) ns remote")
    case (Inl e)
    with get assms(1,2) show ?thesis by auto
  next
    case (Inr key)
    show ?thesis
    proof (cases "rcc_clients c key")
      case (Some cl)
      with get Inr assms(1,2) old show ?thesis by auto
    next
      case None
      obtain x w1 where x: "rp_RESTConfig (rcc_provider c) ns remote w = (x, w1)" by (metis prod.exhaust)
      have w1: "I w1" by (rule connections_giveD(1) [OF prov assms(2) x])
      show ?thesis
      proof (cases x)
        case (Inl e)
        with get \<open>rp_Key (rcc_provider c) ns remote = Inr key\<close> None x w1 assms(1) show ?thesis by auto
      next
        case (Inr cfg)
        obtain y w2 where y: "newClient cfg w1 = (y, w2)" by (metis prod.exhaust)
        have w2: "I w2" by (rule connections_giveD(2) [OF prov w1 y])
        show ?thesis
        proof (cases y)
          case (Inl e)
          with get \<open>rp_Key (rcc_provider c) ns remote = Inr key\<close> None x y w2 \<open>x = Inr cfg\<close> assms(1)
          show ?thesis by auto
        next
          case (Inr cl)
          with get \<open>rp_Key (rcc_provider c) ns remote = Inr key\<close> None x y \<open>x = Inr cfg\<close>
          have r: "res = Inr cl" "c' = c\<lparr>rcc_clients := (rcc_clients c)(key \<mapsto> cl)\<rparr>" "w' = w2" by auto
          have "C cl" by (rule connections_giveD(3) [OF prov w1 y [unfolded Inr]])
          with r w2 prov old show ?thesis by (auto simp: cache_gives_def)
        qed
      qed
    qed
  qed
qed

lemma getRemoteClient_gives:
  assumes prov: "connections_give C I newClient (dr_RemoteConfigProvider r)"
    and cache: "cache_gives C I newClient cache" and w: "I w"
    and get: "getRemoteClient newClient r k (cache, w) = (res, cache', w')"
  shows "cache_gives C I newClient cache' \<and> I w' \<and> (\<forall>cl. res = Inr cl \<longrightarrow> C cl)"
proof (cases cache)
  case (Some c)
  from get Some obtain c' where "remoteClientCache_get newClient (ks_Namespace k) (spec_Remote (ks_Spec k)) (c, w) = (res, c', w')"
    and "cache' = Some c'" by (auto simp: getRemoteClient_def split: prod.splits)
  then show ?thesis
    using cache_get_gives [of C I newClient c w "ks_Namespace k" "spec_Remote (ks_Spec k)" res c' w'] w cache Some
    by simp
next
  case None
  obtain x w1 where x: "rp_RESTConfig (dr_RemoteConfigProvider r) (ks_Namespace k) (spec_Remote (ks_Spec k)) w = (x, w1)"
    by (metis prod.exhaust)
  have w1: "I w1" by (rule connections_giveD(1) [OF prov w x])
  show ?thesis
  proof (cases x)
    case (Inr cfg)
    with get None x have "newClient cfg w1 = (res, w')" "cache' = None"
      by (auto simp: getRemoteClient_def split: prod.splits)
    with cache None connections_giveD(2,3) [OF prov w1] show ?thesis by blast
  qed (use get None x w1 in \<open>auto simp: getRemoteClient_def cache_gives_def\<close>)
qed

text \<open>C3: Push mode never writes to the local cluster. Every property of the world that reads of the local
  cluster keep, and that making connections and using the destination clients keeps, survives a
  reconcile; the local client's writes need not keep it.\<close>

theorem push_never_writes_to_source:
  assumes "dr_Mode r = ModePush"
    and "reads_keep I (dr_LocalClient r)" and "reads_keep I (dr_RemoteClient r)"
    and "connections_keep I newClient (dr_RemoteConfigProvider r)"
    and "cache_keeps I newClient (ss_remoteClients s)"
    and "I (ss_world s)"
  shows "I (ss_world (snd (DynamicReconcile am newClient r req s)))"
proof -
  let ?J = "\<lambda>cache w. cache_keeps I newClient cache \<and> I w"
  obtain res s' where rec: "DynamicReconcile am newClient r req s = (res, s')"
    by (cases "DynamicReconcile am newClient r req s")
  have "?J (ss_remoteClients s') (ss_world s')"
  proof (rule DynamicReconcile_keeps [where S = "\<lambda>_. True" and R = "\<lambda>_ _. True", OF _ _ _ _ _ _ rec])
    fix source k rule cache w out cache' w'
    assume J: "?J cache w" and run: "runRule am newClient r req source k rule (cache, w) = (out, cache', w')"
    obtain cl cache1 w1 where get: "getRemoteClient newClient r k (cache, w) = (cl, cache1, w1)"
      by (metis prod.exhaust)
    have keep: "?J cache1 w1" "\<And>c. cl = Inr c \<Longrightarrow> calls_keep I c"
      using getRemoteClient_gives [OF assms(4) _ _ get] J by blast+
    show "?J cache' w'"
    proof (cases cl)
      case (Inr c)
      with run get assms(1) obtain out' where
        "carryOut am (dr_GVK r) req source k rule c w1 = (out', w')" "cache' = cache1"
        by (auto simp: runRule_def split: prod.splits)
      with keep(1) carryOut_keeps [OF keep(2) [OF Inr]] show ?thesis by blast
    qed (use run get keep assms(1) in \<open>auto simp: runRule_def\<close>)
  next
    fix cache w x w'
    assume "?J cache w" and "cl_Get (dr_RemoteClient r) (dr_GVK r) req w = (x, w')"
    then show "?J cache w'" using reads_keepD(1) [OF assms(3)] by blast
  next
    fix cache w x w'
    assume "?J cache w" and "cl_ListKRMSyncers (dr_LocalClient r) w = (x, w')"
    then show "?J cache w'" using reads_keepD(2) [OF assms(2)] by blast
  qed (use assms(5,6) in blast)+
  then show ?thesis using rec by simp
qed

end
