(* ===== verification/ApiServer.thy ===== *)
theory ApiServer
  imports DynamicReconcile
begin

text \<open>
  The abstract specification of syncing one object: what is stored on the destination afterwards.
  The destination's API server is code the program does not contain; \<open>server_laws\<close> states what is
  documented of its calls, for calls that succeed: a read returns what is stored and changes
  nothing, applying stores the answer under the identity of the object sent and the answer has all
  applied fields, applying to the status subresource changes only the status, and creating a
  namespace touches no other object. Calls may fail at any time.
\<close>

section \<open>Applied fields\<close>

text \<open>Server-side apply merges: what was applied is included in the result, which may have more.\<close>

inductive included :: "json \<Rightarrow> json \<Rightarrow> bool" where
  same: "included v v"
| fields: "\<forall>k v. a k = Some v \<longrightarrow> (\<exists>v'. b k = Some v' \<and> included v v') \<Longrightarrow> included (JObject a) (JObject b)"
| elements: "\<forall>x \<in> set xs. \<exists>y \<in> set ys. included x y \<Longrightarrow> included (JArray xs) (JArray ys)"

inductive_simps included_simps [simp]:
  "included JNull w" "included (JBool b) w" "included (JInt n) w" "included (JFloat f) w"
  "included (JString s) w"

definition applied :: "json option \<Rightarrow> json option \<Rightarrow> bool" where
  "applied v w \<longleftrightarrow> (case v of None \<Rightarrow> True | Some x \<Rightarrow> (case w of None \<Rightarrow> False | Some y \<Rightarrow> included x y))"

lemma applied_same: "applied v v"
  by (simp add: applied_def included.same split: option.split)

section \<open>The laws\<close>

type_synonym identity = "GroupVersionKind \<times> NamespacedName"

definition identity :: "apimachinery \<Rightarrow> jobject \<Rightarrow> identity" where
  "identity am m = (GetGVK am m, objectKey am m)"

definition namespaceGVK :: GroupVersionKind where
  "namespaceGVK = \<lparr>gvk_Group = [], gvk_Version = ''v1'', gvk_Kind = ''Namespace''\<rparr>"

text \<open>\<open>stored w i\<close> is the object the server has under an identity.\<close>

definition read_laws :: "apimachinery \<Rightarrow> 'w client \<Rightarrow> ('w \<Rightarrow> identity \<Rightarrow> jobject option) \<Rightarrow> bool" where
  "read_laws am cl stored \<longleftrightarrow>
     (\<forall>gvk key w r w'. cl_Get cl gvk key w = (r, w') \<longrightarrow> stored w' = stored w \<and>
        (case r of Inl e \<Rightarrow> True | Inr m \<Rightarrow> stored w (gvk, key) = Some m)) \<and>
     (\<forall>ns w r w'. cl_GetNamespace cl ns w = (r, w') \<longrightarrow> stored w' = stored w) \<and>
     (\<forall>ns w r w' i. cl_CreateNamespace cl ns w = (r, w') \<longrightarrow> fst i \<noteq> namespaceGVK \<longrightarrow> stored w' i = stored w i)"

definition apply_laws :: "apimachinery \<Rightarrow> 'w client \<Rightarrow> ('w \<Rightarrow> identity \<Rightarrow> jobject option) \<Rightarrow> bool" where
  "apply_laws am cl stored \<longleftrightarrow>
     (\<forall>opts m w m' w'. cl_PatchApply cl opts m w = (Inr m', w') \<longrightarrow>
        stored w' = (stored w)(identity am m \<mapsto> m') \<and> identity am m' = identity am m \<and>
        (\<forall>k. k \<noteq> ''metadata'' \<and> k \<noteq> ''status'' \<longrightarrow> applied (m k) (m' k))) \<and>
     (\<forall>opts m w m' w'. cl_StatusPatchApply cl opts m w = (Inr m', w') \<longrightarrow>
        stored w' = (stored w)(identity am m \<mapsto> m') \<and> applied (m ''status'') (m' ''status'') \<and>
        (\<exists>old. stored w (identity am m) = Some old \<and> (\<forall>k. k \<noteq> ''metadata'' \<and> k \<noteq> ''status'' \<longrightarrow> m' k = old k)))"

text \<open>An object made of the API version, kind, name and namespace of another has its identity.\<close>

definition identity_laws :: "apimachinery \<Rightarrow> bool" where
  "identity_laws am \<longleftrightarrow> (\<forall>m st. identity am (statusObject am m st) = identity am m)"

definition server_laws :: "apimachinery \<Rightarrow> 'w client \<Rightarrow> ('w \<Rightarrow> identity \<Rightarrow> jobject option) \<Rightarrow> bool" where
  "server_laws am cl stored \<longleftrightarrow> read_laws am cl stored \<and> apply_laws am cl stored \<and> identity_laws am"

lemma read_lawsD:
  assumes "read_laws am cl stored"
  shows "cl_Get cl gvk key w = (r, w') \<Longrightarrow> stored w' = stored w"
    and "cl_Get cl gvk key w = (Inr m, w') \<Longrightarrow> stored w (gvk, key) = Some m"
    and "cl_GetNamespace cl ns w = (x, w') \<Longrightarrow> stored w' = stored w"
    and "cl_CreateNamespace cl ns w = (y, w') \<Longrightarrow> fst i \<noteq> namespaceGVK \<Longrightarrow> stored w' i = stored w i"
proof -
  note laws = assms [unfolded read_laws_def]
  note get = laws [THEN conjunct1, rule_format] and ns = laws [THEN conjunct2, THEN conjunct1, rule_format]
    and create = laws [THEN conjunct2, THEN conjunct2, rule_format]
  show "cl_Get cl gvk key w = (r, w') \<Longrightarrow> stored w' = stored w" by (drule get) (erule conjunct1)
  show "cl_Get cl gvk key w = (Inr m, w') \<Longrightarrow> stored w (gvk, key) = Some m" by (drule get) simp
  show "cl_GetNamespace cl ns w = (x, w') \<Longrightarrow> stored w' = stored w" by (rule ns)
  show "cl_CreateNamespace cl ns w = (y, w') \<Longrightarrow> fst i \<noteq> namespaceGVK \<Longrightarrow> stored w' i = stored w i"
    by (rule create)
qed

lemma apply_lawsD:
  assumes "apply_laws am cl stored"
  shows "cl_PatchApply cl opts m w = (Inr m', w') \<Longrightarrow> stored w' = (stored w)(identity am m \<mapsto> m') \<and>
      identity am m' = identity am m \<and> (\<forall>k. k \<noteq> ''metadata'' \<and> k \<noteq> ''status'' \<longrightarrow> applied (m k) (m' k))"
    and "cl_StatusPatchApply cl opts m w = (Inr m', w') \<Longrightarrow>
      stored w' = (stored w)(identity am m \<mapsto> m') \<and> applied (m ''status'') (m' ''status'') \<and>
      (\<exists>old. stored w (identity am m) = Some old \<and> (\<forall>k. k \<noteq> ''metadata'' \<and> k \<noteq> ''status'' \<longrightarrow> m' k = old k))"
proof -
  note laws = assms [unfolded apply_laws_def]
  note patch = laws [THEN conjunct1] and status = laws [THEN conjunct2]
  show "cl_PatchApply cl opts m w = (Inr m', w') \<Longrightarrow> stored w' = (stored w)(identity am m \<mapsto> m') \<and>
      identity am m' = identity am m \<and> (\<forall>k. k \<noteq> ''metadata'' \<and> k \<noteq> ''status'' \<longrightarrow> applied (m k) (m' k))"
    by (rule patch [THEN spec, THEN spec, THEN spec, THEN spec, THEN spec, THEN mp])
  show "cl_StatusPatchApply cl opts m w = (Inr m', w') \<Longrightarrow>
      stored w' = (stored w)(identity am m \<mapsto> m') \<and> applied (m ''status'') (m' ''status'') \<and>
      (\<exists>old. stored w (identity am m) = Some old \<and> (\<forall>k. k \<noteq> ''metadata'' \<and> k \<noteq> ''status'' \<longrightarrow> m' k = old k))"
    by (rule status [THEN spec, THEN spec, THEN spec, THEN spec, THEN spec, THEN mp])
qed

lemma ensureNamespace_stored:
  assumes "read_laws am cl stored" and "ensureNamespace am cl ns w = (r, w')" and "fst i \<noteq> namespaceGVK"
  shows "stored w' i = stored w i"
proof (cases "ns = []")
  case True
  with assms(2) show ?thesis by (simp add: ensureNamespace_def)
next
  case False
  obtain x w1 where get: "cl_GetNamespace cl ns w = (x, w1)" by (metis prod.exhaust)
  obtain y w2 where create: "cl_CreateNamespace cl ns w1 = (y, w2)" by (metis prod.exhaust)
  have "w' = w1 \<or> w' = w2"
    using assms(2) False get create by (auto simp: ensureNamespace_def split: option.splits if_splits)
  then show ?thesis
    using read_lawsD(3) [OF assms(1) get] read_lawsD(4) [OF assms(1) create assms(3)] by auto
qed

section \<open>The sync of one object\<close>

text \<open>What one object's sync may change: only the object itself (and namespaces), which then has the
  selected fields.\<close>

definition synced ::
  "identity \<Rightarrow> json option \<Rightarrow> json option \<Rightarrow> (identity \<Rightarrow> jobject option) \<Rightarrow> (identity \<Rightarrow> jobject option) \<Rightarrow> bool" where
  "synced i spec status before after \<longleftrightarrow>
     (\<forall>j. j \<noteq> i \<and> fst j \<noteq> namespaceGVK \<longrightarrow> after j = before j) \<and>
     (\<exists>m. after i = Some m \<and> applied spec (m ''spec'') \<and> applied status (m ''status''))"

lemma patchObject_synced:
  assumes server: "server_laws am cl stored" and laws: "unstructured_laws am"
    and ok: "patchObject am cl obj w = (None, w')"
  shows "synced (identity am obj) (obj ''spec'') (obj ''status'') (stored w) (stored w')"
proof -
  have apply_l: "apply_laws am cl stored" and ident: "identity_laws am"
    using server by (simp_all add: server_laws_def)
  have status: "NestedFieldCopy am obj [''status''] = Inr (obj ''status'')"
    using laws by (simp split: option.split)
  from ok status obtain m w1 where patch: "cl_PatchApply cl patchOpts obj w = (Inr m, w1)"
    by (auto simp: patchObject_def split: sum.splits prod.splits)
  have 1: "stored w1 = (stored w)(identity am obj \<mapsto> m)" "identity am m = identity am obj"
    "applied (obj ''spec'') (m ''spec'')"
    using apply_lawsD(1) [OF apply_l patch] by simp_all
  show ?thesis
  proof (cases "obj ''status''")
    case None
    with ok status patch have "w' = w1" by (simp add: patchObject_def)
    with 1 None show ?thesis by (simp add: synced_def applied_def)
  next
    case (Some st)
    with ok status patch obtain m' where sp: "cl_StatusPatchApply cl patchOpts (statusObject am m st) w1 = (Inr m', w')"
      by (auto simp: patchObject_def split: sum.splits prod.splits)
    have "stored w' = (stored w1)(identity am (statusObject am m st) \<mapsto> m') \<and>
      applied (statusObject am m st ''status'') (m' ''status'') \<and>
      (\<exists>old. stored w1 (identity am (statusObject am m st)) = Some old \<and>
        (\<forall>k. k \<noteq> ''metadata'' \<and> k \<noteq> ''status'' \<longrightarrow> m' k = old k))"
      by (rule apply_lawsD(2) [OF apply_l sp])
    moreover have "identity am (statusObject am m st) = identity am obj"
      using ident 1(2) by (simp add: identity_laws_def)
    ultimately have 2: "stored w' = (stored w1)(identity am obj \<mapsto> m')" "applied (Some st) (m' ''status'')"
      "m' ''spec'' = m ''spec''"
      using 1(1) by (auto simp: statusObject_def)
    with 1 Some show ?thesis by (simp add: synced_def)
  qed
qed

lemma apply_synced:
  assumes server: "server_laws am cl stored" and laws: "unstructured_laws am"
    and gvk: "GetGVK am obj \<noteq> namespaceGVK"
    and ok: "applyToDestination am cl obj w = (None, w')"
  shows "synced (identity am obj) (obj ''spec'') (obj ''status'') (stored w) (stored w')"
proof -
  from ok obtain w1 where ns: "ensureNamespace am cl (GetNamespace am obj) w = (None, w1)"
    and patch: "patchObject am cl obj w1 = (None, w')"
    by (auto simp: applyToDestination_def split: prod.splits option.splits)
  have "stored w1 j = stored w j" if "fst j \<noteq> namespaceGVK" for j
    using ensureNamespace_stored [OF _ ns that] server by (simp add: server_laws_def)
  with patchObject_synced [OF server laws patch] show ?thesis by (simp add: synced_def)
qed

text \<open>Refinement of the abstract sync. Against a server with the documented semantics of server-side
  apply, a sync that reports success leaves the selected \<^verbatim>\<open>spec\<close> and \<^verbatim>\<open>status\<close> of the source object in
  the destination object of the same kind, namespace and name, changes no other object (but for
  namespaces), and, unless the whole \<^verbatim>\<open>spec\<close> is synced, only does so for an object that was there.\<close>

lemma sync_refines:
  assumes server: "server_laws am cl stored" and laws: "unstructured_laws am"
    and enum: "set flds \<subseteq> syncFieldEnum"
    and gvk: "gvk_plain (GetGVK am u)" "GetGVK am u \<noteq> namespaceGVK"
    and ok: "syncToDestination am gvk k flds u cl w = (None, w')"
  shows "synced (identity am u) (selectedSpec u (set flds)) (selectedStatus u (set flds)) (stored w) (stored w') \<and>
    (''spec'' \<notin> set flds \<longrightarrow> stored w (identity am u) \<noteq> None)"
proof -
  obtain dest w1 where dest: "filterFields am u flds = Inr dest"
    and app: "applyToDestination am cl (prepareForDestination am dest) w1 = (None, w')"
    and start: "if isFullSync flds then w1 = w
      else destinationExists am cl (prepareForDestination am dest) w = (Inr True, w1)"
    using sync_success [OF ok] by blast
  let ?obj = "prepareForDestination am dest"
  note prep = prepared_object [OF laws enum gvk(1) dest refl]
  have reads: "read_laws am cl stored" using server by (simp add: server_laws_def)
  have id: "identity am ?obj = identity am u" using prep by (simp add: identity_def)
  have exists: "stored w1 = stored w \<and> (''spec'' \<notin> set flds \<longrightarrow> stored w (identity am u) \<noteq> None)"
  proof (cases "isFullSync flds")
    case True
    with start show ?thesis by (simp add: isFullSync_iff)
  next
    case False
    with start obtain m where get: "cl_Get cl (GetGVK am ?obj) (objectKey am ?obj) w = (Inr m, w1)"
      by (auto simp: destinationExists_def split: prod.splits sum.splits if_splits)
    from read_lawsD(1,2) [OF reads get] id show ?thesis by (simp add: identity_def)
  qed
  have "synced (identity am ?obj) (?obj ''spec'') (?obj ''status'') (stored w1) (stored w')"
    by (rule apply_synced [OF server laws _ app]) (use prep gvk(2) in simp)
  with prep id exists show ?thesis by simp
qed

section \<open>A whole reconcile\<close>

text \<open>A reconcile that reports success ran all applicable rules without an error.\<close>

lemma successful_reconcile:
  assumes "readSource am r req (ss_world s) = (Inr source, w1)"
    and "cl_ListKRMSyncers (dr_LocalClient r) w1 = (Inr krmsyncers, w2)"
    and "DynamicReconcile am newClient r req s = (None, s')"
  shows "\<exists>outs. runRules am newClient r req source (applicable r req krmsyncers) (ss_remoteClients s, w2)
      = (outs, ss_remoteClients s', ss_world s') \<and> non_nil outs = []"
proof -
  obtain outs cache w3 where run: "runRules am newClient r req source (applicable r req krmsyncers) (ss_remoteClients s, w2)
      = (outs, cache, w3)" by (metis prod.exhaust)
  have "fold (syncSyncer am newClient r req source) krmsyncers ([], ss_remoteClients s, w2) = (non_nil outs, cache, w3)"
    using loops_run_applicable [of am newClient r req source krmsyncers "(ss_remoteClients s, w2)"] run by simp
  with assms run show ?thesis
    by (auto simp: DynamicReconcile_def reportSucceeded_def Let_def errors_Join_map_Some split: if_splits prod.splits)
qed

text \<open>Listing the KRMSyncers and reading the source do not change what the destination stores.\<close>

definition quiet_reads :: "('w, 't) DynamicResourceReconciler \<Rightarrow> ('w \<Rightarrow> identity \<Rightarrow> jobject option) \<Rightarrow> bool" where
  "quiet_reads r stored \<longleftrightarrow>
     (\<forall>w. stored (snd (cl_ListKRMSyncers (dr_LocalClient r) w)) = stored w) \<and>
     (\<forall>gvk key w. stored (snd (cl_Get (dr_RemoteClient r) gvk key w)) = stored w)"

definition untouched :: "identity \<Rightarrow> (identity \<Rightarrow> jobject option) \<Rightarrow> (identity \<Rightarrow> jobject option) \<Rightarrow> bool" where
  "untouched i before after \<longleftrightarrow> (\<forall>j. j \<noteq> i \<and> fst j \<noteq> namespaceGVK \<longrightarrow> after j = before j)"

lemma untouched_trans: "untouched i a b \<Longrightarrow> untouched i b c \<Longrightarrow> untouched i a c"
  by (simp add: untouched_def)

lemma synced_iff:
  "synced i spec status before after \<longleftrightarrow> untouched i before after \<and>
     (\<exists>m. after i = Some m \<and> applied spec (m ''spec'') \<and> applied status (m ''status''))"
  by (simp add: synced_def untouched_def)

lemma runRule_pull:
  assumes mode: "dr_Mode r = ModePull"
    and run: "runRule am newClient r req (Some u) k rule (cache, w) = (None, cache', w')"
  shows "syncToDestination am (dr_GVK r) k (rule_SyncFields rule) u (dr_LocalClient r) w = (None, w')"
  using run mode by (auto simp: runRule_def carryOut_def split: prod.splits)

lemma runRules_pull:
  assumes server: "server_laws am (dr_LocalClient r) stored" and laws: "unstructured_laws am"
    and mode: "dr_Mode r = ModePull" and gvk: "gvk_plain (GetGVK am u)" "GetGVK am u \<noteq> namespaceGVK"
    and enum: "\<forall>(k, rule) \<in> set pairs. set (rule_SyncFields rule) \<subseteq> syncFieldEnum"
    and run: "runRules am newClient r req (Some u) pairs (cache, w) = (outs, cache', w')"
    and ok: "non_nil outs = []"
  shows "untouched (identity am u) (stored w) (stored w')"
proof -
  have "untouched (identity am u) (stored w) (stored (snd (cache', w'))) \<or> \<not> list_all (\<lambda>out. out = None) outs"
    using run enum unfolding runRules_def
  proof (induction pairs arbitrary: cache w outs)
    case Nil
    then show ?case by (simp add: untouched_def)
  next
    case (Cons p pairs)
    obtain k rule where p: "p = (k, rule)" by (cases p)
    obtain out c1 w1 where 1: "runRule am newClient r req (Some u) k rule (cache, w) = (out, c1, w1)" by (metis prod.exhaust)
    obtain outs1 s1 where 2: "run_all (\<lambda>(k, rule). runRule am newClient r req (Some u) k rule) pairs (c1, w1) = (outs1, s1)"
      by (metis prod.exhaust)
    from Cons.prems(1) 1 2 p have o: "outs = out # outs1" "s1 = (cache', w')" by simp_all
    show ?case
    proof (cases "out = None")
      case True
      from runRule_pull [OF mode 1 [unfolded True]] Cons.prems(2) p
      have "untouched (identity am u) (stored w) (stored w1)"
        using sync_refines [OF server laws _ gvk] by (auto simp: synced_iff)
      with Cons.IH [OF 2 [unfolded o(2)]] Cons.prems(2) o show ?thesis by (auto intro: untouched_trans)
    qed (simp add: o)
  qed
  with ok show ?thesis by (simp add: non_nil_empty_iff list_all_iff)
qed


section \<open>Deletion\<close>

text \<open>What is documented of deleting: after a delete that succeeds, or finds nothing, the object counts as
  deleted, which with finalizers may mean that it is still there but terminating. Nothing
  deleted comes back by deleting.\<close>

definition delete_laws :: "apimachinery \<Rightarrow> 'w client \<Rightarrow> ('w \<Rightarrow> identity \<Rightarrow> bool) \<Rightarrow> bool" where
  "delete_laws am cl deleted \<longleftrightarrow>
     (\<forall>obj w r w'. cl_Delete cl obj w = (r, w') \<longrightarrow>
        ((case r of None \<Rightarrow> True | Some e \<Rightarrow> IsNotFound am e) \<longrightarrow> deleted w' (identity am obj)) \<and>
        (\<forall>i. deleted w i \<longrightarrow> deleted w' i))"

lemma delete_lawsD:
  assumes "delete_laws am cl deleted" and "cl_Delete cl obj w = (r, w')"
  shows "(case r of None \<Rightarrow> True | Some e \<Rightarrow> IsNotFound am e) \<Longrightarrow> deleted w' (identity am obj)"
    and "deleted w i \<Longrightarrow> deleted w' i"
  using assms unfolding delete_laws_def by blast+

lemma toDelete_identity:
  assumes laws: "unstructured_laws am" and plain: "gvk_plain gvk"
  shows "identity am (toDelete am gvk req) = (gvk, req)"
proof -
  have "GetGVK am (toDelete am gvk req) = gvk"
    by (rule GetGVK_SetGVK [OF laws plain, of _ Map.empty]) (simp_all add: toDelete_def laws)
  moreover have "objectKey am (toDelete am gvk req) = req"
    by (cases req) (simp add: objectKey_def toDelete_def laws)
  ultimately show ?thesis by (simp add: identity_def)
qed

lemma carryOut_deletes:
  assumes del: "delete_laws am cl deleted" and laws: "unstructured_laws am" and plain: "gvk_plain gvk"
    and run: "carryOut am gvk req None k rule cl w = (res, w')"
  shows "res = None \<Longrightarrow> deleted w' (gvk, req)" and "deleted w i \<Longrightarrow> deleted w' i"
proof -
  obtain x w1 where x: "cl_Delete cl (toDelete am gvk req) w = (x, w1)" by (metis prod.exhaust)
  note d = delete_lawsD [OF del x, unfolded toDelete_identity [OF laws plain]]
  from run x have res: "w' = w1" "res = (case x of None \<Rightarrow> None | Some e \<Rightarrow> if IsNotFound am e then None else Some e)"
    by (auto simp: carryOut_def deleteOnDestination_def split: option.splits)
  with d(1) show "res = None \<Longrightarrow> deleted w' (gvk, req)" by (auto split: option.splits if_splits)
  from d(2) res show "deleted w i \<Longrightarrow> deleted w' i" by simp
qed

lemma runRule_pull_deletes:
  assumes mode: "dr_Mode r = ModePull" and del: "delete_laws am (dr_LocalClient r) deleted"
    and laws: "unstructured_laws am" and plain: "gvk_plain (dr_GVK r)"
    and run: "runRule am newClient r req None k rule s = (res, s')"
  shows "res = None \<Longrightarrow> deleted (snd s') (dr_GVK r, req)" and "deleted (snd s) i \<Longrightarrow> deleted (snd s') i"
  using carryOut_deletes [OF del laws plain] run mode
  by (cases s; auto simp: runRule_def split: prod.splits)+


end
