(* ===== verification/ExampleCluster.thy ===== *)
theory ExampleCluster
  imports ExampleMachinery ApiServer
begin

text \<open>
  Two concrete API servers, a source and a destination, for the theorems about syncing: a server
  keeps its objects by kind and key and a set of namespaces, applying merges the top-level fields,
  and missing objects are not-found errors. The KRMSyncers are those of the destination.
\<close>

section \<open>The servers\<close>

datatype side = Source | Destination

record ex_world =
  ew_objects :: "side \<Rightarrow> GroupVersionKind \<times> NamespacedName \<Rightarrow> jobject option"
  ew_namespaces :: "side \<Rightarrow> string set"
  ew_syncers :: "KRMSyncer list"

definition exNotFound :: goerror where
  "exNotFound = StatusError ''NotFound'' ''not found''"

definition exId :: "jobject \<Rightarrow> GroupVersionKind \<times> NamespacedName" where
  "exId = identity ex_am"

definition exPut :: "side \<Rightarrow> GroupVersionKind \<times> NamespacedName \<Rightarrow> jobject option \<Rightarrow> ex_world \<Rightarrow> ex_world" where
  "exPut s i v w = w\<lparr>ew_objects := (ew_objects w)(s := (ew_objects w s)(i := v))\<rparr>"

definition exApply :: "side \<Rightarrow> patch_options \<Rightarrow> jobject \<Rightarrow> (ex_world, jobject result) io" where
  "exApply s opts obj w =
     (let old = (case ew_objects w s (exId obj) of None \<Rightarrow> Map.empty | Some m \<Rightarrow> m); 
          new = (old |` (- {''apiVersion'', ''kind'', ''metadata''})) ++ obj in
      (Inr new, exPut s (exId obj) (Some new) w))"

definition exApplyStatus :: "side \<Rightarrow> patch_options \<Rightarrow> jobject \<Rightarrow> (ex_world, jobject result) io" where
  "exApplyStatus s opts obj w =
     (case ew_objects w s (exId obj) of
        None \<Rightarrow> (Inl exNotFound, w)
      | Some old \<Rightarrow>
          (let new = old(''status'' := obj ''status'') in (Inr new, exPut s (exId obj) (Some new) w)))"

definition exClient :: "side \<Rightarrow> ex_world client" where
  "exClient s =
     \<lparr>cl_Get = (\<lambda>gvk key w. (case ew_objects w s (gvk, key) of None \<Rightarrow> Inl exNotFound | Some m \<Rightarrow> Inr m, w)),
      cl_Delete = (\<lambda>obj w. (if ew_objects w s (exId obj) = None then (Some exNotFound, w)
                           else (None, exPut s (exId obj) None w))),
      cl_PatchApply = exApply s,
      cl_StatusPatchApply = exApplyStatus s,
      cl_GetNamespace = (\<lambda>ns w. (if ns \<in> ew_namespaces w s then None else Some exNotFound, w)),
      cl_CreateNamespace = (\<lambda>ns w. (None, w\<lparr>ew_namespaces := (ew_namespaces w)(s := insert ns (ew_namespaces w s))\<rparr>)),
      cl_ListKRMSyncers = (\<lambda>w. (Inr (ew_syncers w), w)),
      cl_GetKRMSyncer = (\<lambda>key w. (case find (\<lambda>k. ObjectKeyFromKRMSyncer k = key) (ew_syncers w) of
                                   None \<Rightarrow> Inl exNotFound | Some k \<Rightarrow> Inr k, w)),
      cl_StatusUpdateKRMSyncer = (\<lambda>k w. (None, w))\<rparr>"

text \<open>The calls of one side's client leave the objects of the other side alone.\<close>

lemma exClient_other_side:
  assumes "s \<noteq> t"
  shows "calls_keep (\<lambda>w. ew_objects w s = objs) (exClient t)"
  using assms
  by (auto simp: calls_keep_def reads_keep_def exClient_def exApply_def exApplyStatus_def exPut_def Let_def
      split: option.split)

text \<open>The servers have the semantics the syncing theorems ask for.\<close>

lemma exId_fields:
  assumes "m ''apiVersion'' = m' ''apiVersion''" and "m ''kind'' = m' ''kind''" and "m ''metadata'' = m' ''metadata''"
  shows "exId m = exId m'"
  using assms by (simp add: exId_def identity_def objectKey_def ex_am_def ex_meta_def split: sum.split)

lemma ex_identity_laws: "identity_laws ex_am"
  by (simp add: identity_laws_def identity_def objectKey_def statusObject_def ex_am_def ex_meta_def ex_str_def
      split: sum.split)

lemma exApply_keeps_identity:
  "exId ((old |` (- {''apiVersion'', ''kind'', ''metadata''})) ++ obj) = exId obj"
  by (rule exId_fields) (simp_all add: map_add_def split: option.split)

lemma ex_apply_laws: "apply_laws ex_am (exClient s) (\<lambda>w. ew_objects w s)"
  unfolding apply_laws_def
proof (intro conjI allI impI)
  fix opts m w m' w'
  assume "cl_PatchApply (exClient s) opts m w = (Inr m', w')"
  then have eq: "m' = ((case ew_objects w s (exId m) of None \<Rightarrow> Map.empty | Some old \<Rightarrow> old)
      |` (- {''apiVersion'', ''kind'', ''metadata''})) ++ m" "w' = exPut s (exId m) (Some m') w"
    by (auto simp: exClient_def exApply_def Let_def)
  then show "ew_objects w' s = (ew_objects w s)(identity ex_am m \<mapsto> m')"
    by (simp add: exPut_def exId_def)
  show "identity ex_am m' = identity ex_am m"
    using exApply_keeps_identity unfolding eq(1) exId_def by blast
  show "applied (m k) (m' k)" for k
    unfolding eq(1) by (cases "m k") (simp_all add: applied_def included.same map_add_Some_iff)
next
  fix opts m w m' w'
  assume "cl_StatusPatchApply (exClient s) opts m w = (Inr m', w')"
  then obtain old where eq: "ew_objects w s (exId m) = Some old" "m' = old(''status'' := m ''status'')"
    "w' = exPut s (exId m) (Some m') w"
    by (auto simp: exClient_def exApplyStatus_def Let_def split: option.splits)
  then show "ew_objects w' s = (ew_objects w s)(identity ex_am m \<mapsto> m')"
    and "applied (m ''status'') (m' ''status'')"
    and "\<exists>old. ew_objects w s (identity ex_am m) = Some old \<and>
      (\<forall>k. k \<noteq> ''metadata'' \<and> k \<noteq> ''status'' \<longrightarrow> m' k = old k)"
    by (simp_all add: exPut_def exId_def applied_same)
qed

lemma ex_read_laws: "read_laws ex_am (exClient s) (\<lambda>w. ew_objects w s)"
  by (auto simp: read_laws_def exClient_def split: option.splits)

lemma ex_server_laws: "server_laws ex_am (exClient s) (\<lambda>w. ew_objects w s)"
  by (simp add: server_laws_def ex_apply_laws ex_read_laws ex_identity_laws)

section \<open>The objects\<close>

definition exGVK :: GroupVersionKind where
  "exGVK = \<lparr>gvk_Group = ''example.com'', gvk_Version = ''v1'', gvk_Kind = ''Widget''\<rparr>"

definition exObjKey :: NamespacedName where
  "exObjKey = \<lparr>nn_Namespace = ''ns'', nn_Name = ''w''\<rparr>"

definition exObject :: jobject where
  "exObject = [''apiVersion'' \<mapsto> JString ''example.com/v1'', ''kind'' \<mapsto> JString ''Widget'',
     ''metadata'' \<mapsto> JObject [''name'' \<mapsto> JString ''w'', ''namespace'' \<mapsto> JString ''ns'', ''uid'' \<mapsto> JString ''1''],
     ''spec'' \<mapsto> JObject [''resourceID'' \<mapsto> JString ''r'', ''size'' \<mapsto> JInt 3],
     ''status'' \<mapsto> JString ''ready'', ''data'' \<mapsto> JString ''other'']"

definition exRule :: "string list \<Rightarrow> ResourceRule" where
  "exRule flds = \<lparr>rule_Group = ''example.com'', rule_Version = ''v1'', rule_Kind = ''Widget'',
     rule_Namespaces = [''ns''], rule_SyncFields = flds\<rparr>"

definition exSyncer :: "Mode \<Rightarrow> string list \<Rightarrow> KRMSyncer" where
  "exSyncer mode flds = \<lparr>ks_Namespace = ''default'', ks_Name = ''sync'',
     ks_Spec = \<lparr>spec_Suspend = False, spec_Mode = mode, spec_Remote = None, spec_Rules = [exRule flds]\<rparr>,
     ks_Conditions = []\<rparr>"

definition exWorld :: "KRMSyncer list \<Rightarrow> ex_world" where
  "exWorld ks = \<lparr>ew_objects = (\<lambda>_. Map.empty)(Source := [(exGVK, exObjKey) \<mapsto> exObject]),
     ew_namespaces = (\<lambda>_. {}), ew_syncers = ks\<rparr>"

text \<open>A provider that knows one connection.\<close>

definition exProvider :: "(ex_world, unit) RemoteConfigProvider" where
  "exProvider = \<lparr>rp_Key = (\<lambda>ns remote. Inr ''k''),
     rp_RESTConfig = (\<lambda>ns remote w. (Inr \<lparr>rc_Host = ''https://h'', rc_CAData = [], rc_Timeout = 0, rc_Wrappers = []\<rparr>, w))\<rparr>"

definition exDestClient :: "unit rest_config \<Rightarrow> (ex_world, ex_world client result) io" where
  "exDestClient cfg w = (Inr (exClient Destination), w)"

text \<open>The reconciler of a pull watch (the local cluster is the destination) and of a push watch (the local
  cluster is the source).\<close>

definition exPuller :: "(ex_world, unit) DynamicResourceReconciler" where
  "exPuller = \<lparr>dr_LocalClient = exClient Destination, dr_RemoteClient = exClient Source,
     dr_RemoteConfigProvider = exProvider, dr_GVK = exGVK, dr_Mode = ModePull,
     dr_Remote = \<lparr>rg_Cluster = ''k'', rg_GVK = exGVK\<rparr>\<rparr>"

definition exPusher :: "(ex_world, unit) DynamicResourceReconciler" where
  "exPusher = \<lparr>dr_LocalClient = exClient Source, dr_RemoteClient = exClient Source,
     dr_RemoteConfigProvider = exProvider, dr_GVK = exGVK, dr_Mode = ModePush,
     dr_Remote = \<lparr>rg_Cluster = [], rg_GVK = exGVK\<rparr>\<rparr>"

definition exState :: "ex_world \<Rightarrow> (ex_world, unit) sync_state" where
  "exState w = \<lparr>ss_remoteClients = None, ss_failures = Some (newFailureTracker SetupFailed),
     ss_gauges = (\<lambda>_. 0), ss_world = w\<rparr>"

section \<open>Witnesses: directions\<close>

theorem pull_never_writes_to_source_witness:
  "ew_objects (ss_world (snd (DynamicReconcile ex_am exDestClient exPuller exObjKey
      (exState (exWorld [exSyncer [] [''spec'']]))))) Source = [(exGVK, exObjKey) \<mapsto> exObject]"
proof -
  let ?I = "\<lambda>w. ew_objects w Source = [(exGVK, exObjKey) \<mapsto> exObject]"
  have "\<forall>gvk key w. ?I w \<longrightarrow> ?I (snd (cl_Get (dr_RemoteClient exPuller) gvk key w))"
    by (simp add: exPuller_def exClient_def)
  moreover have "calls_keep ?I (dr_LocalClient exPuller)"
    using exClient_other_side [of Source Destination] by (simp add: exPuller_def)
  ultimately show ?thesis
    by (intro pull_never_writes_to_source [where I = ?I]) (simp_all add: exPuller_def exState_def exWorld_def)
qed

theorem push_never_writes_to_source_witness:
  "ew_objects (ss_world (snd (DynamicReconcile ex_am exDestClient exPusher exObjKey
      (exState (exWorld [exSyncer ''push'' [''spec'']]))))) Source = [(exGVK, exObjKey) \<mapsto> exObject]"
proof -
  let ?I = "\<lambda>w. ew_objects w Source = [(exGVK, exObjKey) \<mapsto> exObject]"
  have "reads_keep ?I (exClient Source)"
    by (simp add: reads_keep_def exClient_def)
  moreover have "connections_keep ?I exDestClient exProvider"
    using exClient_other_side [of Source Destination]
    by (simp add: connections_give_def exDestClient_def exProvider_def)
  ultimately show ?thesis
    by (intro push_never_writes_to_source [where I = ?I])
      (simp_all add: exPusher_def exState_def exWorld_def cache_gives_def)
qed

section \<open>Witnesses: reconciles\<close>

lemma ex_read: "readSource ex_am exPuller exObjKey (exWorld ks) = (Inr (Some exObject), exWorld ks)"
  by (simp add: readSource_def exPuller_def exClient_def exWorld_def)

lemma ex_list: "cl_ListKRMSyncers (dr_LocalClient exPuller) (exWorld ks) = (Inr ks, exWorld ks)"
  by (simp add: exPuller_def exClient_def exWorld_def)

lemma ex_applicable:
  "applicable exPuller exObjKey [exSyncer [] flds] = [(exSyncer [] flds, exRule flds)]"
  by (simp add: applicable_def syncerApplies_def ruleApplies_def exPuller_def exSyncer_def exRule_def
      syncerMode_def exProvider_def ruleMatchesGVK_def isKCCGlob_def exGVK_def exObjKey_def)

theorem every_applicable_rule_is_tried_witness:
  "\<exists>out. fst (DynamicReconcile ex_am exDestClient exPuller exObjKey (exState (exWorld [exSyncer [] [''spec'']])))
     = errors_Join [out]"
proof -
  let ?ks = "[exSyncer [] [''spec'']]"
  obtain outs cache w3 where run: "runRules ex_am exDestClient exPuller exObjKey (Some exObject)
      (applicable exPuller exObjKey ?ks) (None, exWorld ?ks) = (outs, cache, w3)" by (metis prod.exhaust)
  have state: "ss_world (exState (exWorld ?ks)) = exWorld ?ks" "ss_remoteClients (exState (exWorld ?ks)) = None"
    by (simp_all add: exState_def)
  from every_applicable_rule_is_tried [of ex_am exPuller exObjKey "exState (exWorld ?ks)", unfolded state, OF ex_read ex_list run]
  have "length outs = 1" "fst (DynamicReconcile ex_am exDestClient exPuller exObjKey (exState (exWorld ?ks))) = errors_Join outs"
    by (simp_all add: ex_applicable)
  then show ?thesis by (auto simp: length_Suc_conv)
qed

theorem metric_follows_result_witness:
  "\<exists>s'. DynamicReconcile ex_am exDestClient exPuller exObjKey (exState (exWorld [])) = (None, s') \<and>
     failing (ss_failures s') = {}"
proof -
  have "DynamicReconcile ex_am exDestClient exPuller exObjKey (exState (exWorld []))
      = (None, reportSucceeded exObjKey (exState (exWorld [])))"
    using unmatched_object_is_left_alone [of ex_am exPuller exObjKey "exState (exWorld [])" "Some exObject" "exWorld []" "[]" "exWorld []" exDestClient]
      ex_read ex_list by (simp add: exState_def)
  moreover from metric_follows_result [OF _ this] have "failing (ss_failures (reportSucceeded exObjKey (exState (exWorld [])))) = {}"
    by (auto simp: exState_def newFailureTracker_def)
  ultimately show ?thesis by simp
qed

theorem status_sync_creates_nothing_witness:
  "\<exists>dest. filterFields ex_am exObject [''status''] = Inr dest \<and>
     snd (syncToDestination ex_am exGVK (exSyncer [] [''status'']) [''status''] exObject (exClient Destination) (exWorld []))
       = exWorld []"
proof -
  obtain dest where dest: "filterFields ex_am exObject [''status''] = Inr dest"
    using filterFields_total [OF ex_unstructured_laws, of "[''status'']" exObject] by (auto simp: syncFieldEnum_def)
  have "cl_Get (exClient Destination) gvk key (exWorld []) = (Inl exNotFound, exWorld [])" for gvk key
    by (simp add: exClient_def exWorld_def)
  from status_sync_creates_nothing [OF _ dest this, of exGVK "exSyncer [] [''status'']"] dest show ?thesis
    by (simp add: exNotFound_def ex_am_def ex_NotFound_def)
qed

theorem deletion_is_propagated_witness:
  "carryOut ex_am exGVK exObjKey None (exSyncer [] []) (exRule []) (exClient Destination) (exWorld []) = (None, exWorld []) \<and>
   GetGVK ex_am (toDelete ex_am exGVK exObjKey) = exGVK"
proof -
  have "cl_Delete (exClient Destination) obj (exWorld []) = (Some exNotFound, exWorld [])" for obj
    by (simp add: exClient_def exWorld_def)
  from deletion_is_propagated [OF ex_unstructured_laws _ this, of exGVK exObjKey "exSyncer [] []" "exRule []"]
  show ?thesis by (simp add: gvk_plain_def exGVK_def exNotFound_def ex_am_def ex_NotFound_def)
qed

lemma exObject_identity: "identity ex_am exObject = (exGVK, exObjKey)"
proof -
  have "ex_ParseGroupVersion ''example.com/v1'' = Inr (''example.com'', ''v1'')"
    by (simp add: ex_ParseGroupVersion_def)
  then show ?thesis
    by (simp add: identity_def objectKey_def ex_am_def exObject_def ex_str_def ex_meta_def exGVK_def exObjKey_def)
qed

lemma exObject_facts: "GetGVK ex_am exObject = exGVK" "objectKey ex_am exObject = exObjKey"
  "gvk_plain exGVK" "exGVK \<noteq> namespaceGVK"
  using exObject_identity by (simp_all add: identity_def) (simp_all add: gvk_plain_def exGVK_def namespaceGVK_def)

text \<open>A full sync into an empty destination succeeds.\<close>

lemma ex_apply_succeeds: "\<exists>w'. applyToDestination ex_am (exClient Destination) obj w = (None, w')"
proof -
  obtain x w1 where ns: "ensureNamespace ex_am (exClient Destination) (GetNamespace ex_am obj) w = (x, w1)"
    by (metis prod.exhaust)
  then have "x = None"
    by (auto simp: ensureNamespace_def exClient_def exNotFound_def ex_am_def ex_NotFound_def
        split: if_splits prod.splits option.splits)
  obtain m w2 where p: "cl_PatchApply (exClient Destination) patchOpts obj w1 = (Inr m, w2)"
    by (simp add: exClient_def exApply_def Let_def)
  have st: "NestedFieldCopy ex_am obj [''status''] = Inr (obj ''status'')"
    using ex_unstructured_laws by (simp split: option.split)
  have "\<exists>m' w3. cl_StatusPatchApply (exClient Destination) patchOpts (statusObject ex_am m v) w2 = (Inr m', w3)" for v
  proof -
    have "ew_objects w2 Destination = (ew_objects w1 Destination)(identity ex_am obj \<mapsto> m)"
      and "identity ex_am m = identity ex_am obj"
      using apply_lawsD(1) [OF ex_apply_laws p] by blast+
    moreover have "identity ex_am (statusObject ex_am m v) = identity ex_am m"
      using ex_identity_laws by (simp add: identity_laws_def)
    ultimately have "ew_objects w2 Destination (exId (statusObject ex_am m v)) = Some m" by (simp add: exId_def)
    then show ?thesis by (simp add: exClient_def exApplyStatus_def Let_def)
  qed
  note status = this
  have "\<exists>w'. patchObject ex_am (exClient Destination) obj w1 = (None, w')"
  proof (cases "obj ''status''")
    case None
    with p st show ?thesis by (simp add: patchObject_def)
  next
    case (Some v)
    from status [of v] obtain m' w3 where
      "cl_StatusPatchApply (exClient Destination) patchOpts (statusObject ex_am m v) w2 = (Inr m', w3)" by blast
    with Some p st show ?thesis by (simp add: patchObject_def)
  qed
  with ns \<open>x = None\<close> show ?thesis by (simp add: applyToDestination_def)
qed

lemma ex_sync_succeeds:
  "\<exists>w'. syncToDestination ex_am exGVK k [''spec'', ''status''] exObject (exClient Destination) w = (None, w')"
proof -
  obtain dest where "filterFields ex_am exObject [''spec'', ''status''] = Inr dest"
    using filterFields_total [OF ex_unstructured_laws, of "[''spec'', ''status'']" exObject] by (auto simp: syncFieldEnum_def)
  with ex_apply_succeeds show ?thesis by (simp add: syncToDestination_def Let_def)
qed


text \<open>The widget was deleted on the source and is still on the destination.\<close>

definition exGone :: "KRMSyncer list \<Rightarrow> ex_world" where
  "exGone ks = exPut Source (exGVK, exObjKey) None (exPut Destination (exGVK, exObjKey) (Some exObject) (exWorld ks))"

lemma ex_delete_laws: "delete_laws ex_am (exClient s) (\<lambda>w i. ew_objects w s i = None)"
  by (auto simp: delete_laws_def exClient_def exPut_def exId_def exNotFound_def split: if_splits)


theorem filterFields_sends_exactly_the_selection_witness:
  "\<exists>dest. filterFields ex_am exObject [''status''] = Inr dest \<and>
     prepareForDestination ex_am dest ''spec'' = None \<and>
     prepareForDestination ex_am dest ''status'' = Some (JString ''ready'') \<and>
     objectKey ex_am (prepareForDestination ex_am dest) = exObjKey"
proof -
  have enum: "set [''status''] \<subseteq> syncFieldEnum" by (simp add: syncFieldEnum_def)
  obtain dest where dest: "filterFields ex_am exObject [''status''] = Inr dest"
    using filterFields_total [OF ex_unstructured_laws enum] by auto
  from filterFields_sends_exactly_the_selection [OF ex_unstructured_laws enum _ dest refl] dest show ?thesis
    by (simp add: exObject_facts selectedSpec_def selectedStatus_def) (simp add: exObject_def)
qed

theorem filterFields_succeeds_iff_witness:
  "\<exists>dest. filterFields ex_am exObject [''spec.resourceID'', ''status''] = Inr dest"
proof -
  have "specReadable exObject" by (simp add: specReadable_def exObject_def)
  then show ?thesis
    using filterFields_succeeds_iff [OF ex_unstructured_laws, of "[''spec.resourceID'', ''status'']" exObject]
    by (simp add: syncFieldEnum_def)
qed

theorem apply_success_means_applied_witness:
  "\<exists>w1 obj' w2. cl_PatchApply (exClient Destination) patchOpts exObject w1 = (Inr obj', w2)"
proof -
  obtain w' where "applyToDestination ex_am (exClient Destination) exObject (exWorld []) = (None, w')"
    using ex_apply_succeeds by blast
  from apply_success_means_applied [OF this] show ?thesis by blast
qed

end
