(* ===== verification/SyncerReconcile.thy ===== *)
theory SyncerReconcile
  imports DynamicReconcile
begin

text \<open>
  \<^verbatim>\<open>KRMSyncerReconciler\<close> of \<^verbatim>\<open>syncer/controllers/krmsyncer_controller.go\<close>: the controller that turns the
  rules of a KRMSyncer into watches. It expands the rules, starts one dynamic controller per kind
  (and, in pull mode, per remote cluster), remembers what it started and reports whether the
  setup failed. What it calls of controller-runtime and client-go is the parameter record
  \<open>ctrl_env\<close>.
\<close>

section \<open>State and environment\<close>

record ('w, 't, 'cl) KRMSyncerReconciler =
  kr_Client :: "'w client"
  kr_RemoteConfigProvider :: "('w, 't) RemoteConfigProvider"
  kr_WatchedGVKs :: "GroupVersionKind set"
  kr_WatchedRemoteGVKs :: "RemoteGVK set"
  kr_RemoteClusters :: "string \<Rightarrow> 'cl option"
  kr_SyncPeriod :: "int option"
  kr_setupFailures :: "failureTracker option"
  kr_MaxConcurrentReconciles :: int

text \<open>What is handed to the controller builder: the name, the source of events, the concurrency, the
  reconciler, whether that one shares the push clients, and its new failure tracker.\<close>

datatype 'cl watch_source = LocalSource GroupVersionKind | RemoteSource 'cl GroupVersionKind

record ('w, 't, 'cl) controller_spec =
  cs_Name :: string
  cs_Source :: "'cl watch_source"
  cs_MaxConcurrentReconciles :: int
  cs_Reconciler :: "('w, 't) DynamicResourceReconciler"
  cs_SharesRemoteClients :: bool
  cs_Failures :: failureTracker

record ('w, 't, 'cl, 'd) ctrl_env =
  ce_SetStatusCondition :: "Condition \<Rightarrow> Condition list \<Rightarrow> Condition list"
  ce_ManagerConfig :: "'t rest_config"
  ce_NewDiscoveryClient :: "'t rest_config \<Rightarrow> 'd result"
  ce_ServerPreferredResources :: "'d \<Rightarrow> ('w, APIResourceList list \<times> goerror option) io"
  ce_IsGroupDiscoveryFailedError :: "goerror \<Rightarrow> bool"
  ce_NewCluster :: "int option \<Rightarrow> 't rest_config \<Rightarrow> ('w, 'cl result) io"
  ce_StartCluster :: "'cl \<Rightarrow> 'w \<Rightarrow> 'w"
  ce_WaitForCacheSync :: "'cl \<Rightarrow> ('w, bool) io"
  ce_GetClient :: "'cl \<Rightarrow> 'w client"
  ce_Complete :: "('w, 't, 'cl) controller_spec \<Rightarrow> ('w, goerror option) io"

type_synonym ('w, 't, 'cl) setup_state = "('w, 't, 'cl) KRMSyncerReconciler \<times> 'w"

section \<open>Starting watches\<close>

definition DefaultMaxConcurrentReconciles :: int where
  "DefaultMaxConcurrentReconciles = 10"

definition controllerOptions :: "('w, 't, 'cl) KRMSyncerReconciler \<Rightarrow> int" where
  "controllerOptions r =
     (let n = kr_MaxConcurrentReconciles r in if n \<le> 0 then DefaultMaxConcurrentReconciles else n)"

definition pushController ::
  "('w, 't, 'cl) KRMSyncerReconciler \<Rightarrow> GroupVersionKind \<Rightarrow> ('w, 't, 'cl) controller_spec" where
  "pushController r gvk =
     \<lparr>cs_Name = ''dynamic-watcher-'' @ gvk_Group gvk @ ''-'' @ gvk_Version gvk @ ''-'' @ gvk_Kind gvk,
      cs_Source = LocalSource gvk,
      cs_MaxConcurrentReconciles = controllerOptions r,
      cs_Reconciler =
        \<lparr>dr_LocalClient = kr_Client r, dr_RemoteClient = kr_Client r,
         dr_RemoteConfigProvider = kr_RemoteConfigProvider r, dr_GVK = gvk, dr_Mode = ModePush,
         dr_Remote = \<lparr>rg_Cluster = [], rg_GVK = \<lparr>gvk_Group = [], gvk_Version = [], gvk_Kind = []\<rparr>\<rparr>\<rparr>,
      cs_SharesRemoteClients = True,
      cs_Failures = newFailureTracker (failedObjectsGauge gvk)\<rparr>"

definition startWatcher ::
  "('w, 't, 'cl, 'd) ctrl_env \<Rightarrow> GroupVersionKind \<Rightarrow> ('w, 't, 'cl) setup_state \<Rightarrow>
     goerror option \<times> ('w, 't, 'cl) setup_state" where
  "startWatcher env gvk = (\<lambda>(r, w).
     (case ce_Complete env (pushController r gvk) w of (err, w') \<Rightarrow> (err, r, w')))"

text \<open>Options passed to \<^verbatim>\<open>cluster.New\<close>: the sync period if it is set and positive.\<close>

definition clusterSyncPeriod :: "('w, 't, 'cl) KRMSyncerReconciler \<Rightarrow> int option" where
  "clusterSyncPeriod r = (case kr_SyncPeriod r of
     Some p \<Rightarrow> if p > 0 then Some p else None | None \<Rightarrow> None)"

definition getOrCreateRemoteCluster ::
  "('w, 't, 'cl, 'd) ctrl_env \<Rightarrow> string \<Rightarrow> string \<Rightarrow> RemoteConfig option \<Rightarrow>
     ('w, 't, 'cl) setup_state \<Rightarrow> 'cl result \<times> ('w, 't, 'cl) setup_state" where
  "getOrCreateRemoteCluster env key ns remote = (\<lambda>(r, w).
     (case kr_RemoteClusters r key of
        Some c \<Rightarrow> (Inr c, r, w)
      | None \<Rightarrow>
     (case rp_RESTConfig (kr_RemoteConfigProvider r) ns remote w of
        (Inl e, w1) \<Rightarrow> (Inl e, r, w1)
      | (Inr cfg, w1) \<Rightarrow>
     (case ce_NewCluster env (clusterSyncPeriod r) cfg w1 of
        (Inl e, w2) \<Rightarrow> (Inl e, r, w2)
      | (Inr c, w2) \<Rightarrow>
     (case ce_WaitForCacheSync env c (ce_StartCluster env c w2) of
        (False, w3) \<Rightarrow> (Inl (ErrorString ''failed to sync remote cluster cache''), r, w3)
      | (True, w3) \<Rightarrow>
          (Inr c, r\<lparr>kr_RemoteClusters := (kr_RemoteClusters r)(key \<mapsto> c)\<rparr>, w3))))))"

definition pullController ::
  "('w, 't, 'cl, 'd) ctrl_env \<Rightarrow> ('w, 't, 'cl) KRMSyncerReconciler \<Rightarrow> 'cl \<Rightarrow> RemoteGVK \<Rightarrow>
     ('w, 't, 'cl) controller_spec" where
  "pullController env r remoteCluster rgvk =
     (let gvk = rg_GVK rgvk in
      \<lparr>cs_Name = ''dynamic-puller-'' @ strings_ReplaceAll (rg_Cluster rgvk) (CHR ''/'') (CHR ''-'') @ ''-''
         @ gvk_Group gvk @ ''-'' @ gvk_Version gvk @ ''-'' @ gvk_Kind gvk,
       cs_Source = RemoteSource remoteCluster gvk,
       cs_MaxConcurrentReconciles = controllerOptions r,
       cs_Reconciler =
         \<lparr>dr_LocalClient = kr_Client r, dr_RemoteClient = ce_GetClient env remoteCluster,
          dr_RemoteConfigProvider = kr_RemoteConfigProvider r, dr_GVK = gvk, dr_Mode = ModePull,
          dr_Remote = rgvk\<rparr>,
       cs_SharesRemoteClients = False,
       cs_Failures = newFailureTracker (failedObjectsGauge gvk)\<rparr>)"

definition startRemoteWatcher ::
  "('w, 't, 'cl, 'd) ctrl_env \<Rightarrow> KRMSyncer \<Rightarrow> RemoteGVK \<Rightarrow> ('w, 't, 'cl) setup_state \<Rightarrow>
     goerror option \<times> ('w, 't, 'cl) setup_state" where
  "startRemoteWatcher env krmsyncer rgvk s =
     (case getOrCreateRemoteCluster env (rg_Cluster rgvk) (ks_Namespace krmsyncer)
             (spec_Remote (ks_Spec krmsyncer)) s of
        (Inl e, s1) \<Rightarrow> (Some (ErrorString (''failed to get remote cluster: '' @ err_msg e)), s1)
      | (Inr remoteCluster, r1, w1) \<Rightarrow>
          (case ce_Complete env (pullController env r1 remoteCluster rgvk) w1 of
             (err, w2) \<Rightarrow> (err, r1, w2)))"

section \<open>Setting up a KRMSyncer\<close>

definition watchError :: "apimachinery \<Rightarrow> GroupVersionKind \<Rightarrow> goerror \<Rightarrow> goerror" where
  "watchError am gvk e = WrapError (''watch '' @ GVKString am gvk @ '': '') e"

text \<open>The body of the loop over the kinds of a rule; the error is the one to collect.\<close>

definition setupGVK ::
  "apimachinery \<Rightarrow> ('w, 't, 'cl, 'd) ctrl_env \<Rightarrow> Mode \<Rightarrow> KRMSyncer \<Rightarrow> GroupVersionKind \<Rightarrow>
     ('w, 't, 'cl) setup_state \<Rightarrow> goerror option \<times> ('w, 't, 'cl) setup_state" where
  "setupGVK am env mode krmsyncer gvk = (\<lambda>(r, w).
     (if mode = ModePull then
        (case rp_Key (kr_RemoteConfigProvider r) (ks_Namespace krmsyncer) (spec_Remote (ks_Spec krmsyncer)) of
           Inl e \<Rightarrow> (Some e, r, w)
         | Inr connKey \<Rightarrow>
             (let rgvk = \<lparr>rg_Cluster = connKey, rg_GVK = gvk\<rparr> in
              if rgvk \<notin> kr_WatchedRemoteGVKs r then
                (case startRemoteWatcher env krmsyncer rgvk (r, w) of
                   (Some e, s1) \<Rightarrow> (Some (watchError am gvk e), s1)
                 | (None, r1, w1) \<Rightarrow>
                     (None, r1\<lparr>kr_WatchedRemoteGVKs := insert rgvk (kr_WatchedRemoteGVKs r1)\<rparr>, w1))
              else (None, r, w)))
      else
        (if gvk \<notin> kr_WatchedGVKs r then
           (case startWatcher env gvk (r, w) of
              (Some e, s1) \<Rightarrow> (Some (watchError am gvk e), s1)
            | (None, r1, w1) \<Rightarrow> (None, r1\<lparr>kr_WatchedGVKs := insert gvk (kr_WatchedGVKs r1)\<rparr>, w1))
         else (None, r, w))))"

text \<open>The loop over the rules. The first component of the result is the error of an invalid rule,
  at which the loop returns.\<close>

fun setupRules ::
  "apimachinery \<Rightarrow> ('w, 't, 'cl, 'd) ctrl_env \<Rightarrow> Mode \<Rightarrow> KRMSyncer \<Rightarrow> APIResourceList list \<Rightarrow>
     ResourceRule list \<Rightarrow> goerror list \<times> ('w, 't, 'cl) setup_state \<Rightarrow>
     goerror option \<times> goerror list \<times> ('w, 't, 'cl) setup_state" where
  "setupRules am env mode krmsyncer rls [] s = (None, s)"
| "setupRules am env mode krmsyncer rls (rule # rules) s =
     (case expandRule am rule rls of
        Inl e \<Rightarrow> (Some e, s)
      | Inr gvks \<Rightarrow>
          setupRules am env mode krmsyncer rls rules
            (fold (\<lambda>gvk (errs, st).
                     case setupGVK am env mode krmsyncer gvk st of (err, st') \<Rightarrow> (collect errs err, st'))
               gvks s))"

definition getDiscoveryClient ::
  "('w, 't, 'cl, 'd) ctrl_env \<Rightarrow> KRMSyncer \<Rightarrow> Mode \<Rightarrow> ('w, 't, 'cl) setup_state \<Rightarrow> 'd result \<times> 'w" where
  "getDiscoveryClient env krmsyncer mode = (\<lambda>(r, w).
     (if mode = ModePush then (ce_NewDiscoveryClient env (ce_ManagerConfig env), w)
      else
        (case rp_RESTConfig (kr_RemoteConfigProvider r) (ks_Namespace krmsyncer)
                (spec_Remote (ks_Spec krmsyncer)) w of
           (Inl e, w1) \<Rightarrow> (Inl (WrapError ''remote cluster config for Pull mode: '' e), w1)
         | (Inr cfg, w1) \<Rightarrow>
             (ce_NewDiscoveryClient env (cfg\<lparr>rc_Timeout := 10 * 1000000000\<rparr>), w1))))"

definition needsExpansion :: "ResourceRule list \<Rightarrow> bool" where
  "needsExpansion rules = list_ex hasGlob rules"

text \<open>The resource lists the rules are expanded with: discovery is asked only if a rule needs it, and
  a partial answer is used.\<close>

definition discover ::
  "('w, 't, 'cl, 'd) ctrl_env \<Rightarrow> KRMSyncer \<Rightarrow> Mode \<Rightarrow> ('w, 't, 'cl) setup_state \<Rightarrow>
     APIResourceList list result \<times> 'w" where
  "discover env krmsyncer mode s =
     (if needsExpansion (spec_Rules (ks_Spec krmsyncer)) then
        (case getDiscoveryClient env krmsyncer mode s of
           (Inl e, w1) \<Rightarrow> (Inl e, w1)
         | (Inr dc, w1) \<Rightarrow>
             (case ce_ServerPreferredResources env dc w1 of
                ((rls, None), w2) \<Rightarrow> (Inr rls, w2)
              | ((rls, Some e), w2) \<Rightarrow>
                  if \<not> ce_IsGroupDiscoveryFailedError env e then (Inl e, w2) else (Inr rls, w2)))
      else (Inr [], snd s))"

definition invalidRuleCondition :: "goerror \<Rightarrow> Condition" where
  "invalidRuleCondition e =
     \<lparr>cond_Type = ''InvalidRule'', cond_Status = ''True'', cond_Reason = ''InvalidGlob'', cond_Message = err_msg e\<rparr>"

definition setCondition :: "('w, 't, 'cl, 'd) ctrl_env \<Rightarrow> Condition \<Rightarrow> KRMSyncer \<Rightarrow> KRMSyncer" where
  "setCondition env c krmsyncer =
     krmsyncer\<lparr>ks_Conditions := ce_SetStatusCondition env c (ks_Conditions krmsyncer)\<rparr>"

text \<open>\<^verbatim>\<open>reconcile\<close> without its deferred report: the error, the KRMSyncer with its conditions, and the
  state.\<close>

definition setupWatches ::
  "apimachinery \<Rightarrow> ('w, 't, 'cl, 'd) ctrl_env \<Rightarrow> KRMSyncer \<Rightarrow> ('w, 't, 'cl) setup_state \<Rightarrow>
     goerror option \<times> KRMSyncer \<times> ('w, 't, 'cl) setup_state" where
  "setupWatches am env krmsyncer s =
     (let mode = syncerMode krmsyncer in
      case discover env krmsyncer mode s of
        (Inl e, w1) \<Rightarrow> (Some e, krmsyncer, fst s, w1)
      | (Inr rls, w1) \<Rightarrow>
          (case setupRules am env mode krmsyncer rls (spec_Rules (ks_Spec krmsyncer)) ([], fst s, w1) of
             (Some e, _, s2) \<Rightarrow> (Some e, setCondition env (invalidRuleCondition e) krmsyncer, s2)
           | (None, setupErrs, s2) \<Rightarrow> (errors_Join (map Some setupErrs), krmsyncer, s2)))"

definition reportSetup ::
  "NamespacedName \<Rightarrow> bool \<Rightarrow> ('w, 't, 'cl) KRMSyncerReconciler \<Rightarrow> gauges \<Rightarrow>
     ('w, 't, 'cl) KRMSyncerReconciler \<times> gauges" where
  "reportSetup key isFailure r gs =
     (case (if isFailure then markFailed else markSucceeded) (kr_setupFailures r) key gs of
        (t, gs') \<Rightarrow> (r\<lparr>kr_setupFailures := t\<rparr>, gs'))"

definition reconcile ::
  "apimachinery \<Rightarrow> ('w, 't, 'cl, 'd) ctrl_env \<Rightarrow> KRMSyncer \<Rightarrow>
     ('w, 't, 'cl) KRMSyncerReconciler \<Rightarrow> gauges \<Rightarrow> 'w \<Rightarrow>
     goerror option \<times> KRMSyncer \<times> ('w, 't, 'cl) KRMSyncerReconciler \<times> gauges \<times> 'w" where
  "reconcile am env krmsyncer r gs w =
     (case setupWatches am env krmsyncer (r, w) of
        (err, krmsyncer', r1, w1) \<Rightarrow>
          (case reportSetup (ObjectKeyFromKRMSyncer krmsyncer) (err \<noteq> None) r1 gs of
             (r2, gs') \<Rightarrow> (err, krmsyncer', r2, gs', w1)))"

section \<open>Reconcile\<close>

definition suspendedCondition :: Condition where
  "suspendedCondition =
     \<lparr>cond_Type = ''Suspended'', cond_Status = ''True'', cond_Reason = ''SuspendedBySpec'',
      cond_Message = ''Controller is suspended''\<rparr>"

definition activeCondition :: Condition where
  "activeCondition =
     \<lparr>cond_Type = ''Active'', cond_Status = ''True'', cond_Reason = ''Active'',
      cond_Message = ''Controller is active''\<rparr>"

text \<open>The deferred status update, whose error is only logged.\<close>

definition updateStatus :: "('w, 't, 'cl) KRMSyncerReconciler \<Rightarrow> KRMSyncer \<Rightarrow> 'w \<Rightarrow> 'w" where
  "updateStatus r krmsyncer w = snd (cl_StatusUpdateKRMSyncer (kr_Client r) krmsyncer w)"

definition Reconcile ::
  "apimachinery \<Rightarrow> ('w, 't, 'cl, 'd) ctrl_env \<Rightarrow> NamespacedName \<Rightarrow>
     ('w, 't, 'cl) KRMSyncerReconciler \<Rightarrow> gauges \<Rightarrow> 'w \<Rightarrow>
     goerror option \<times> ('w, 't, 'cl) KRMSyncerReconciler \<times> gauges \<times> 'w" where
  "Reconcile am env req r gs w =
     (case cl_GetKRMSyncer (kr_Client r) req w of
        (Inl e, w1) \<Rightarrow>
          (case (if IsNotFound am e then reportSetup req False r gs else (r, gs)) of
             (r1, gs1) \<Rightarrow> (IgnoreNotFound am e, r1, gs1, w1))
      | (Inr krmsyncer, w1) \<Rightarrow>
          if spec_Suspend (ks_Spec krmsyncer) then
            (case reportSetup req False r gs of
               (r1, gs1) \<Rightarrow> (None, r1, gs1, updateStatus r1 (setCondition env suspendedCondition krmsyncer) w1))
          else
            (case reconcile am env (setCondition env activeCondition krmsyncer) r gs w1 of
               (err, krmsyncer', r1, gs1, w2) \<Rightarrow> (err, r1, gs1, updateStatus r1 krmsyncer' w2)))"

text \<open>\<open>complete\<close> registers the controller for KRMSyncers with the manager. \<open>configured\<close> is the provider set by
  the caller; without one, a GKE provider is used.\<close>

definition SetupWithManager ::
  "(('w, 't, 'cl) KRMSyncerReconciler \<Rightarrow> ('w, goerror option) io) \<Rightarrow> ('w, 't) RemoteConfigProvider \<Rightarrow>
     ('w, 't) RemoteConfigProvider option \<Rightarrow> ('w, 't, 'cl) KRMSyncerReconciler \<Rightarrow> 'w \<Rightarrow>
     goerror option \<times> ('w, 't, 'cl) KRMSyncerReconciler \<times> ('w, 't) remoteClientCache \<times> 'w" where
  "SetupWithManager complete newGKEConfigProvider configured r w =
     (let provider = (case configured of None \<Rightarrow> newGKEConfigProvider | Some p \<Rightarrow> p);
          r1 = r\<lparr>kr_RemoteConfigProvider := provider, kr_WatchedGVKs := {}, kr_WatchedRemoteGVKs := {},
                 kr_RemoteClusters := Map.empty,
                 kr_setupFailures := Some (newFailureTracker SetupFailed)\<rparr> in
      case complete r1 w of (err, w1) \<Rightarrow> (err, r1, newRemoteClientCache provider, w1))"

section \<open>What the steps keep\<close>

interpretation roc: persistent_cache "\<lambda>(key, ns, remote) s. kr_RemoteClusters (fst s) key"
  "\<lambda>(key, ns, remote). getOrCreateRemoteCluster env key ns remote" for env
  by unfold_locales
    (auto simp: getOrCreateRemoteCluster_def split: option.splits sum.splits prod.splits bool.splits)

text \<open>Setup only adds: watches and remote clusters stay, and the configuration of the reconciler and
  its failure tracker are not changed.\<close>

definition grows :: "('w, 't, 'cl) KRMSyncerReconciler \<Rightarrow> ('w, 't, 'cl) KRMSyncerReconciler \<Rightarrow> bool" where
  "grows r r' \<longleftrightarrow> kr_WatchedGVKs r \<subseteq> kr_WatchedGVKs r' \<and> kr_WatchedRemoteGVKs r \<subseteq> kr_WatchedRemoteGVKs r' \<and>
     kr_RemoteClusters r \<subseteq>\<^sub>m kr_RemoteClusters r' \<and>
     kr_RemoteConfigProvider r' = kr_RemoteConfigProvider r \<and> kr_Client r' = kr_Client r \<and>
     kr_MaxConcurrentReconciles r' = kr_MaxConcurrentReconciles r \<and> kr_SyncPeriod r' = kr_SyncPeriod r"

lemma grows_refl [simp, intro]: "grows r r"
  by (simp add: grows_def)

lemma grows_trans [trans]: "grows r r' \<Longrightarrow> grows r' r'' \<Longrightarrow> grows r r''"
  unfolding grows_def by (metis map_le_trans subset_trans)

definition clustersKnown :: "('w, 't, 'cl) KRMSyncerReconciler \<Rightarrow> bool" where
  "clustersKnown r \<longleftrightarrow> (\<forall>rgvk \<in> kr_WatchedRemoteGVKs r. kr_RemoteClusters r (rg_Cluster rgvk) \<noteq> None)"

lemma getOrCreate_facts:
  assumes "getOrCreateRemoteCluster env key ns remote (r, w) = (res, r', w')"
  shows "grows r r'" and "kr_setupFailures r' = kr_setupFailures r"
    and "kr_WatchedRemoteGVKs r' = kr_WatchedRemoteGVKs r"
    and "res = Inr c \<Longrightarrow> kr_RemoteClusters r' key = Some c"
    and "kr_MaxConcurrentReconciles r' = kr_MaxConcurrentReconciles r"
  using assms
  by (auto simp: getOrCreateRemoteCluster_def grows_def map_le_def
      split: option.splits sum.splits prod.splits bool.splits)

lemma startRemoteWatcher_facts:
  assumes "startRemoteWatcher env k rgvk (r, w) = (res, r', w')"
  shows "grows r r'" and "kr_setupFailures r' = kr_setupFailures r"
    and "kr_WatchedRemoteGVKs r' = kr_WatchedRemoteGVKs r"
    and "res = None \<Longrightarrow> kr_RemoteClusters r' (rg_Cluster rgvk) \<noteq> None"
proof -
  obtain x r1 w1 where get: "getOrCreateRemoteCluster env (rg_Cluster rgvk) (ks_Namespace k)
      (spec_Remote (ks_Spec k)) (r, w) = (x, r1, w1)" by (metis prod.exhaust)
  with assms have "r' = r1" and "res = None \<Longrightarrow> \<exists>c. x = Inr c"
    by (auto simp: startRemoteWatcher_def split: sum.splits prod.splits)
  with getOrCreate_facts [OF get] show "grows r r'" "kr_setupFailures r' = kr_setupFailures r"
    "kr_WatchedRemoteGVKs r' = kr_WatchedRemoteGVKs r"
    "res = None \<Longrightarrow> kr_RemoteClusters r' (rg_Cluster rgvk) \<noteq> None"
    by auto
qed

text \<open>The kind is watched for the KRMSyncer.\<close>

definition watched :: "Mode \<Rightarrow> KRMSyncer \<Rightarrow> GroupVersionKind \<Rightarrow> ('w, 't, 'cl) KRMSyncerReconciler \<Rightarrow> bool" where
  "watched mode krmsyncer gvk r \<longleftrightarrow>
     (if mode = ModePull then
        (case rp_Key (kr_RemoteConfigProvider r) (ks_Namespace krmsyncer) (spec_Remote (ks_Spec krmsyncer)) of
           Inl _ \<Rightarrow> False
         | Inr connKey \<Rightarrow> \<lparr>rg_Cluster = connKey, rg_GVK = gvk\<rparr> \<in> kr_WatchedRemoteGVKs r)
      else gvk \<in> kr_WatchedGVKs r)"

lemma watched_mono: "watched mode k gvk r \<Longrightarrow> grows r r' \<Longrightarrow> watched mode k gvk r'"
  by (auto simp: watched_def grows_def split: sum.splits if_splits)

lemma grows_insert_remote:
  "grows r r1 \<Longrightarrow> grows r (r1\<lparr>kr_WatchedRemoteGVKs := insert x (kr_WatchedRemoteGVKs r1)\<rparr>)"
  by (auto simp: grows_def)

lemma setupGVK_pull:
  assumes "setupGVK am env ModePull k gvk (r, w) = (res, r', w')"
  shows "grows r r' \<and> kr_setupFailures r' = kr_setupFailures r \<and>
    (clustersKnown r \<longrightarrow> clustersKnown r') \<and> (res = None \<longrightarrow> watched ModePull k gvk r')"
proof (cases "rp_Key (kr_RemoteConfigProvider r) (ks_Namespace k) (spec_Remote (ks_Spec k))")
  case (Inl e)
  with assms show ?thesis by (auto simp: setupGVK_def)
next
  case (Inr connKey)
  let ?rgvk = "\<lparr>rg_Cluster = connKey, rg_GVK = gvk\<rparr>"
  show ?thesis
  proof (cases "?rgvk \<in> kr_WatchedRemoteGVKs r")
    case True
    with assms Inr show ?thesis by (auto simp: setupGVK_def Let_def watched_def)
  next
    case False
    obtain x r1 w1 where start: "startRemoteWatcher env k ?rgvk (r, w) = (x, r1, w1)" by (metis prod.exhaust)
    note facts = startRemoteWatcher_facts [OF start]
    have known: "clustersKnown r \<Longrightarrow> clustersKnown r1"
      using facts(1,3) by (auto simp: clustersKnown_def grows_def map_le_def dom_def)
    show ?thesis
    proof (cases x)
      case None
      with assms Inr False start have r': "r' = r1\<lparr>kr_WatchedRemoteGVKs := insert ?rgvk (kr_WatchedRemoteGVKs r1)\<rparr>"
        by (auto simp: setupGVK_def Let_def)
      have "kr_RemoteConfigProvider r1 = kr_RemoteConfigProvider r" using facts(1) by (simp add: grows_def)
      with Inr have "watched ModePull k gvk r'" by (simp add: r' watched_def)
      moreover have "clustersKnown r \<Longrightarrow> clustersKnown r'"
        using known facts(4) None by (auto simp: r' clustersKnown_def)
      ultimately show ?thesis
        using facts(1,2) grows_insert_remote [OF facts(1)] by (simp add: r')
    next
      case (Some e)
      with assms Inr False start have "r' = r1" "res \<noteq> None" by (auto simp: setupGVK_def Let_def)
      with facts(1,2) known show ?thesis by auto
    qed
  qed
qed

lemma setupGVK_push:
  assumes "mode \<noteq> ModePull" and "setupGVK am env mode k gvk (r, w) = (res, r', w')"
  shows "grows r r' \<and> kr_setupFailures r' = kr_setupFailures r \<and>
    (clustersKnown r \<longrightarrow> clustersKnown r') \<and> (res = None \<longrightarrow> watched mode k gvk r')"
  using assms
  by (auto simp: setupGVK_def startWatcher_def grows_def clustersKnown_def watched_def
      split: prod.splits option.splits if_splits)

lemma setupGVK_facts:
  assumes "setupGVK am env mode k gvk (r, w) = (res, r', w')"
  shows "grows r r'" and "kr_setupFailures r' = kr_setupFailures r"
    and "clustersKnown r \<Longrightarrow> clustersKnown r'" and "res = None \<Longrightarrow> watched mode k gvk r'"
proof -
  have "grows r r' \<and> kr_setupFailures r' = kr_setupFailures r \<and>
      (clustersKnown r \<longrightarrow> clustersKnown r') \<and> (res = None \<longrightarrow> watched mode k gvk r')"
    using setupGVK_pull [of am env k gvk r w res r' w'] setupGVK_push [of mode am env k gvk r w res r' w'] assms
    by (cases "mode = ModePull") simp_all
  then show "grows r r'" and "kr_setupFailures r' = kr_setupFailures r"
    and "clustersKnown r \<Longrightarrow> clustersKnown r'" and "res = None \<Longrightarrow> watched mode k gvk r'"
    by blast+
qed

text \<open>A kind that is watched costs nothing.\<close>

lemma setupGVK_watched:
  "watched mode k gvk r \<Longrightarrow> setupGVK am env mode k gvk (r, w) = (None, r, w)"
  by (auto simp: setupGVK_def watched_def Let_def split: sum.splits if_splits)

section \<open>The loop over the rules\<close>

definition ruleKinds :: "apimachinery \<Rightarrow> APIResourceList list \<Rightarrow> ResourceRule \<Rightarrow> GroupVersionKind list" where
  "ruleKinds am rls rule = (case expandRule am rule rls of Inl _ \<Rightarrow> [] | Inr gvks \<Rightarrow> gvks)"

definition validRules :: "ResourceRule list \<Rightarrow> bool" where
  "validRules rules = list_all (\<lambda>rule. validateRule rule = None) rules"

lemma expandRule_valid: "validateRule rule = None \<Longrightarrow> expandRule am rule rls = Inr (ruleKinds am rls rule)"
  by (simp add: ruleKinds_def expandRule_def)

lemma expandRule_invalid: "validateRule rule = Some e \<Longrightarrow> expandRule am rule rls = Inl e"
  by (simp add: expandRule_def)

lemma setupRules_valid_prefix:
  assumes "validRules pre"
  shows "setupRules am env mode k rls (pre @ post) (errs, s) =
    (case run_all (setupGVK am env mode k) (concat (map (ruleKinds am rls) pre)) s of
       (outs, s') \<Rightarrow> setupRules am env mode k rls post (errs @ non_nil outs, s'))"
  using assms
proof (induction pre arbitrary: errs s)
  case (Cons rule pre)
  then have valid: "validateRule rule = None" "validRules pre" by (simp_all add: validRules_def)
  have loop: "fold (\<lambda>gvk (errs, st). case setupGVK am env mode k gvk st of (err, st') \<Rightarrow> (collect errs err, st'))
        (ruleKinds am rls rule) (errs, s)
      = (case run_all (setupGVK am env mode k) (ruleKinds am rls rule) s of (outs, s') \<Rightarrow> (errs @ non_nil outs, s'))"
    by (rule fold_collect) simp
  show ?case
    by (simp add: expandRule_valid [OF valid(1)] loop Cons.IH [OF valid(2)] run_all_append non_nil_append
        split: prod.split)
qed simp

lemma setupRules_invalid:
  assumes "validRules pre" and "validateRule bad = Some e"
    and "run_all (setupGVK am env mode k) (concat (map (ruleKinds am rls) pre)) s = (outs, s')"
  shows "setupRules am env mode k rls (pre @ bad # post) (errs, s) = (Some e, errs @ non_nil outs, s')"
  using assms by (simp add: setupRules_valid_prefix expandRule_invalid)

lemma setupRules_cases:
  obtains (valid) outs s' where "validRules rules"
    "run_all (setupGVK am env mode k) (concat (map (ruleKinds am rls) rules)) s = (outs, s')"
    "setupRules am env mode k rls rules (errs, s) = (None, errs @ non_nil outs, s')"
  | (invalid) pre bad post e outs s' where "rules = pre @ bad # post" "validRules pre"
    "validateRule bad = Some e"
    "run_all (setupGVK am env mode k) (concat (map (ruleKinds am rls) pre)) s = (outs, s')"
    "setupRules am env mode k rls rules (errs, s) = (Some e, errs @ non_nil outs, s')"
proof (cases "validRules rules")
  case True
  obtain outs s' where "run_all (setupGVK am env mode k) (concat (map (ruleKinds am rls) rules)) s = (outs, s')"
    by (metis prod.exhaust)
  moreover from this setupRules_valid_prefix [OF True, of am env mode k rls "[]" errs s]
  have "setupRules am env mode k rls rules (errs, s) = (None, errs @ non_nil outs, s')" by simp
  ultimately show thesis using True valid by blast
next
  case False
  then have "\<exists>rule \<in> set rules. validateRule rule \<noteq> None" by (auto simp: validRules_def list_all_iff)
  then obtain pre bad post where split: "rules = pre @ bad # post" "validateRule bad \<noteq> None"
    "\<forall>rule \<in> set pre. validateRule rule = None"
    using split_list_first_prop [of rules "\<lambda>rule. validateRule rule \<noteq> None"] by auto
  then have pre: "validRules pre" by (simp add: validRules_def list_all_iff)
  obtain e where e: "validateRule bad = Some e" using split(2) by blast
  obtain outs s' where run: "run_all (setupGVK am env mode k) (concat (map (ruleKinds am rls) pre)) s = (outs, s')"
    by (metis prod.exhaust)
  from invalid [OF split(1) pre e run] setupRules_invalid [OF pre e run] split(1) show thesis by simp
qed

lemma run_setup_facts:
  assumes "run_all (setupGVK am env mode k) gvks (r, w) = (outs, r', w')"
  shows "grows r r' \<and> kr_setupFailures r' = kr_setupFailures r \<and> (clustersKnown r \<longrightarrow> clustersKnown r')"
proof -
  let ?P = "\<lambda>st. grows r (fst st) \<and> kr_setupFailures (fst st) = kr_setupFailures r \<and>
    (clustersKnown r \<longrightarrow> clustersKnown (fst st))"
  have "?P (r', w')"
  proof (rule run_all_preserves [where P = ?P, OF _ _ assms])
    fix gvk st out st'
    assume P: "?P st" and step: "setupGVK am env mode k gvk st = (out, st')"
    obtain r1 w1 r2 w2 where "st = (r1, w1)" "st' = (r2, w2)" by (cases st, cases st')
    with P step setupGVK_facts [of am env mode k gvk r1 w1 out r2 w2] show "?P st'"
      by (auto intro: grows_trans)
  qed simp
  then show ?thesis by simp
qed

lemma run_setup_watches:
  assumes run: "run_all (setupGVK am env mode k) gvks (r, w) = (outs, r', w')"
    and ok: "non_nil outs = []" and mem: "gvk \<in> set gvks"
  shows "watched mode k gvk r'"
proof -
  have "(\<lambda>st. watched mode k gvk (fst st)) (r', w')"
  proof (rule run_all_establishes [OF run _ mem])
    show "\<forall>out \<in> set outs. out = None" using ok by (simp add: non_nil_empty_iff)
    fix s1 s2 assume "setupGVK am env mode k gvk s1 = (None, s2)"
    then show "watched mode k gvk (fst s2)"
      using setupGVK_facts(4) [of am env mode k gvk "fst s1" "snd s1" None "fst s2" "snd s2"] by simp
  next
    fix y s1 out s2 assume "watched mode k gvk (fst s1)" and "setupGVK am env mode k y s1 = (out, s2)"
    then show "watched mode k gvk (fst s2)"
      using setupGVK_facts(1) [of am env mode k y "fst s1" "snd s1" out "fst s2" "snd s2"]
      by (auto intro: watched_mono)
  qed
  then show ?thesis by simp
qed

lemma run_setup_idle:
  assumes "\<forall>gvk \<in> set gvks. watched mode k gvk r"
  shows "run_all (setupGVK am env mode k) gvks (r, w) = (map (\<lambda>_. None) gvks, r, w)"
  using assms by (induction gvks) (simp_all add: setupGVK_watched)

section \<open>Setting up a KRMSyncer\<close>

lemma grows_provider: "grows r r' \<Longrightarrow> kr_RemoteConfigProvider r' = kr_RemoteConfigProvider r"
  by (simp add: grows_def)

lemma setupWatches_facts:
  assumes "setupWatches am env k (r, w) = (err, k', r', w')"
  shows "grows r r' \<and> kr_setupFailures r' = kr_setupFailures r \<and> (clustersKnown r \<longrightarrow> clustersKnown r')"
proof -
  let ?mode = "syncerMode k"
  obtain x w1 where d: "discover env k ?mode (r, w) = (x, w1)" by (metis prod.exhaust)
  show ?thesis
  proof (cases x)
    case (Inl e)
    with assms d show ?thesis by (auto simp: setupWatches_def Let_def)
  next
    case (Inr rls)
    note d = d [unfolded Inr]
    show ?thesis
    proof (rule setupRules_cases [of "spec_Rules (ks_Spec k)" am env ?mode k rls "(r, w1)" "[]"], goal_cases)
      case (1 outs s')
      with assms d have "s' = (r', w')" by (simp add: setupWatches_def Let_def)
      with 1(2) show ?case using run_setup_facts [of am env ?mode k _ r w1 outs r' w'] by blast
    next
      case (2 pre bad post e outs s')
      with assms d have "s' = (r', w')" by (simp add: setupWatches_def Let_def)
      with 2(4) show ?case using run_setup_facts [of am env ?mode k _ r w1 outs r' w'] by blast
    qed
  qed
qed

text \<open>A setup without an error: discovery answered, all rules are valid and every kind is watched.\<close>

lemma setupWatches_success:
  assumes "setupWatches am env k (r, w) = (None, k', r', w')"
  shows "\<exists>rls w1. discover env k (syncerMode k) (r, w) = (Inr rls, w1) \<and> validRules (spec_Rules (ks_Spec k)) \<and>
    (\<forall>rule \<in> set (spec_Rules (ks_Spec k)). \<forall>gvk \<in> set (ruleKinds am rls rule). watched (syncerMode k) k gvk r')
    \<and> k' = k"
proof -
  let ?mode = "syncerMode k" and ?rules = "spec_Rules (ks_Spec k)"
  from assms obtain rls w1 where d: "discover env k ?mode (r, w) = (Inr rls, w1)"
    by (auto simp: setupWatches_def Let_def split: prod.splits sum.splits)
  show ?thesis
  proof (rule setupRules_cases [of ?rules am env ?mode k rls "(r, w1)" "[]"], goal_cases)
    case (1 outs s')
    with assms d have s': "s' = (r', w')" "k' = k" and ok: "errors_Join (map Some (non_nil outs)) = None"
      by (simp_all add: setupWatches_def Let_def)
    then have "non_nil outs = []" by (simp add: errors_Join_map_Some split: if_splits)
    with run_setup_watches [OF 1(2) [unfolded s'(1)]] d 1(1) s' show ?case by auto
  next
    case (2 pre bad post e outs s')
    with assms d show ?case by (simp add: setupWatches_def Let_def)
  qed
qed


text \<open>Everything outside answers: the connection is known, its configuration can be had, clusters start and
  sync, and controllers are accepted.\<close>

definition healthy :: "('w, 't, 'cl, 'd) ctrl_env \<Rightarrow> ('w, 't) RemoteConfigProvider \<Rightarrow> KRMSyncer \<Rightarrow> bool" where
  "healthy env prov k \<longleftrightarrow>
     (\<exists>key. rp_Key prov (ks_Namespace k) (spec_Remote (ks_Spec k)) = Inr key) \<and>
     (\<forall>w. \<exists>cfg. fst (rp_RESTConfig prov (ks_Namespace k) (spec_Remote (ks_Spec k)) w) = Inr cfg) \<and>
     (\<forall>period cfg w. \<exists>c. fst (ce_NewCluster env period cfg w) = Inr c) \<and>
     (\<forall>c w. fst (ce_WaitForCacheSync env c w)) \<and> (\<forall>spec w. fst (ce_Complete env spec w) = None)"

lemma healthy_cluster:
  assumes "healthy env (kr_RemoteConfigProvider r) k"
  shows "\<exists>c r' w'. getOrCreateRemoteCluster env key (ks_Namespace k) (spec_Remote (ks_Spec k)) (r, w) = (Inr c, r', w')"
proof (cases "kr_RemoteClusters r key")
  case None
  obtain cfg w1 where 1: "rp_RESTConfig (kr_RemoteConfigProvider r) (ks_Namespace k) (spec_Remote (ks_Spec k)) w = (Inr cfg, w1)"
    using assms unfolding healthy_def by (metis prod.collapse)
  obtain c w2 where 2: "ce_NewCluster env (clusterSyncPeriod r) cfg w1 = (Inr c, w2)"
    using assms unfolding healthy_def by (metis prod.collapse)
  obtain w3 where 3: "ce_WaitForCacheSync env c (ce_StartCluster env c w2) = (True, w3)"
    using assms unfolding healthy_def by (metis prod.collapse)
  from None 1 2 3 show ?thesis by (simp add: getOrCreateRemoteCluster_def)
qed (simp add: getOrCreateRemoteCluster_def)

lemma setupGVK_healthy:
  assumes "healthy env (kr_RemoteConfigProvider r) k"
  shows "\<exists>s'. setupGVK am env mode k gvk (r, w) = (None, s')"
proof -
  have accepted: "\<exists>w'. ce_Complete env spec w = (None, w')" for spec w
    using assms unfolding healthy_def by (metis prod.collapse)
  show ?thesis
  proof (cases "mode = ModePull")
    case True
    obtain key where key: "rp_Key (kr_RemoteConfigProvider r) (ks_Namespace k) (spec_Remote (ks_Spec k)) = Inr key"
      using assms by (auto simp: healthy_def)
    obtain c r' w' where "getOrCreateRemoteCluster env key (ks_Namespace k) (spec_Remote (ks_Spec k)) (r, w) = (Inr c, r', w')"
      using healthy_cluster [OF assms] by blast
    moreover obtain w'' where "ce_Complete env (pullController env r' c \<lparr>rg_Cluster = key, rg_GVK = gvk\<rparr>) w' = (None, w'')"
      using accepted by blast
    ultimately show ?thesis using True key by (simp add: setupGVK_def startRemoteWatcher_def Let_def)
  next
    case False
    obtain w' where "ce_Complete env (pushController r gvk) w = (None, w')" using accepted by blast
    with False show ?thesis by (simp add: setupGVK_def startWatcher_def)
  qed
qed

lemma run_setup_healthy:
  "healthy env (kr_RemoteConfigProvider r) k \<Longrightarrow> run_all (setupGVK am env mode k) gvks (r, w) = (outs, s') \<Longrightarrow>
     non_nil outs = []"
proof (induction gvks arbitrary: r w outs s')
  case (Cons gvk gvks)
  obtain r1 w1 where 1: "setupGVK am env mode k gvk (r, w) = (None, r1, w1)"
    using setupGVK_healthy [OF Cons.prems(1)] by (metis prod.collapse)
  obtain outs1 s1 where 2: "run_all (setupGVK am env mode k) gvks (r1, w1) = (outs1, s1)" by (metis prod.exhaust)
  have "healthy env (kr_RemoteConfigProvider r1) k"
    using Cons.prems(1) grows_provider [OF setupGVK_facts(1) [OF 1]] by simp
  from Cons.IH [OF this 2] Cons.prems(2) 1 2 show ?case by auto
qed simp


text \<open>A failing watch does not block the others: if all rules are valid, every kind of every rule is
  tried once and in order, and the setup returns the join of all errors.\<close>

theorem every_kind_is_tried:
  assumes valid: "\<forall>rule \<in> set (spec_Rules (ks_Spec k)). validateRule rule = None"
    and d: "discover env k (syncerMode k) (r, w) = (Inr rls, w1)"
    and run: "run_all (setupGVK am env (syncerMode k) k)
      (concat (map (ruleKinds am rls) (spec_Rules (ks_Spec k)))) (r, w1) = (outs, r', w')"
  shows "length outs = length (concat (map (ruleKinds am rls) (spec_Rules (ks_Spec k)))) \<and>
    setupWatches am env k (r, w) = (errors_Join outs, k, r', w')"
proof -
  have "validRules (spec_Rules (ks_Spec k))" using valid by (simp add: validRules_def list_all_iff)
  from setupRules_valid_prefix [OF this, of am env "syncerMode k" k rls "[]" "[]" "(r, w1)"] run
  have "setupRules am env (syncerMode k) k rls (spec_Rules (ks_Spec k)) ([], r, w1) = (None, non_nil outs, r', w')"
    by simp
  with d run_all_length [OF run] show ?thesis
    by (simp add: setupWatches_def Let_def errors_Join_non_nil)
qed

text \<open>C16: An invalid rule ends the setup with its error and an \<^verbatim>\<open>InvalidRule\<close> condition. The rules before it
  were set up, their errors are dropped, and the rules after it are not looked at.\<close>

theorem invalid_rule_ends_setup:
  assumes rules: "spec_Rules (ks_Spec k) = pre @ bad # post"
    and pre: "\<forall>rule \<in> set pre. validateRule rule = None" and bad: "validateRule bad = Some e"
    and d: "discover env k (syncerMode k) (r, w) = (Inr rls, w1)"
    and run: "run_all (setupGVK am env (syncerMode k) k) (concat (map (ruleKinds am rls) pre)) (r, w1)
      = (outs, r', w')"
  shows "setupWatches am env k (r, w) = (Some e, setCondition env (invalidRuleCondition e) k, r', w')"
proof -
  have "validRules pre" using pre by (simp add: validRules_def list_all_iff)
  from setupRules_invalid [OF this bad run] d rules show ?thesis
    by (simp add: setupWatches_def Let_def)
qed

text \<open>Setting up a KRMSyncer again is idempotent: when all kinds of its rules are watched, nothing is
  started, no error is reported and the only effects are those of discovery.\<close>

theorem setup_is_idempotent:
  assumes "validRules (spec_Rules (ks_Spec k))"
    and d: "discover env k (syncerMode k) (r, w) = (Inr rls, w1)"
    and "\<forall>rule \<in> set (spec_Rules (ks_Spec k)). \<forall>gvk \<in> set (ruleKinds am rls rule). watched (syncerMode k) k gvk r"
  shows "setupWatches am env k (r, w) = (None, k, r, w1)"
proof -
  let ?gvks = "concat (map (ruleKinds am rls) (spec_Rules (ks_Spec k)))"
  have "run_all (setupGVK am env (syncerMode k) k) ?gvks (r, w1) = (map (\<lambda>_. None) ?gvks, r, w1)"
    by (rule run_setup_idle) (use assms(3) in auto)
  with setupRules_valid_prefix [OF assms(1), of am env "syncerMode k" k rls "[]" "[]" "(r, w1)"] d
  show ?thesis
    by (simp add: setupWatches_def Let_def errors_Join_map_Some non_nil_empty_iff)
qed

text \<open>The setup metric follows the result exactly: after a setup the KRMSyncer counts as failing if and
  only if an error was returned.\<close>

theorem setup_metric_follows_result:
  assumes "kr_setupFailures r = Some ft" and "reconcile am env k r gs w = (err, k', r', gs', w')"
  shows "failing (kr_setupFailures r')
    = (if err = None then ft_failed ft - {ObjectKeyFromKRMSyncer k} else insert (ObjectKeyFromKRMSyncer k) (ft_failed ft))"
proof -
  obtain err1 k1 r1 w1 where su: "setupWatches am env k (r, w) = (err1, k1, r1, w1)" by (metis prod.exhaust)
  with setupWatches_facts [OF su] assms show ?thesis
    by (auto simp: reconcile_def reportSetup_def markFailed_Some markSucceeded_Some failing_def
        split: prod.splits if_splits)
qed

text \<open>A KRMSyncer without rules watches nothing and its setup succeeds without a call.\<close>

theorem no_rules_watch_nothing:
  assumes "spec_Rules (ks_Spec k) = []"
  shows "setupWatches am env k (r, w) = (None, k, r, w)"
  using assms by (simp add: setupWatches_def discover_def needsExpansion_def errors_Join_def)

section \<open>Reconcile\<close>

lemma reconcile_facts:
  assumes "reconcile am env k r gs w = (err, k', r', gs', w')"
  shows "grows r r' \<and> (clustersKnown r \<longrightarrow> clustersKnown r')"
proof -
  obtain err1 k1 r1 w1 where su: "setupWatches am env k (r, w) = (err1, k1, r1, w1)" by (metis prod.exhaust)
  from setupWatches_facts [OF this] assms su show ?thesis
    by (auto simp: reconcile_def reportSetup_def grows_def clustersKnown_def split: prod.splits)
qed

lemma Reconcile_facts:
  assumes "Reconcile am env req r gs w = (err, r', gs', w')"
  shows "grows r r' \<and> (clustersKnown r \<longrightarrow> clustersKnown r')"
proof -
  have report: "grows r (fst (reportSetup key b r gs)) \<and>
      (clustersKnown r \<longrightarrow> clustersKnown (fst (reportSetup key b r gs)))" for key b
    by (auto simp: reportSetup_def grows_def clustersKnown_def split: prod.splits)
  obtain x w1 where get: "cl_GetKRMSyncer (kr_Client r) req w = (x, w1)" by (metis prod.exhaust)
  show ?thesis
  proof (cases x)
    case (Inl e)
    with assms get report [of req False] show ?thesis
      by (auto simp: Reconcile_def split: prod.splits if_splits)
  next
    case (Inr k)
    show ?thesis
    proof (cases "spec_Suspend (ks_Spec k)")
      case True
      with assms get Inr report [of req False] show ?thesis
        by (auto simp: Reconcile_def split: prod.splits)
    next
      case False
      obtain err1 k1 r1 gs1 w2 where rec: "reconcile am env (setCondition env activeCondition k) r gs w1
          = (err1, k1, r1, gs1, w2)" by (metis prod.exhaust)
      with assms get Inr False have "r' = r1" by (simp add: Reconcile_def)
      with reconcile_facts [OF rec] show ?thesis by simp
    qed
  qed
qed

text \<open>The states of the controller: after the setup with the manager, any KRMSyncer may be reconciled at
  any time, in any state of the world and of the gauges.\<close>

inductive controller_reachable ::
  "apimachinery \<Rightarrow> ('w, 't, 'cl, 'd) ctrl_env \<Rightarrow> ('w, 't, 'cl) KRMSyncerReconciler \<Rightarrow> bool"
  for am env where
  started: "SetupWithManager complete gkeProv configured r0 w = (err, r, cache, w') \<Longrightarrow> controller_reachable am env r"
| reconciled: "controller_reachable am env r \<Longrightarrow> Reconcile am env req r gs w = (err, r', gs', w') \<Longrightarrow>
    controller_reachable am env r'"


text \<open>Watches and remote clusters are never forgotten or replaced, whatever is reconciled.\<close>

theorem watches_are_never_dropped:
  assumes "Reconcile am env req r gs w = (err, r', gs', w')"
  shows "kr_WatchedGVKs r \<subseteq> kr_WatchedGVKs r' \<and> kr_WatchedRemoteGVKs r \<subseteq> kr_WatchedRemoteGVKs r' \<and>
    (\<forall>key c. kr_RemoteClusters r key = Some c \<longrightarrow> kr_RemoteClusters r' key = Some c)"
  using Reconcile_facts [OF assms] by (auto simp: grows_def map_le_def dom_def)

text \<open>A remote cluster is created once per connection key: after it was obtained, any later request
  for the key, for any KRMSyncer, returns the same cluster and starts nothing.\<close>

theorem remote_cluster_is_created_once:
  assumes "getOrCreateRemoteCluster env key ns remote (r, w) = (Inr c, r1, w1)" and "grows r1 r2"
  shows "getOrCreateRemoteCluster env key ns' remote' (r2, w2) = (Inr c, r2, w2)"
proof -
  have "kr_RemoteClusters r1 key = Some c"
    using roc.stored [of env "(key, ns, remote)" "(r, w)" c "(r1, w1)"] assms(1) by simp
  then have "kr_RemoteClusters r2 key = Some c"
    using assms(2) by (auto simp: grows_def map_le_def dom_def)
  then show ?thesis using roc.hit [of "(key, ns', remote')" "(r2, w2)" c env] by simp
qed

text \<open>C18: A suspended KRMSyncer starts nothing: the reconciler is unchanged but for the KRMSyncer no longer
  counting as failing, and the only writes are those of the status update.\<close>

theorem suspended_syncer_starts_nothing:
  assumes "cl_GetKRMSyncer (kr_Client r) req w = (Inr k, w1)" and "spec_Suspend (ks_Spec k)"
    and "kr_setupFailures r = Some ft" and "Reconcile am env req r gs w = (err, r', gs', w')"
  shows "err = None \<and> r' = r\<lparr>kr_setupFailures := Some (ft\<lparr>ft_failed := ft_failed ft - {req}\<rparr>)\<rparr> \<and>
    w' = snd (cl_StatusUpdateKRMSyncer (kr_Client r)
      (k\<lparr>ks_Conditions := ce_SetStatusCondition env suspendedCondition (ks_Conditions k)\<rparr>) w1)"
  using assms
  by (auto simp: Reconcile_def reportSetup_def markSucceeded_Some updateStatus_def setCondition_def
      split: prod.splits)

text \<open>The number of workers of a dynamic controller is at least one, whatever the flag says.\<close>

theorem workers_at_least_one:
  "1 \<le> controllerOptions r \<and>
   controllerOptions r = (if 1 \<le> kr_MaxConcurrentReconciles r then kr_MaxConcurrentReconciles r else 10)"
  by (simp add: controllerOptions_def DefaultMaxConcurrentReconciles_def Let_def)

section \<open>The watches and the events\<close>


definition gkeRemote :: "string \<Rightarrow> string \<Rightarrow> string \<Rightarrow> RemoteConfig option" where
  "gkeRemote project location name =
     Some \<lparr>remote_GKECluster = Some \<lparr>gke_Project = project, gke_Location = location, gke_Name = name, gke_Endpoint = []\<rparr>\<rparr>"

text \<open>The names of the controllers of two remote clusters can be equal, because the slashes of the
  connection key become the dashes that also separate the fields; controller-runtime refuses a
  second controller of the same name.\<close>

theorem controller_names_collide:
  "\<exists>key key'. GKE_Key ns (gkeRemote ''a-locations-b'' ''l'' ''c'') = Inr key \<and>
     GKE_Key ns (gkeRemote ''a'' ''b-locations-l'' ''c'') = Inr key' \<and> key \<noteq> key' \<and>
     cs_Name (pullController env r c \<lparr>rg_Cluster = key, rg_GVK = g\<rparr>)
       = cs_Name (pullController env r c' \<lparr>rg_Cluster = key', rg_GVK = g\<rparr>)"
  by (simp add: GKE_Key_Some gkeClusterOf_def gkeRemote_def effectiveEndpoint_def endpoint_defs
      pullController_def Let_def strings_ReplaceAll_def)

end
