(* ===== verification/Manager.thy ===== *)
theory Manager
  imports SyncerReconcile
begin

text \<open>
  \<^verbatim>\<open>syncer/main.go\<close>: the start of the syncer process after the flags were parsed. The manager of
  controller-runtime is the parameter record \<open>manager_env\<close>; logging and the registration of the
  schemes are left out.
\<close>

record ('w, 't, 'cl, 'm) manager_env =
  me_NewManager :: "int option \<Rightarrow> ('w, 'm result) io"
  me_GetClient :: "'m \<Rightarrow> 'w client"
  me_Complete :: "'m \<Rightarrow> ('w, 't, 'cl) KRMSyncerReconciler \<Rightarrow> ('w, goerror option) io"
  me_Start :: "'m \<Rightarrow> ('w, goerror option) io"

text \<open>The reconciler as \<^verbatim>\<open>run\<close> builds it; the fields it does not set have their zero values. The
  provider is set by \<^verbatim>\<open>SetupWithManager\<close>.\<close>

definition newReconciler ::
  "'w client \<Rightarrow> ('w, 't) RemoteConfigProvider \<Rightarrow> int option \<Rightarrow> int \<Rightarrow> ('w, 't, 'cl) KRMSyncerReconciler" where
  "newReconciler cl provider syncPeriodOpt maxConcurrentReconciles =
     \<lparr>kr_Client = cl, kr_RemoteConfigProvider = provider, kr_WatchedGVKs = {}, kr_WatchedRemoteGVKs = {},
      kr_RemoteClusters = Map.empty, kr_SyncPeriod = syncPeriodOpt, kr_setupFailures = None,
      kr_MaxConcurrentReconciles = maxConcurrentReconciles\<rparr>"

text \<open>\<open>print\<close> is the decimal representation of an integer. The result is the error, and the reconciler
  that was set up, if it got that far.\<close>

definition run ::
  "('w, 't, 'cl, 'm) manager_env \<Rightarrow> ('w, 't) RemoteConfigProvider \<Rightarrow> (int \<Rightarrow> string) \<Rightarrow> int \<Rightarrow> int \<Rightarrow> 'w \<Rightarrow>
     goerror option \<times> ('w, 't, 'cl) KRMSyncerReconciler option \<times> 'w" where
  "run env gkeProv print syncPeriod maxConcurrentReconciles w =
     (if maxConcurrentReconciles < 1
      then (Some (ErrorString (''--max-concurrent-reconciles must be at least 1, got ''
             @ print maxConcurrentReconciles)), None, w)
      else
        (let syncPeriodOpt = (if syncPeriod > 0 then Some syncPeriod else None) in
         case me_NewManager env syncPeriodOpt w of
           (Inl e, w1) \<Rightarrow> (Some e, None, w1)
         | (Inr mgr, w1) \<Rightarrow>
             (case SetupWithManager (me_Complete env mgr) gkeProv None
                     (newReconciler (me_GetClient env mgr) gkeProv syncPeriodOpt maxConcurrentReconciles) w1 of
                (Some e, _, _, w2) \<Rightarrow> (Some e, None, w2)
              | (None, r, _, w2) \<Rightarrow> (case me_Start env mgr w2 of (err, w3) \<Rightarrow> (err, Some r, w3)))))"

text \<open>The exit status of \<^verbatim>\<open>main\<close>.\<close>

definition exitStatus :: "goerror option \<Rightarrow> nat" where
  "exitStatus err = (case err of None \<Rightarrow> 0 | Some _ \<Rightarrow> 1)"

text \<open>The reconciler after any number of reconciles of any KRMSyncers, in any states of the world.\<close>

inductive reconciled_from ::
  "apimachinery \<Rightarrow> ('w, 't, 'cl, 'd) ctrl_env \<Rightarrow> ('w, 't, 'cl) KRMSyncerReconciler \<Rightarrow>
     ('w, 't, 'cl) KRMSyncerReconciler \<Rightarrow> bool"
  for am env r0 where
  at_start: "reconciled_from am env r0 r0"
| and_then: "reconciled_from am env r0 r \<Longrightarrow> Reconcile am env req r gs w = (err, r', gs', w') \<Longrightarrow>
    reconciled_from am env r0 r'"

lemma reconciled_from_grows: "reconciled_from am env r0 r \<Longrightarrow> grows r0 r"
proof (induction rule: reconciled_from.induct)
  case (and_then r req gs w err r' gs' w')
  from grows_trans [OF and_then.IH] Reconcile_facts [OF and_then.hyps(2)] show ?case by blast
qed simp

lemma run_result:
  assumes "run env gkeProv print period n w = (err, Some r, w')"
  shows "1 \<le> n \<and> kr_MaxConcurrentReconciles r = n \<and> kr_SyncPeriod r = (if 0 < period then Some period else None) \<and>
    kr_RemoteConfigProvider r = gkeProv"
  using assms
  by (auto simp: run_def SetupWithManager_def newReconciler_def Let_def split: if_splits sum.splits prod.splits option.splits)

text \<open>C40: The flags reach every controller: whatever KRMSyncers a process that started its manager reconciles
  later, each dynamic controller it starts, local or for a remote cluster, has at least one worker and
  exactly as many as the flag says, every remote cluster resyncs with the period of the flag, or not at
  all if it is not positive, and connections come from the same provider. A worker count below one
  is refused before anything is done.\<close>

theorem flags_reach_the_controllers:
  "(\<forall>err r w' r' gvk c rgvk. run env gkeProv print period n w = (err, Some r, w') \<longrightarrow> reconciled_from am cenv r r' \<longrightarrow>
      1 \<le> n \<and> cs_MaxConcurrentReconciles (pushController r' gvk) = n \<and>
      cs_MaxConcurrentReconciles (pullController cenv r' c rgvk) = n \<and>
      clusterSyncPeriod r' = (if 0 < period then Some period else None) \<and>
      dr_RemoteConfigProvider (cs_Reconciler (pushController r' gvk)) = gkeProv \<and>
      dr_RemoteConfigProvider (cs_Reconciler (pullController cenv r' c rgvk)) = gkeProv) \<and>
   (n < 1 \<longrightarrow> (\<exists>e. run env gkeProv print period n w = (Some e, None, w) \<and> exitStatus (Some e) = 1))"
proof (intro conjI allI impI)
  fix err r w' r' gvk c rgvk
  assume "run env gkeProv print period n w = (err, Some r, w')" and "reconciled_from am cenv r r'"
  with run_result [of env gkeProv print period n w err r w'] reconciled_from_grows [of am cenv r r']
  have r': "1 \<le> n" "kr_MaxConcurrentReconciles r' = n" "kr_RemoteConfigProvider r' = gkeProv"
    "kr_SyncPeriod r' = (if 0 < period then Some period else None)"
    by (auto simp: grows_def)
  then show "1 \<le> n" and "cs_MaxConcurrentReconciles (pushController r' gvk) = n"
    and "cs_MaxConcurrentReconciles (pullController cenv r' c rgvk) = n"
    and "clusterSyncPeriod r' = (if 0 < period then Some period else None)"
    and "dr_RemoteConfigProvider (cs_Reconciler (pushController r' gvk)) = gkeProv"
    and "dr_RemoteConfigProvider (cs_Reconciler (pullController cenv r' c rgvk)) = gkeProv"
    by (simp_all add: pushController_def pullController_def controllerOptions_def clusterSyncPeriod_def Let_def)
qed (simp add: run_def exitStatus_def)

end
