(* ===== verification/ExampleSyncer.thy ===== *)
theory ExampleSyncer
  imports ExampleCluster Manager
begin

text \<open>
  A concrete environment of the KRMSyncer controller, with the two servers of the theory
  \<open>ExampleCluster\<close>: discovery returns one Config Connector list and the kind of the example object,
  clusters are numbers, their caches sync at once, and every controller starts.
\<close>

definition exLists :: "APIResourceList list" where
  "exLists =
     [\<lparr>rl_GroupVersion = ''sql.cnrm.cloud.google.com/v1'',
       rl_APIResources = [\<lparr>res_Name = ''sqlinstances'', res_Kind = ''SQLInstance'', res_Verbs = [''list'']\<rparr>,
         \<lparr>res_Name = ''sqlinstances/status'', res_Kind = ''SQLInstance'', res_Verbs = []\<rparr>]\<rparr>]"

definition exCenv :: "(ex_world, unit, nat, unit) ctrl_env" where
  "exCenv =
     \<lparr>ce_SetStatusCondition = (\<lambda>c cs. c # filter (\<lambda>c'. cond_Type c' \<noteq> cond_Type c) cs),
      ce_ManagerConfig = \<lparr>rc_Host = ''https://h'', rc_CAData = [], rc_Timeout = 0, rc_Wrappers = []\<rparr>,
      ce_NewDiscoveryClient = (\<lambda>cfg. Inr ()),
      ce_ServerPreferredResources = (\<lambda>d w. ((exLists, None), w)),
      ce_IsGroupDiscoveryFailedError = (\<lambda>e. False),
      ce_NewCluster = (\<lambda>period cfg w. (Inr 7, w)),
      ce_StartCluster = (\<lambda>c w. w),
      ce_WaitForCacheSync = (\<lambda>c w. (True, w)),
      ce_GetClient = (\<lambda>c. exClient Source),
      ce_Complete = (\<lambda>spec w. (None, w))\<rparr>"

definition exReconciler :: "(ex_world, unit, nat) KRMSyncerReconciler" where
  "exReconciler =
     \<lparr>kr_Client = exClient Destination, kr_RemoteConfigProvider = exProvider, kr_WatchedGVKs = {},
      kr_WatchedRemoteGVKs = {}, kr_RemoteClusters = Map.empty, kr_SyncPeriod = None,
      kr_setupFailures = Some (newFailureTracker SetupFailed), kr_MaxConcurrentReconciles = 0\<rparr>"

definition exRunning :: "(ex_world, unit, nat) KRMSyncerReconciler" where
  "exRunning = exReconciler\<lparr>kr_WatchedRemoteGVKs := {\<lparr>rg_Cluster = ''k'', rg_GVK = exGVK\<rparr>},
     kr_RemoteClusters := [''k'' \<mapsto> 7]\<rparr>"

lemma exRule_kinds: "expandRule am (exRule flds) rls = Inr [exGVK]" "validateRule (exRule flds) = None"
  "hasGlob (exRule flds) = False" "ruleKinds am rls (exRule flds) = [exGVK]"
  by (simp_all add: ruleKinds_def expandRule_def validateRule_def hasGlob_def exRule_def isKCCGlob_def exGVK_def str_simps)

lemma exSyncer_facts: "spec_Rules (ks_Spec (exSyncer mode flds)) = [exRule flds]"
  "\<not> spec_Suspend (ks_Spec (exSyncer mode flds))" "syncerMode (exSyncer [] flds) = ModePull"
  "ks_Namespace (exSyncer mode flds) = ''default''" "spec_Remote (ks_Spec (exSyncer mode flds)) = None"
  by (simp_all add: exSyncer_def syncerMode_def)

lemma ex_discover: "spec_Rules (ks_Spec k) = [exRule flds] \<Longrightarrow> discover exCenv k ModePull (r, w) = (Inr [], w)"
  by (simp add: discover_def needsExpansion_def exRule_kinds)

lemma ex_getOrCreate:
  "getOrCreateRemoteCluster exCenv ''k'' ns remote (exReconciler, w)
     = (Inr 7, exReconciler\<lparr>kr_RemoteClusters := [''k'' \<mapsto> 7]\<rparr>, w)"
  by (simp add: getOrCreateRemoteCluster_def exReconciler_def exProvider_def exCenv_def)

lemma ex_setupGVK:
  "setupGVK am exCenv ModePull k exGVK (exReconciler, w) = (None, exRunning, w)"
proof -
  have key: "rp_Key (kr_RemoteConfigProvider exReconciler) ns remote = Inr ''k''" for ns remote
    by (simp add: exReconciler_def exProvider_def)
  have "\<lparr>rg_Cluster = ''k'', rg_GVK = exGVK\<rparr> \<notin> kr_WatchedRemoteGVKs exReconciler"
    by (simp add: exReconciler_def)
  moreover have "startRemoteWatcher exCenv k \<lparr>rg_Cluster = ''k'', rg_GVK = exGVK\<rparr> (exReconciler, w)
      = (None, exReconciler\<lparr>kr_RemoteClusters := [''k'' \<mapsto> 7]\<rparr>, w)"
    by (simp add: startRemoteWatcher_def ex_getOrCreate) (simp add: exCenv_def)
  ultimately show ?thesis
    by (simp add: setupGVK_def key Let_def) (simp add: exRunning_def exReconciler_def)
qed

lemma ex_setup:
  "spec_Rules (ks_Spec k) = [exRule flds] \<Longrightarrow> syncerMode k = ModePull \<Longrightarrow>
     setupWatches ex_am exCenv k (exReconciler, w) = (None, k, exRunning, w)"
  by (simp add: setupWatches_def Let_def ex_discover exRule_kinds ex_setupGVK collect_def errors_Join_def)

lemma ex_reconcile:
  assumes "spec_Rules (ks_Spec k) = [exRule flds]" and "syncerMode k = ModePull"
  shows "reconcile ex_am exCenv k exReconciler gs w = (None, k, exRunning, gs, w)"
proof -
  have "kr_setupFailures exRunning = Some (newFailureTracker SetupFailed)"
    by (simp add: exRunning_def exReconciler_def)
  moreover from this have "exRunning\<lparr>kr_setupFailures := Some (newFailureTracker SetupFailed)\<rparr> = exRunning"
    by (cases exRunning) simp
  ultimately show ?thesis
    by (simp add: reconcile_def ex_setup [OF assms] reportSetup_def markSucceeded_def newFailureTracker_def)
qed

lemma ex_reconciled:
  "reconcile ex_am exCenv (exSyncer [] []) exReconciler (\<lambda>_. 0) (exWorld [])
     = (None, exSyncer [] [], exRunning, \<lambda>_. 0, exWorld [])"
  by (rule ex_reconcile) (rule exSyncer_facts)+

lemma ex_watched: "watched ModePull (exSyncer [] flds) exGVK exRunning"
  by (simp add: watched_def exRunning_def exReconciler_def exProvider_def)

section \<open>Witnesses: setup\<close>


theorem expandRule_accepts_iff_witness:
  "\<exists>gvks. expandRule ex_am \<lparr>rule_Group = ''sql.cnrm.cloud.google.com'', rule_Version = ''*'', rule_Kind = ''*'',
     rule_Namespaces = [], rule_SyncFields = []\<rparr> exLists = Inr gvks"
proof -
  have "''sql.cnrm.cloud.google.com'' = ''sql'' @ ''.cnrm.cloud.google.com''" by simp
  then show ?thesis by (subst expandRule_accepts_iff) auto
qed


lemma ex_healthy: "healthy exCenv exProvider k"
  by (simp add: healthy_def exCenv_def exProvider_def)

text \<open>After a failed setup: the tracker has the KRMSyncer.\<close>

definition exFailed :: "(ex_world, unit, nat) KRMSyncerReconciler" where
  "exFailed = exReconciler\<lparr>kr_setupFailures :=
     Some \<lparr>ft_gauge = SetupFailed, ft_failed = {ObjectKeyFromKRMSyncer (exSyncer [] [])}\<rparr>\<rparr>"


theorem every_kind_is_tried_witness:
  "setupWatches ex_am exCenv (exSyncer [] []) (exReconciler, exWorld []) = (errors_Join [None], exSyncer [] [], exRunning, exWorld [])"
  using every_kind_is_tried [of "exSyncer [] []" exCenv exReconciler "exWorld []" "[]" "exWorld []" ex_am "[None]" exRunning "exWorld []"]
  by (simp add: exSyncer_facts exRule_kinds ex_discover [OF exSyncer_facts(1)] ex_setupGVK)

theorem invalid_rule_ends_setup_witness:
  "\<exists>e. fst (setupWatches ex_am exCenv ((exSyncer [] [])\<lparr>ks_Spec := (ks_Spec (exSyncer [] []))\<lparr>spec_Rules :=
     [(exRule [])\<lparr>rule_Kind := ''*''\<rparr>]\<rparr>\<rparr>) (exReconciler, exWorld [])) = Some e"
proof -
  let ?bad = "(exRule [])\<lparr>rule_Kind := ''*''\<rparr>"
  let ?k = "(exSyncer [] [])\<lparr>ks_Spec := (ks_Spec (exSyncer [] []))\<lparr>spec_Rules := [?bad]\<rparr>\<rparr>"
  have bad: "validateRule ?bad = Some globError"
    by (simp add: validateRule_def hasGlob_def str_simps isKCCGroup_def exRule_def kccWildcard_def kccSuffix_def HasSuffix_iff)
  have mode: "syncerMode ?k = ModePull" by (simp add: syncerMode_def exSyncer_def)
  have d: "discover exCenv ?k (syncerMode ?k) (exReconciler, exWorld []) = (Inr exLists, exWorld [])"
    unfolding mode
    by (simp add: discover_def needsExpansion_def hasGlob_def str_simps getDiscoveryClient_def)
      (simp add: exReconciler_def exProvider_def exCenv_def)
  have rules: "spec_Rules (ks_Spec ?k) = [] @ ?bad # []" by simp
  from invalid_rule_ends_setup [OF rules _ bad d, where am = ex_am and outs = "[]" and r' = exReconciler and w' = "exWorld []"] show ?thesis by simp
qed

theorem setup_is_idempotent_witness:
  "setupWatches ex_am exCenv (exSyncer [] []) (exRunning, exWorld []) = (None, exSyncer [] [], exRunning, exWorld [])"
  using setup_is_idempotent [of "exSyncer [] []" exCenv exRunning "exWorld []" "[]" "exWorld []" ex_am]
  by (simp add: exSyncer_facts exRule_kinds ex_discover [OF exSyncer_facts(1)] ex_watched validRules_def)

theorem setup_metric_follows_result_witness:
  "failing (kr_setupFailures exRunning) = {}"
  using setup_metric_follows_result [OF _ ex_reconciled, of "newFailureTracker SetupFailed"]
  by (simp add: exReconciler_def newFailureTracker_def)

theorem suspended_syncer_starts_nothing_witness:
  "\<exists>k err r' gs' w'. spec_Suspend (ks_Spec k) \<and>
     Reconcile ex_am exCenv (ObjectKeyFromKRMSyncer k) exReconciler (\<lambda>_. 0) (exWorld [k]) = (err, r', gs', w') \<and>
     err = None \<and> kr_WatchedRemoteGVKs r' = {}"
proof -
  let ?k = "(exSyncer [] [])\<lparr>ks_Spec := (ks_Spec (exSyncer [] []))\<lparr>spec_Suspend := True\<rparr>\<rparr>"
  obtain err r' gs' w' where rec: "Reconcile ex_am exCenv (ObjectKeyFromKRMSyncer ?k) exReconciler (\<lambda>_. 0) (exWorld [?k])
      = (err, r', gs', w')" by (metis prod.exhaust)
  have get: "cl_GetKRMSyncer (kr_Client exReconciler) (ObjectKeyFromKRMSyncer ?k) (exWorld [?k]) = (Inr ?k, exWorld [?k])"
    by (simp add: exReconciler_def exClient_def exWorld_def)
  have "spec_Suspend (ks_Spec ?k)" by simp
  with suspended_syncer_starts_nothing [OF get _ _ rec, of "newFailureTracker SetupFailed"] rec show ?thesis
    by (intro exI [of _ ?k] exI [of _ err] exI [of _ r'] exI [of _ gs'] exI [of _ w']) (simp add: exReconciler_def)
qed

theorem remote_cluster_is_created_once_witness:
  "getOrCreateRemoteCluster exCenv ''k'' ''other'' None (exRunning, exWorld []) = (Inr 7, exRunning, exWorld [])"
  using remote_cluster_is_created_once [OF ex_getOrCreate [of ns remote "exWorld []"], of exRunning]
  by (simp add: grows_def exRunning_def exReconciler_def)



definition exMenv :: "(ex_world, unit, nat, unit) manager_env" where
  "exMenv =
     \<lparr>me_NewManager = (\<lambda>period w. (Inr (), w)), me_GetClient = (\<lambda>m. exClient Destination),
      me_Complete = (\<lambda>m r w. (None, w)), me_Start = (\<lambda>m w. (None, w))\<rparr>"

theorem flags_reach_the_controllers_witness:
  "\<exists>r w'. run exMenv exProvider (\<lambda>n. ''n'') 30 4 (exWorld []) = (None, Some r, w') \<and>
     (\<exists>r'. reconciled_from ex_am exCenv r r' \<and> cs_MaxConcurrentReconciles (pushController r' exGVK) = 4 \<and>
       clusterSyncPeriod r' = Some 30)"
proof -
  obtain err and r :: "(ex_world, unit, nat) KRMSyncerReconciler option" and w'
    where run: "run exMenv exProvider (\<lambda>n. ''n'') 30 4 (exWorld []) = (err, r, w')"
    by (metis prod.exhaust)
  then obtain r0 where r0: "err = None" "r = Some r0"
    by (auto simp: run_def exMenv_def SetupWithManager_def newReconciler_def Let_def)
  obtain e r' gs' w2 where "Reconcile ex_am exCenv exObjKey r0 (\<lambda>_. 0) (exWorld []) = (e, r', gs', w2)"
    by (metis prod.exhaust)
  with reconciled_from.at_start have later: "reconciled_from ex_am exCenv r0 r'" by (rule reconciled_from.and_then)
  from flags_reach_the_controllers [of exMenv exProvider "\<lambda>n. ''n''" 30 4 "exWorld []" ex_am exCenv] run r0 later
  have "cs_MaxConcurrentReconciles (pushController r' exGVK) = 4 \<and> clusterSyncPeriod r' = Some 30" by auto
  with run r0 later show ?thesis by blast
qed

end
