(* ===== verification/Sink.thy ===== *)
theory Sink
  imports Prelude
begin

text \<open>
  \<^verbatim>\<open>pkg/sink\<close>: the interface \<^verbatim>\<open>Sink\<close> and its implementation \<^verbatim>\<open>ZipSink\<close>. A sink is the record of its two
  methods over its state. The locale \<open>sink_contract\<close> states what the exporter relies on: a write
  that succeeds adds exactly one entry at the end, and on sound storage writes succeed. It is interpreted on \<^verbatim>\<open>ZipSink\<close>.
\<close>

section \<open>sink.go\<close>

record 'z sink =
  sink_Write :: "string \<Rightarrow> string \<Rightarrow> ('z, goerror option) io"
  sink_Close :: "('z, goerror option) io"

locale sink_contract =
  fixes snk :: "'z sink" and archived :: "'z \<Rightarrow> (string \<times> string) list" and sound :: "'z \<Rightarrow> bool"
  assumes write_sound: "sound z \<Longrightarrow> sink_Write snk path data z = (res, z') \<Longrightarrow> res = None \<and> sound z'"
    and write_ok: "sink_Write snk path data z = (None, z') \<Longrightarrow> archived z' = archived z @ [(path, data)]"
    and close_keeps: "archived (snd (sink_Close snk z)) = archived z"

section \<open>zip.go\<close>

text \<open>
  A zip file being written: the entries so far (the last one is open), whether the writer and the
  file are closed, and the outcomes of the next operations on the underlying file, which fail
  or not (\<open>None\<close>); when the list is used up, operations succeed.
\<close>

record zip_file =
  zf_entries :: "(string \<times> string) list"
  zf_writerClosed :: bool
  zf_fileClosed :: bool
  zf_faults :: "goerror option list"

definition io_op :: "(zip_file \<Rightarrow> zip_file) \<Rightarrow> (zip_file, goerror option) io" where
  "io_op effect z =
     (case zf_faults z of
        [] \<Rightarrow> (None, effect z)
      | None # fs \<Rightarrow> (None, effect (z\<lparr>zf_faults := fs\<rparr>))
      | Some e # fs \<Rightarrow> (Some e, z\<lparr>zf_faults := fs\<rparr>))"

text \<open>\<^verbatim>\<open>zip.Writer.Create\<close> starts an entry, a write to it appends to the entry started last.\<close>

definition zip_Create :: "string \<Rightarrow> (zip_file, goerror option) io" where
  "zip_Create path = io_op (\<lambda>z. z\<lparr>zf_entries := zf_entries z @ [(path, [])]\<rparr>)"

definition append_last :: "string \<Rightarrow> (string \<times> string) list \<Rightarrow> (string \<times> string) list" where
  "append_last data es = (case rev es of [] \<Rightarrow> [] | (path, old) # rest \<Rightarrow> rev ((path, old @ data) # rest))"

definition zip_Write :: "string \<Rightarrow> (zip_file, goerror option) io" where
  "zip_Write data = io_op (\<lambda>z. z\<lparr>zf_entries := append_last data (zf_entries z)\<rparr>)"

definition zip_Close :: "(zip_file, goerror option) io" where
  "zip_Close = io_op (\<lambda>z. z\<lparr>zf_writerClosed := True\<rparr>)"

definition file_Close :: "(zip_file, goerror option) io" where
  "file_Close = io_op (\<lambda>z. z\<lparr>zf_fileClosed := True\<rparr>)"

definition ZipSink_Write :: "string \<Rightarrow> string \<Rightarrow> (zip_file, goerror option) io" where
  "ZipSink_Write path data z =
     (case zip_Create path z of
        (Some e, z1) \<Rightarrow> (Some e, z1)
      | (None, z1) \<Rightarrow> zip_Write data z1)"

definition ZipSink_Close :: "(zip_file, goerror option) io" where
  "ZipSink_Close z =
     (case zip_Close z of
        (Some e, z1) \<Rightarrow> (case file_Close z1 of (err, z2) \<Rightarrow> (errors_Join [Some e, err], z2))
      | (None, z1) \<Rightarrow> file_Close z1)"

definition ZipSink :: "zip_file sink" where
  "ZipSink = \<lparr>sink_Write = ZipSink_Write, sink_Close = ZipSink_Close\<rparr>"

text \<open>\<^verbatim>\<open>os.Create\<close> either fails or gives an empty file, on which later operations have the outcomes
  \<open>faults\<close>.\<close>

definition NewZipSink :: "(string \<Rightarrow> goerror option list result) \<Rightarrow> string \<Rightarrow> zip_file result" where
  "NewZipSink os_Create path =
     (case os_Create path of
        Inl e \<Rightarrow> Inl e
      | Inr faults \<Rightarrow>
          Inr \<lparr>zf_entries = [], zf_writerClosed = False, zf_fileClosed = False, zf_faults = faults\<rparr>)"

lemma append_last_snoc [simp]: "append_last data (es @ [(path, old)]) = es @ [(path, old @ data)]"
  by (simp add: append_last_def)

lemma close_entries:
  "zip_Close z = (res, z1) \<Longrightarrow> zf_entries z1 = zf_entries z"
  "file_Close z = (res, z1) \<Longrightarrow> zf_entries z1 = zf_entries z"
  by (auto simp: zip_Close_def file_Close_def io_op_def split: list.splits option.splits)

lemma zip_Create_entries: "zip_Create path z = (None, z') \<Longrightarrow> zf_entries z' = zf_entries z @ [(path, [])]"
  by (auto simp: zip_Create_def io_op_def split: list.splits option.splits)

lemma zip_Write_entries: "zip_Write data z = (None, z') \<Longrightarrow> zf_entries z' = append_last data (zf_entries z)"
  by (auto simp: zip_Write_def io_op_def split: list.splits option.splits)

lemma snd_file_Close_entries: "zf_entries (snd (file_Close z)) = zf_entries z"
  by (cases "file_Close z") (simp add: close_entries(2))

lemma ZipSink_Close_entries: "zf_entries (snd (ZipSink_Close z)) = zf_entries z"
  by (auto simp: ZipSink_Close_def snd_file_Close_entries dest!: close_entries split: prod.split option.split)

lemma ZipSink_Close_closed:
  assumes "ZipSink_Close z = (None, z')"
  shows "zf_writerClosed z' \<and> zf_fileClosed z' \<and> zf_entries z' = zf_entries z"
  using assms ZipSink_Close_entries [of z]
  by (auto simp: ZipSink_Close_def zip_Close_def file_Close_def io_op_def errors_Join_def
      split: prod.splits option.splits list.splits)

interpretation zs: sink_contract ZipSink zf_entries "\<lambda>z. zf_faults z = []"
proof unfold_locales
  show "zf_faults z = [] \<Longrightarrow> sink_Write ZipSink path data z = (res, z') \<Longrightarrow> res = None \<and> zf_faults z' = []"
    for path data z res z'
    by (auto simp: ZipSink_def ZipSink_Write_def zip_Create_def zip_Write_def io_op_def)
  show "sink_Write ZipSink path data z = (None, z') \<Longrightarrow> zf_entries z' = zf_entries z @ [(path, data)]"
    for path data z z'
    by (auto simp: ZipSink_def ZipSink_Write_def split: prod.splits option.splits
        dest!: zip_Create_entries zip_Write_entries)
  show "zf_entries (snd (sink_Close ZipSink z)) = zf_entries z" for z
    by (simp add: ZipSink_def ZipSink_Close_entries)
qed

text \<open>Closing a zip sink releases the file in every case: when finishing the archive succeeds, the
  result is that of closing the file, and when it fails, the file is closed all the same and the
  error is reported. Without an error both are closed and the archive has the entries written.\<close>

theorem zip_close_always_closes_the_file:
  "(\<exists>z1 e1. zip_Close z = (e1, z1) \<and>
      snd (ZipSink_Close z) = snd (file_Close z1) \<and>
      (fst (ZipSink_Close z) = None \<longleftrightarrow> e1 = None \<and> fst (file_Close z1) = None)) \<and>
   (fst (ZipSink_Close z) = None \<longrightarrow>
      zf_writerClosed (snd (ZipSink_Close z)) \<and> zf_fileClosed (snd (ZipSink_Close z)) \<and>
      zf_entries (snd (ZipSink_Close z)) = zf_entries z)"
proof -
  obtain e1 z1 where 1: "zip_Close z = (e1, z1)" by (metis prod.exhaust)
  obtain e2 z2 where 2: "file_Close z1 = (e2, z2)" by (metis prod.exhaust)
  have w: "e1 = None \<Longrightarrow> zf_writerClosed z1"
    using 1 by (auto simp: zip_Close_def io_op_def split: list.splits option.splits)
  have f: "e2 = None \<Longrightarrow> zf_fileClosed z2 \<and> (zf_writerClosed z1 \<longrightarrow> zf_writerClosed z2)"
    using 2 by (auto simp: file_Close_def io_op_def split: list.splits option.splits)
  have close: "ZipSink_Close z = (case e1 of Some e \<Rightarrow> (errors_Join [Some e, e2], z2) | None \<Rightarrow> (e2, z2))"
    by (simp add: ZipSink_Close_def 1 2 split: option.split)
  with w f 1 2 ZipSink_Close_entries [of z] show ?thesis
    by (auto simp: errors_Join_None_iff split: option.splits)
qed

end
