(* ===== verification/GoPath.thy ===== *)
theory GoPath
  imports GoStd
begin

text \<open>
  \<^verbatim>\<open>path/filepath.Join\<close> and \<^verbatim>\<open>Clean\<close> on Unix, as the exporter uses them: elements are joined with
  slashes and cleaned lexically. The lemmas give the form of a path of plain segments, so that it
  can be taken apart again.
\<close>

text \<open>The loop of \<^verbatim>\<open>Clean\<close> over the elements between slashes; the kept elements are in reverse order.\<close>

fun cleanElems :: "bool \<Rightarrow> string list \<Rightarrow> string list \<Rightarrow> string list" where
  "cleanElems rooted acc [] = rev acc"
| "cleanElems rooted acc (e # es) =
     (if e = [] \<or> e = ''.'' then cleanElems rooted acc es
      else if e = ''..'' then
        (case acc of
           [] \<Rightarrow> if rooted then cleanElems rooted [] es else cleanElems rooted [''..''] es
         | a # as \<Rightarrow> if a = ''..'' then cleanElems rooted (''..'' # acc) es else cleanElems rooted as es)
      else cleanElems rooted (e # acc) es)"

definition filepath_Clean :: "string \<Rightarrow> string" where
  "filepath_Clean path =
     (if path = [] then ''.''
      else
        (let rooted = strings_HasPrefix path ''/'';
             s = join_with ''/'' (cleanElems rooted [] (strings_Split path (CHR ''/''))) in
         if rooted then ''/'' @ s else if s = [] then ''.'' else s))"

text \<open>Empty elements are ignored; joining nothing is the empty path.\<close>

definition filepath_Join :: "string list \<Rightarrow> string" where
  "filepath_Join elems =
     (case filter (\<lambda>e. e \<noteq> []) elems of
        [] \<Rightarrow> []
      | e # es \<Rightarrow> filepath_Clean (join_with ''/'' (e # es)))"

section \<open>Plain segments\<close>

definition plainElem :: "string \<Rightarrow> bool" where
  "plainElem e \<longleftrightarrow> e \<noteq> [] \<and> e \<noteq> ''.'' \<and> e \<noteq> ''..'' \<and> CHR ''/'' \<notin> set e"

lemma cleanElems_plain: "list_all plainElem es \<Longrightarrow> cleanElems rooted acc es = rev acc @ es"
  by (induction es arbitrary: acc) (auto simp: plainElem_def)

lemma Split_join_with:
  "es \<noteq> [] \<Longrightarrow> list_all (\<lambda>e. c \<notin> set e) es \<Longrightarrow> strings_Split (join_with [c] es) c = es"
proof (induction es rule: induct_list012)
  case (3 e f es)
  then show ?case by (simp add: Split_append Split_no_sep)
qed (simp_all add: Split_no_sep)

lemma Clean_plain:
  assumes "es \<noteq> []" and "list_all plainElem es"
  shows "filepath_Clean (join_with ''/'' es) = join_with ''/'' es"
proof -
  obtain e es' where es: "es = e # es'" using assms(1) by (cases es) auto
  obtain c cs where e: "e = c # cs" "c \<noteq> CHR ''/''"
    using assms(2) by (cases e) (auto simp: es plainElem_def)
  have hd: "\<exists>t. join_with ''/'' es = c # t" by (cases es') (simp_all add: es e)
  then have "\<not> strings_HasPrefix (join_with ''/'' es) ''/''" and "join_with ''/'' es \<noteq> []"
    using e(2) by (auto simp: strings_HasPrefix_def)
  moreover have "strings_Split (join_with ''/'' es) (CHR ''/'') = es"
    using assms by (intro Split_join_with) (auto simp: plainElem_def list_all_iff)
  ultimately show ?thesis
    using assms(2) by (simp add: filepath_Clean_def cleanElems_plain)
qed

text \<open>Joining plain segments only puts the slashes in between, and splitting gives them back.\<close>

lemma Join_plain:
  assumes "es \<noteq> []" and "list_all plainElem es"
  shows "filepath_Join es = join_with ''/'' es" and "strings_Split (filepath_Join es) (CHR ''/'') = es"
proof -
  have "filter (\<lambda>e. e \<noteq> []) es = es"
    using assms(2) by (auto simp: filter_id_conv plainElem_def list_all_iff)
  with assms show join: "filepath_Join es = join_with ''/'' es"
    using Clean_plain [OF assms] by (cases es) (simp_all add: filepath_Join_def)
  show "strings_Split (filepath_Join es) (CHR ''/'') = es"
    unfolding join using assms by (intro Split_join_with) (auto simp: plainElem_def list_all_iff)
qed

end
