(* ===== verification/Export.thy ===== *)
theory Export
  imports Sink GoPath Machinery
begin

text \<open>
  \<^verbatim>\<open>pkg/export/export.go\<close>: the exporter, which lists all listable resources of a cluster and writes one
  YAML file per object into a sink. The clients of client-go and the YAML encoder are parameters;
  the API calls act on the world, the sink on its own state.
\<close>

section \<open>RunExport\<close>

record GroupVersionResource =
  gvr_Group :: string
  gvr_Version :: string
  gvr_Resource :: string

text \<open>The calls the exporter makes: loading the configuration, building the HTTP, discovery and dynamic
  clients, discovery, listing the objects of a resource in all namespaces, and encoding.\<close>

record ('w, 'c, 'h, 'd, 'y) export_env =
  ee_ClientConfig :: "('w, 'c result) io"
  ee_HTTPClientFor :: "'c \<Rightarrow> 'h result"
  ee_NewDiscoveryClient :: "'c \<Rightarrow> 'h \<Rightarrow> 'd result"
  ee_NewDynamicClient :: "'c \<Rightarrow> 'h \<Rightarrow> 'y result"
  ee_ServerPreferredResources :: "'d \<Rightarrow> ('w, APIResourceList list \<times> goerror option) io"
  ee_IsGroupDiscoveryFailedError :: "goerror \<Rightarrow> bool"
  ee_List :: "'y \<Rightarrow> GroupVersionResource \<Rightarrow> ('w, jobject list result) io"
  ee_GVRString :: "GroupVersionResource \<Rightarrow> string"
  ee_Marshal :: "jobject \<Rightarrow> string result"

definition itemPath :: "apimachinery \<Rightarrow> GroupVersionResource \<Rightarrow> jobject \<Rightarrow> string" where
  "itemPath am gvr item =
     filepath_Join
       [if GetNamespace am item = [] then ''_cluster'' else GetNamespace am item,
        if gvr_Group gvr = [] then ''core'' else gvr_Group gvr,
        GetKind am item,
        GetName am item @ ''.yaml'']"

definition exportItem ::
  "apimachinery \<Rightarrow> ('w, 'c, 'h, 'd, 'y) export_env \<Rightarrow> 'z sink \<Rightarrow> GroupVersionResource \<Rightarrow> jobject \<Rightarrow>
     ('z, goerror option) io" where
  "exportItem am env snk gvr item z =
     (case ee_Marshal env item of
        Inl e \<Rightarrow>
          (Some (WrapError (''failed to marshal '' @ GetKind am item @ ''/'' @ GetName am item @ '': '') e), z)
      | Inr data \<Rightarrow>
          (case sink_Write snk (itemPath am gvr item) data z of
             (None, z1) \<Rightarrow> (None, z1)
           | (Some e, z1) \<Rightarrow>
               (Some (WrapError (''failed to write '' @ itemPath am gvr item @ '' to sink: '') e), z1)))"

type_synonym ('z, 'w) export_state = "goerror list \<times> 'z \<times> 'w"

definition exportItems ::
  "apimachinery \<Rightarrow> ('w, 'c, 'h, 'd, 'y) export_env \<Rightarrow> 'z sink \<Rightarrow> GroupVersionResource \<Rightarrow> jobject list \<Rightarrow>
     goerror list \<times> 'z \<Rightarrow> goerror list \<times> 'z" where
  "exportItems am env snk gvr =
     fold (\<lambda>item (errs, z). case exportItem am env snk gvr item z of (err, z') \<Rightarrow> (collect errs err, z'))"

text \<open>Resources that cannot be listed and subresources are skipped.\<close>

definition exported :: "APIResource \<Rightarrow> bool" where
  "exported resource \<longleftrightarrow> list_ex (\<lambda>v. v = ''list'') (res_Verbs resource) \<and> \<not> strings_Contains (res_Name resource) ''/''"

definition exportResource ::
  "apimachinery \<Rightarrow> ('w, 'c, 'h, 'd, 'y) export_env \<Rightarrow> 'z sink \<Rightarrow> 'y \<Rightarrow> string \<times> string \<Rightarrow> APIResource \<Rightarrow>
     ('z, 'w) export_state \<Rightarrow> ('z, 'w) export_state" where
  "exportResource am env snk dyn gv resource = (\<lambda>(errs, z, w).
     (if \<not> exported resource then (errs, z, w)
      else
        (let gvr = \<lparr>gvr_Group = fst gv, gvr_Version = snd gv, gvr_Resource = res_Name resource\<rparr> in
         case ee_List env dyn gvr w of
           (Inl e, w1) \<Rightarrow> (errs @ [WrapError (''failed to list '' @ ee_GVRString env gvr @ '': '') e], z, w1)
         | (Inr items, w1) \<Rightarrow>
             (case exportItems am env snk gvr items (errs, z) of (errs', z') \<Rightarrow> (errs', z', w1)))))"

definition exportList ::
  "apimachinery \<Rightarrow> ('w, 'c, 'h, 'd, 'y) export_env \<Rightarrow> 'z sink \<Rightarrow> 'y \<Rightarrow> APIResourceList \<Rightarrow>
     ('z, 'w) export_state \<Rightarrow> ('z, 'w) export_state" where
  "exportList am env snk dyn rl = (\<lambda>(errs, z, w).
     (case ParseGroupVersion am (rl_GroupVersion rl) of
        Inl e \<Rightarrow>
          (errs @ [WrapError (''failed to parse group version '' @ go_quote (rl_GroupVersion rl) @ '': '') e], z, w)
      | Inr gv \<Rightarrow> fold (exportResource am env snk dyn gv) (rl_APIResources rl) (errs, z, w)))"

text \<open>The clients, in the order they are built.\<close>

definition exportClients ::
  "('w, 'c, 'h, 'd, 'y) export_env \<Rightarrow> ('w, ('d \<times> 'y) result) io" where
  "exportClients env w =
     (case ee_ClientConfig env w of
        (Inl e, w1) \<Rightarrow> (Inl (WrapError ''failed to get k8s config: '' e), w1)
      | (Inr config, w1) \<Rightarrow>
     (case ee_HTTPClientFor env config of
        Inl e \<Rightarrow> (Inl (WrapError ''failed to create http client: '' e), w1)
      | Inr httpClient \<Rightarrow>
     (case ee_NewDiscoveryClient env config httpClient of
        Inl e \<Rightarrow> (Inl (WrapError ''failed to create discovery client: '' e), w1)
      | Inr discoveryClient \<Rightarrow>
     (case ee_NewDynamicClient env config httpClient of
        Inl e \<Rightarrow> (Inl (WrapError ''failed to create dynamic client: '' e), w1)
      | Inr dynamicClient \<Rightarrow> (Inr (discoveryClient, dynamicClient), w1)))))"

text \<open>What the discovery result means: an error that ends the export, or the errors to start with.\<close>

definition discoveryErrors ::
  "('w, 'c, 'h, 'd, 'y) export_env \<Rightarrow> APIResourceList list \<times> goerror option \<Rightarrow> goerror list result" where
  "discoveryErrors env answer =
     (case answer of
        (_, None) \<Rightarrow> Inr []
      | (rls, Some e) \<Rightarrow>
          if \<not> ee_IsGroupDiscoveryFailedError env e then
            (if length rls = 0 then Inl (WrapError ''failed to discover resources: '' e)
             else Inr [WrapError ''partial discovery error: '' e])
          else Inr [])"

definition exportBody ::
  "apimachinery \<Rightarrow> ('w, 'c, 'h, 'd, 'y) export_env \<Rightarrow> 'z sink \<Rightarrow> 'z \<times> 'w \<Rightarrow> goerror option \<times> 'z \<times> 'w" where
  "exportBody am env snk = (\<lambda>(z, w).
     (case exportClients env w of
        (Inl e, w1) \<Rightarrow> (Some e, z, w1)
      | (Inr (discoveryClient, dynamicClient), w1) \<Rightarrow>
     (case ee_ServerPreferredResources env discoveryClient w1 of
        (answer, w2) \<Rightarrow>
     (case discoveryErrors env answer of
        Inl e \<Rightarrow> (Some e, z, w2)
      | Inr errs \<Rightarrow>
          (case fold (exportList am env snk dynamicClient) (fst answer) (errs, z, w2) of
             (errs', z', w') \<Rightarrow> (errors_Join (map Some errs'), z', w'))))))"

text \<open>\<^verbatim>\<open>RunExport\<close>, with the deferred close of the sink. The state of the sink is \<open>None\<close> when none was
  created.\<close>

definition RunExport ::
  "apimachinery \<Rightarrow> ('w, 'c, 'h, 'd, 'y) export_env \<Rightarrow> (string \<Rightarrow> 'z result) \<Rightarrow> 'z sink \<Rightarrow> string \<Rightarrow> 'w \<Rightarrow>
     goerror option \<times> 'z option \<times> 'w" where
  "RunExport am env newSink snk output w =
     (if output = [] then (Some (ErrorString (''required flag(s) '' @ go_quote ''output'' @ '' not set'')), None, w)
      else
        (case newSink output of
           Inl e \<Rightarrow> (Some (WrapError ''failed to create sink: '' e), None, w)
         | Inr z \<Rightarrow>
             (case exportBody am env snk (z, w) of
                (ret, z1, w1) \<Rightarrow>
                  (case sink_Close snk z1 of
                     (None, z2) \<Rightarrow> (ret, Some z2, w1)
                   | (Some e, z2) \<Rightarrow>
                       ((if ret = None then Some (WrapError ''failed to close sink: '' e) else ret), Some z2, w1)))))"

text \<open>\<^verbatim>\<open>RunE\<close> of the export command, and the program with the zip sink.\<close>

definition runExportCommand ::
  "apimachinery \<Rightarrow> ('w, 'c, 'h, 'd, 'y) export_env \<Rightarrow> (string \<Rightarrow> goerror option list result) \<Rightarrow>
     (string list \<Rightarrow> string) \<Rightarrow> string list \<Rightarrow> string \<Rightarrow> 'w \<Rightarrow> goerror option \<times> zip_file option \<times> 'w" where
  "runExportCommand am env os_Create show_args args output w =
     (if length args > 0 then (Some (ErrorString (''unexpected arguments: '' @ show_args args)), None, w)
      else RunExport am env (NewZipSink os_Create) ZipSink output w)"

text \<open>An object with the names Kubernetes allows, for which the directories of the exporter are
  unambiguous.\<close>

definition plainItem :: "apimachinery \<Rightarrow> GroupVersionResource \<Rightarrow> jobject \<Rightarrow> bool" where
  "plainItem am gvr item \<longleftrightarrow>
     (GetNamespace am item = [] \<or> plainElem (GetNamespace am item)) \<and> GetNamespace am item \<noteq> ''_cluster'' \<and>
     (gvr_Group gvr = [] \<or> plainElem (gvr_Group gvr)) \<and> gvr_Group gvr \<noteq> ''core'' \<and>
     plainElem (GetKind am item) \<and> CHR ''/'' \<notin> set (GetName am item)"

section \<open>What ends up in the archive\<close>

text \<open>The reference: the entries an export should write, computed from the API alone. Lists that fail
  and objects that cannot be encoded contribute nothing.\<close>

definition itemEntries ::
  "apimachinery \<Rightarrow> ('w, 'c, 'h, 'd, 'y) export_env \<Rightarrow> GroupVersionResource \<Rightarrow> jobject \<Rightarrow> (string \<times> string) list" where
  "itemEntries am env gvr item = (case ee_Marshal env item of Inl _ \<Rightarrow> [] | Inr data \<Rightarrow> [(itemPath am gvr item, data)])"

definition resourceInventory ::
  "apimachinery \<Rightarrow> ('w, 'c, 'h, 'd, 'y) export_env \<Rightarrow> 'y \<Rightarrow> string \<times> string \<Rightarrow> APIResource \<Rightarrow>
     (string \<times> string) list \<times> 'w \<Rightarrow> (string \<times> string) list \<times> 'w" where
  "resourceInventory am env dyn gv resource = (\<lambda>(es, w).
     (if \<not> exported resource then (es, w)
      else
        (let gvr = \<lparr>gvr_Group = fst gv, gvr_Version = snd gv, gvr_Resource = res_Name resource\<rparr> in
         case ee_List env dyn gvr w of
           (Inl e, w1) \<Rightarrow> (es, w1)
         | (Inr items, w1) \<Rightarrow> (es @ concat (map (itemEntries am env gvr) items), w1))))"

definition listInventory ::
  "apimachinery \<Rightarrow> ('w, 'c, 'h, 'd, 'y) export_env \<Rightarrow> 'y \<Rightarrow> APIResourceList \<Rightarrow>
     (string \<times> string) list \<times> 'w \<Rightarrow> (string \<times> string) list \<times> 'w" where
  "listInventory am env dyn rl s =
     (case ParseGroupVersion am (rl_GroupVersion rl) of
        Inl e \<Rightarrow> s
      | Inr gv \<Rightarrow> fold (resourceInventory am env dyn gv) (rl_APIResources rl) s)"

definition inventory ::
  "apimachinery \<Rightarrow> ('w, 'c, 'h, 'd, 'y) export_env \<Rightarrow> 'y \<Rightarrow> APIResourceList list \<Rightarrow> 'w \<Rightarrow>
     (string \<times> string) list \<times> 'w" where
  "inventory am env dyn rls w = fold (listInventory am env dyn) rls ([], w)"

text \<open>The loops of the exporter against the reference: errors are only added, the world is the same, and
  if no error was added, or if the storage is sound, the sink received exactly the reference's
  entries.\<close>

definition follows ::
  "('z \<Rightarrow> (string \<times> string) list) \<Rightarrow> ('z \<Rightarrow> bool) \<Rightarrow> ('z, 'w) export_state \<Rightarrow> ('z, 'w) export_state \<Rightarrow>
     (string \<times> string) list \<times> 'w \<Rightarrow> (string \<times> string) list \<times> 'w \<Rightarrow> bool" where
  "follows archived sound s s' r r' \<longleftrightarrow>
     (\<exists>more new. fst s' = fst s @ more \<and> fst r' = fst r @ new \<and>
        (snd (snd s) = snd r \<longrightarrow> snd (snd s') = snd r') \<and>
        (sound (fst (snd s)) \<longrightarrow> sound (fst (snd s'))) \<and>
        (more = [] \<or> sound (fst (snd s)) \<longrightarrow> archived (fst (snd s')) = archived (fst (snd s)) @ new))"

lemma follows_refl [simp]: "follows archived sound s s r r"
  by (simp add: follows_def)

lemma follows_trans:
  assumes "follows archived sound s1 s2 r1 r2" and "follows archived sound s2 s3 r2 r3"
  shows "follows archived sound s1 s3 r1 r3"
proof -
  from assms(1) obtain m1 n1 where 1: "fst s2 = fst s1 @ m1" "fst r2 = fst r1 @ n1"
    "snd (snd s1) = snd r1 \<longrightarrow> snd (snd s2) = snd r2"
    "sound (fst (snd s1)) \<longrightarrow> sound (fst (snd s2))"
    "m1 = [] \<or> sound (fst (snd s1)) \<longrightarrow> archived (fst (snd s2)) = archived (fst (snd s1)) @ n1"
    unfolding follows_def by blast
  from assms(2) obtain m2 n2 where 2: "fst s3 = fst s2 @ m2" "fst r3 = fst r2 @ n2"
    "snd (snd s2) = snd r2 \<longrightarrow> snd (snd s3) = snd r3"
    "sound (fst (snd s2)) \<longrightarrow> sound (fst (snd s3))"
    "m2 = [] \<or> sound (fst (snd s2)) \<longrightarrow> archived (fst (snd s3)) = archived (fst (snd s2)) @ n2"
    unfolding follows_def by blast
  show ?thesis
    unfolding follows_def by (rule exI [of _ "m1 @ m2"], rule exI [of _ "n1 @ n2"]) (use 1 2 in auto)
qed

lemma follows_fold:
  assumes "\<And>x s r. snd (snd s) = snd r \<Longrightarrow> follows archived sound s (f x s) r (g x r)"
  shows "snd (snd s) = snd r \<Longrightarrow> follows archived sound s (fold f xs s) r (fold g xs r)"
proof (induction xs arbitrary: s r)
  case (Cons x xs)
  have step: "follows archived sound s (f x s) r (g x r)" by (rule assms [OF Cons.prems])
  then have "snd (snd (f x s)) = snd (g x r)" using Cons.prems by (auto simp: follows_def)
  from follows_trans [OF step Cons.IH [OF this]] show ?case by simp
qed simp

context sink_contract
begin

lemma exportItem_sound:
  "sound z \<Longrightarrow> exportItem am env snk gvr item z = (err, z') \<Longrightarrow> sound z'"
  by (auto simp: exportItem_def dest: write_sound split: sum.splits prod.splits option.splits)

lemma exportItem_entries:
  assumes "exportItem am env snk gvr item z = (err, z')" and "err = None \<or> sound z"
  shows "archived z' = archived z @ itemEntries am env gvr item"
proof (cases "ee_Marshal env item")
  case (Inl e)
  with assms(1) show ?thesis by (simp add: exportItem_def itemEntries_def)
next
  case (Inr data)
  obtain res z1 where w: "sink_Write snk (itemPath am gvr item) data z = (res, z1)" by (metis prod.exhaust)
  with assms Inr have "res = None"
    by (cases res) (auto simp: exportItem_def dest: write_sound)
  with w write_ok assms(1) Inr show ?thesis by (simp add: exportItem_def itemEntries_def)
qed

lemma exportItems_entries:
  assumes "exportItems am env snk gvr items (errs, z) = (errs', z')"
  shows "\<exists>more. errs' = errs @ more \<and> (sound z \<longrightarrow> sound z') \<and> (more = [] \<or> sound z \<longrightarrow>
    archived z' = archived z @ concat (map (itemEntries am env gvr) items))"
  using assms
proof (induction items arbitrary: errs z)
  case Nil
  then show ?case by (simp add: exportItems_def)
next
  case (Cons item items)
  obtain err z1 where item: "exportItem am env snk gvr item z = (err, z1)" by (metis prod.exhaust)
  with Cons.prems have "exportItems am env snk gvr items (collect errs err, z1) = (errs', z')"
    by (simp add: exportItems_def)
  from Cons.IH [OF this] obtain more where more: "errs' = collect errs err @ more" "sound z1 \<longrightarrow> sound z'"
    "more = [] \<or> sound z1 \<longrightarrow> archived z' = archived z1 @ concat (map (itemEntries am env gvr) items)"
    by blast
  have sound: "sound z \<longrightarrow> sound z1" using exportItem_sound [OF _ item] by blast
  show ?case
  proof (rule exI [of _ "non_nil [err] @ more"], intro conjI impI)
    show "errs' = errs @ non_nil [err] @ more"
      using more(1) by (simp add: collect_def split: option.split)
    show "sound z'" if "sound z" using that sound more(2) by blast
    assume quiet: "non_nil [err] @ more = [] \<or> sound z"
    then have "err = None \<or> sound z" by (auto split: option.splits)
    from exportItem_entries [OF item this] more(3) quiet sound
    show "archived z' = archived z @ concat (map (itemEntries am env gvr) (item # items))" by auto
  qed
qed

lemma exportResource_follows:
  assumes "snd (snd s) = snd r"
  shows "follows archived sound s (exportResource am env snk dyn gv res s) r (resourceInventory am env dyn gv res r)"
proof -
  obtain errs z w where s: "s = (errs, z, w)" by (cases s)
  obtain es where r: "r = (es, w)" using assms s by (cases r) auto
  let ?gvr = "\<lparr>gvr_Group = fst gv, gvr_Version = snd gv, gvr_Resource = res_Name res\<rparr>"
  obtain ans w1 where l: "ee_List env dyn ?gvr w = (ans, w1)" by (metis prod.exhaust)
  show ?thesis
  proof (cases "exported res")
    case True
    show ?thesis
    proof (cases ans)
      case (Inl e)
      with l True show ?thesis
        by (simp add: s r exportResource_def resourceInventory_def Let_def follows_def)
    next
      case (Inr items)
      obtain errs' z' where it: "exportItems am env snk ?gvr items (errs, z) = (errs', z')" by (metis prod.exhaust)
      from exportItems_entries [OF it] l True Inr show ?thesis
        by (auto simp: s r exportResource_def resourceInventory_def Let_def follows_def it)
    qed
  qed (simp add: s r exportResource_def resourceInventory_def)
qed

lemma exportList_follows:
  assumes "snd (snd s) = snd r"
  shows "follows archived sound s (exportList am env snk dyn rl s) r (listInventory am env dyn rl r)"
proof (cases "ParseGroupVersion am (rl_GroupVersion rl)")
  case (Inl e)
  with assms show ?thesis
    by (cases s) (auto simp: exportList_def listInventory_def follows_def)
next
  case (Inr gv)
  have "follows archived sound s (fold (exportResource am env snk dyn gv) (rl_APIResources rl) s)
      r (fold (resourceInventory am env dyn gv) (rl_APIResources rl) r)"
    by (rule follows_fold [OF exportResource_follows assms])
  with Inr show ?thesis by (cases s) (simp add: exportList_def listInventory_def)
qed

lemma export_follows:
  assumes "fold (exportList am env snk dyn) rls (errs, z, w) = (errs', z', w')"
  shows "\<exists>more. errs' = errs @ more \<and> w' = snd (inventory am env dyn rls w) \<and>
    (more = [] \<or> sound z \<longrightarrow> archived z' = archived z @ fst (inventory am env dyn rls w))"
proof -
  have "follows archived sound (errs, z, w) (fold (exportList am env snk dyn) rls (errs, z, w))
      ([], w) (fold (listInventory am env dyn) rls ([], w))"
    by (rule follows_fold [OF exportList_follows]) simp_all
  with assms show ?thesis by (auto simp: follows_def inventory_def)
qed

end

text \<open>A successful \<^verbatim>\<open>RunExport\<close> leaves a complete and finished archive.\<close>

lemma RunExport_complete:
  assumes "RunExport am env (NewZipSink os_Create) ZipSink output w = (None, z, w')"
  shows "\<exists>disc dyn w1 rls derr w2 zf.
    exportClients env w = (Inr (disc, dyn), w1) \<and>
    ee_ServerPreferredResources env disc w1 = ((rls, derr), w2) \<and>
    (case derr of None \<Rightarrow> True | Some e \<Rightarrow> ee_IsGroupDiscoveryFailedError env e) \<and>
    z = Some zf \<and> zf_entries zf = fst (inventory am env dyn rls w2) \<and> w' = snd (inventory am env dyn rls w2) \<and>
    zf_writerClosed zf \<and> zf_fileClosed zf"
proof -
  from assms obtain z0 where z0: "NewZipSink os_Create output = Inr z0"
    by (auto simp: RunExport_def split: if_splits sum.splits)
  obtain z1 where body: "exportBody am env ZipSink (z0, w) = (None, z1, w')"
    and close: "\<exists>zf. ZipSink_Close z1 = (None, zf) \<and> z = Some zf"
    using assms z0
    by (auto simp: RunExport_def ZipSink_def split: if_splits prod.splits option.splits)
  then obtain zf where zf: "ZipSink_Close z1 = (None, zf)" "z = Some zf" by blast
  from body obtain disc dyn w1 where cl: "exportClients env w = (Inr (disc, dyn), w1)"
    by (auto simp: exportBody_def split: prod.splits sum.splits)
  obtain rls derr w2 where d: "ee_ServerPreferredResources env disc w1 = ((rls, derr), w2)"
    by (metis prod.exhaust)
  from body cl d obtain errs where errs: "discoveryErrors env (rls, derr) = Inr errs"
    by (auto simp: exportBody_def split: sum.splits)
  obtain errs' z2 w3 where fold: "fold (exportList am env ZipSink dyn) rls (errs, z0, w2) = (errs', z2, w3)"
    by (metis prod.exhaust)
  from body cl d errs fold have "errors_Join (map Some errs') = None" "z2 = z1" "w3 = w'"
    by (simp_all add: exportBody_def)
  then have no: "errs' = []" "z2 = z1" "w3 = w'" by (auto simp: errors_Join_map_Some split: if_splits)
  from zs.export_follows [OF fold] no have f: "errs = []" "w' = snd (inventory am env dyn rls w2)"
    "zf_entries z1 = zf_entries z0 @ fst (inventory am env dyn rls w2)" by auto
  have "zf_entries z0 = []" using z0 by (auto simp: NewZipSink_def split: sum.splits)
  moreover have "case derr of None \<Rightarrow> True | Some e \<Rightarrow> ee_IsGroupDiscoveryFailedError env e"
    using errs f(1) by (auto simp: discoveryErrors_def split: option.splits if_splits)
  moreover have "zf_writerClosed zf \<and> zf_fileClosed zf \<and> zf_entries zf = zf_entries z1"
    using ZipSink_Close_closed [OF zf(1)] .
  ultimately show ?thesis using cl d zf(2) f by auto
qed

text \<open>C38: Objects that fail do not cost the others: when the file accepts all writes, then whatever lists
  and encodings fail, the archive holds every object that could be listed and encoded, and
  nothing else.\<close>

theorem failing_objects_do_not_cost_others:
  assumes cl: "exportClients env w = (Inr (disc, dyn), w1)"
    and d: "ee_ServerPreferredResources env disc w1 = ((rls, derr), w2)"
    and errs: "discoveryErrors env (rls, derr) = Inr errs"
    and z: "NewZipSink os_Create output = Inr z" "output \<noteq> []" "zf_faults z = []"
    and run: "RunExport am env (NewZipSink os_Create) ZipSink output w = (ret, Some z', w')"
  shows "zf_entries z' = fst (inventory am env dyn rls w2) \<and> w' = snd (inventory am env dyn rls w2)"
proof -
  obtain errs' z1 w3 where fold: "fold (exportList am env ZipSink dyn) rls (errs, z, w2) = (errs', z1, w3)"
    by (metis prod.exhaust)
  from zs.export_follows [OF fold] z(3) have f: "w3 = snd (inventory am env dyn rls w2)"
    "zf_entries z1 = zf_entries z @ fst (inventory am env dyn rls w2)" by auto
  have "exportBody am env ZipSink (z, w) = (errors_Join (map Some errs'), z1, w3)"
    using cl d errs fold by (simp add: exportBody_def)
  with run z(1,2) have "z' = snd (ZipSink_Close z1)" "w' = w3"
    by (auto simp: RunExport_def ZipSink_def split: prod.splits option.splits)
  moreover have "zf_entries z = []" using z(1) by (auto simp: NewZipSink_def split: sum.splits)
  ultimately show ?thesis using f ZipSink_Close_entries [of z1] by simp
qed

text \<open>A group whose discovery failed is silently skipped: an export for which discovery failed for some
  groups has the same outcome as one for which discovery returned only the other groups.\<close>

theorem failed_groups_are_skipped_silently:
  assumes "exportClients env w = (Inr (disc, dyn), w1)"
    and "ee_ServerPreferredResources env disc w1 = ((rls, Some e), w2)"
    and "ee_IsGroupDiscoveryFailedError env e"
    and "env' = env\<lparr>ee_ServerPreferredResources := \<lambda>_ _. ((rls, None), w2)\<rparr>"
  shows "exportBody am env snk (z, w) = exportBody am env' snk (z, w)"
proof -
  have item: "exportItem am env' snk = exportItem am env snk"
    by (intro ext) (simp add: assms(4) exportItem_def)
  have items: "exportItems am env' snk gvr = exportItems am env snk gvr" for gvr
    unfolding exportItems_def item ..
  have calls: "ee_List env' = ee_List env" "ee_GVRString env' = ee_GVRString env"
    "ee_ClientConfig env' = ee_ClientConfig env" "ee_HTTPClientFor env' = ee_HTTPClientFor env"
    "ee_NewDiscoveryClient env' = ee_NewDiscoveryClient env"
    "ee_NewDynamicClient env' = ee_NewDynamicClient env"
    by (simp_all add: assms(4))
  have "exportResource am env' snk dyn gv res = exportResource am env snk dyn gv res" for gv res
    unfolding exportResource_def items calls ..
  then have res: "exportResource am env' snk dyn gv = exportResource am env snk dyn gv" for gv
    by (intro ext) metis
  have "exportList am env' snk dyn rl = exportList am env snk dyn rl" for rl
    unfolding exportList_def res ..
  then have "exportList am env' snk dyn = exportList am env snk dyn" by (rule ext)
  moreover have "exportClients env' w = exportClients env w"
    unfolding exportClients_def calls ..
  ultimately show ?thesis
    using assms by (simp add: exportBody_def discoveryErrors_def)
qed

text \<open>C39: The file name of an object identifies it: for plain names, equal paths mean the same namespace
  (or both without one), the same group, kind and name. The namespace directory for cluster
  objects and the directory of the core group are only ambiguous with a namespace called
  \<^verbatim>\<open>_cluster\<close> and a group called \<^verbatim>\<open>core\<close>.\<close>

theorem paths_identify_objects:
  assumes "plainItem am gvr item" and "plainItem am gvr' item'"
    and "itemPath am gvr item = itemPath am gvr' item'"
  shows "GetNamespace am item = GetNamespace am item' \<and> gvr_Group gvr = gvr_Group gvr' \<and>
    GetKind am item = GetKind am item' \<and> GetName am item = GetName am item'"
proof -
  have segs: "strings_Split (itemPath am g i) (CHR ''/'') =
      [if GetNamespace am i = [] then ''_cluster'' else GetNamespace am i,
       if gvr_Group g = [] then ''core'' else gvr_Group g, GetKind am i, GetName am i @ ''.yaml'']"
    if "plainItem am g i" for g i
    unfolding itemPath_def using that
    by (intro Join_plain(2)) (auto simp: plainItem_def plainElem_def)
  from segs [OF assms(1)] segs [OF assms(2)] assms show ?thesis
    by (auto simp: plainItem_def split: if_splits)
qed

end
