(* ===== verification/Command.thy ===== *)
theory Command
  imports Export
begin

text \<open>
  \<^verbatim>\<open>main.go\<close> and \<^verbatim>\<open>BuildExportCommand\<close> of \<^verbatim>\<open>pkg/export/export.go\<close>: the command line of kube-etl. The library
  cobra is a parameter: \<open>execute\<close> is \<^verbatim>\<open>Execute\<close> of the root command on the arguments of the process, and
  \<open>cobra_laws\<close> states what is documented of it for the command lines considered here. What a command
  does is a function of the values of its flags and of its arguments.
\<close>

section \<open>Commands\<close>

record string_flag =
  fl_Name :: string
  fl_Default :: string
  fl_Usage :: string

record 's cobra_Command =
  cc_Use :: string
  cc_Short :: string
  cc_Flags :: "string_flag list"
  cc_RunE :: "(string \<Rightarrow> string) \<Rightarrow> string list \<Rightarrow> ('s, goerror option) io"

record 's root_Command =
  rc_Use :: string
  rc_Short :: string
  rc_Commands :: "'s cobra_Command list"

section \<open>export.go: BuildExportCommand\<close>

record ExportOptions =
  eo_Output :: string

definition InitDefaults :: "ExportOptions \<Rightarrow> ExportOptions" where
  "InitDefaults opt = opt"

text \<open>What an export leaves: the zip file, if one was created, and the world.\<close>

type_synonym 'w process = "zip_file option \<times> 'w"

definition BuildExportCommand ::
  "apimachinery \<Rightarrow> ('w, 'c, 'h, 'd, 'y) export_env \<Rightarrow> (string \<Rightarrow> goerror option list result) \<Rightarrow>
     (string list \<Rightarrow> string) \<Rightarrow> 'w process cobra_Command" where
  "BuildExportCommand am env os_Create show_args =
     (let opt = InitDefaults \<lparr>eo_Output = []\<rparr> in
      \<lparr>cc_Use = ''export'',
       cc_Short = ''Export Kubernetes objects from the current cluster'',
       cc_Flags = [\<lparr>fl_Name = ''output'', fl_Default = eo_Output opt,
                    fl_Usage = ''Path to the output file (e.g. output.zip)''\<rparr>],
       cc_RunE = (\<lambda>flag args (_, w).
         runExportCommand am env os_Create show_args args (eo_Output (opt\<lparr>eo_Output := flag ''output''\<rparr>)) w)\<rparr>)"

section \<open>main.go\<close>

definition rootCmd :: "'s cobra_Command \<Rightarrow> 's root_Command" where
  "rootCmd exportCmd =
     \<lparr>rc_Use = ''kube-etl'', rc_Short = ''A tool for ETL operations on Kubernetes objects'',
      rc_Commands = [exportCmd]\<rparr>"

text \<open>The result is the exit status and what \<^verbatim>\<open>main\<close> prints.\<close>

definition kube_etl_main ::
  "('s root_Command \<Rightarrow> string list \<Rightarrow> ('s, goerror option) io) \<Rightarrow> 's cobra_Command \<Rightarrow> string list \<Rightarrow> 's \<Rightarrow>
     nat \<times> string \<times> 's" where
  "kube_etl_main execute exportCmd args s =
     (case execute (rootCmd exportCmd) args s of
        (Some e, s') \<Rightarrow> (1, err_msg e @ [CHR 0x0A], s')
      | (None, s') \<Rightarrow> (0, [], s'))"

section \<open>cobra\<close>

text \<open>The value of a flag: its default, unless it is given.\<close>

definition flag_value :: "string_flag list \<Rightarrow> (string \<times> string) list \<Rightarrow> string \<Rightarrow> string" where
  "flag_value flags given name =
     (case map_of given name of
        Some v \<Rightarrow> v
      | None \<Rightarrow> (case find (\<lambda>f. fl_Name f = name) flags of Some f \<Rightarrow> fl_Default f | None \<Rightarrow> []))"

definition plain_arg :: "string \<Rightarrow> bool" where
  "plain_arg arg \<longleftrightarrow> (case arg of c # _ \<Rightarrow> c \<noteq> CHR ''-'' | [] \<Rightarrow> True)"

text \<open>A command line that names the subcommand, one of its flags in the form \<^verbatim>\<open>--name=value\<close> or none, and arguments
  that do not look like flags, runs the subcommand with these values and arguments, and returns
  its error.\<close>

definition cobra_laws ::
  "('s root_Command \<Rightarrow> string list \<Rightarrow> ('s, goerror option) io) \<Rightarrow> 's cobra_Command \<Rightarrow> bool" where
  "cobra_laws execute cmd \<longleftrightarrow>
     (\<forall>args s. list_all plain_arg args \<longrightarrow>
        execute (rootCmd cmd) (cc_Use cmd # args) s = cc_RunE cmd (flag_value (cc_Flags cmd) []) args s) \<and>
     (\<forall>fl v args s. fl \<in> set (cc_Flags cmd) \<longrightarrow> list_all plain_arg args \<longrightarrow>
        execute (rootCmd cmd) (cc_Use cmd # (''--'' @ fl_Name fl @ ''='' @ v) # args) s
          = cc_RunE cmd (flag_value (cc_Flags cmd) [(fl_Name fl, v)]) args s)"

lemma cobra_lawsD:
  assumes "cobra_laws execute cmd" and "list_all plain_arg args"
  shows "execute (rootCmd cmd) (cc_Use cmd # args) s = cc_RunE cmd (flag_value (cc_Flags cmd) []) args s"
    and "fl \<in> set (cc_Flags cmd) \<Longrightarrow> execute (rootCmd cmd) (cc_Use cmd # (''--'' @ fl_Name fl @ ''='' @ v) # args) s
      = cc_RunE cmd (flag_value (cc_Flags cmd) [(fl_Name fl, v)]) args s"
  using assms unfolding cobra_laws_def by blast+

text \<open>What the two command lines of the export come to.\<close>

lemma export_command:
  assumes laws: "cobra_laws execute cmd" and args: "list_all plain_arg args"
    and cmd: "cmd = BuildExportCommand am env os_Create show_args"
  shows "execute (rootCmd cmd) (''export'' # args) s = runExportCommand am env os_Create show_args args [] (snd s)"
    and "execute (rootCmd cmd) (''export'' # (''--output='' @ path) # args) s
      = runExportCommand am env os_Create show_args args path (snd s)"
proof -
  have use: "cc_Use cmd = ''export''" by (simp add: cmd BuildExportCommand_def Let_def)
  have run: "cc_RunE cmd flag as s = runExportCommand am env os_Create show_args as (flag ''output'') (snd s)" for flag as
    by (cases s) (simp add: cmd BuildExportCommand_def Let_def)
  have none: "flag_value (cc_Flags cmd) [] ''output'' = []"
    by (simp add: cmd BuildExportCommand_def Let_def flag_value_def InitDefaults_def)
  show "execute (rootCmd cmd) (''export'' # args) s = runExportCommand am env os_Create show_args args [] (snd s)"
    using cobra_lawsD(1) [OF laws args, of s] by (simp add: use run none)
  let ?fl = "\<lparr>fl_Name = ''output'', fl_Default = [], fl_Usage = ''Path to the output file (e.g. output.zip)''\<rparr>"
  have "?fl \<in> set (cc_Flags cmd)" by (simp add: cmd BuildExportCommand_def Let_def InitDefaults_def)
  from cobra_lawsD(2) [OF laws args this, of path s]
  show "execute (rootCmd cmd) (''export'' # (''--output='' @ path) # args) s
      = runExportCommand am env os_Create show_args args path (snd s)"
    by (simp add: use run flag_value_def)
qed

section \<open>The process\<close>


text \<open>A wrong command line is refused before anything is done: without an output, or with arguments, the
  process exits with 1, prints a message, reaches no cluster and creates no file.\<close>

theorem bad_usage_touches_nothing:
  assumes laws: "cobra_laws execute cmd" and args: "list_all plain_arg args"
    and cmd: "cmd = BuildExportCommand am env os_Create show_args"
  shows "\<exists>msg. kube_etl_main execute cmd (''export'' # args) (z, w) = (1, msg, None, w) \<and> msg \<noteq> []"
    and "args \<noteq> [] \<Longrightarrow> \<exists>msg. kube_etl_main execute cmd (''export'' # (''--output='' @ path) # args) (z, w) = (1, msg, None, w) \<and> msg \<noteq> []"
  using export_command [OF laws args cmd]
  by (simp_all add: kube_etl_main_def runExportCommand_def RunExport_def)

end
