(* ===== verification/ExampleExport.thy ===== *)
theory ExampleExport
  imports ExampleCluster Command
begin

text \<open>
  A concrete environment of the exporter: discovery answers with one resource of the core group, the
  cluster has one object of it, and objects are encoded as their names.
\<close>

definition exCore :: "APIResourceList" where
  "exCore = \<lparr>rl_GroupVersion = ''v1'',
     rl_APIResources = [\<lparr>res_Name = ''namespaces'', res_Kind = ''Namespace'', res_Verbs = [''list'']\<rparr>,
       \<lparr>res_Name = ''namespaces/status'', res_Kind = ''Namespace'', res_Verbs = [''list'']\<rparr>]\<rparr>"

definition exNs :: jobject where
  "exNs = [''kind'' \<mapsto> JString ''Namespace'', ''metadata'' \<mapsto> JObject [''name'' \<mapsto> JString ''n'']]"

definition exEenv :: "(nat, unit, unit, unit, unit) export_env" where
  "exEenv =
     \<lparr>ee_ClientConfig = (\<lambda>w. (Inr (), w)),
      ee_HTTPClientFor = (\<lambda>c. Inr ()),
      ee_NewDiscoveryClient = (\<lambda>c h. Inr ()),
      ee_NewDynamicClient = (\<lambda>c h. Inr ()),
      ee_ServerPreferredResources = (\<lambda>d w. (([exCore], None), w)),
      ee_IsGroupDiscoveryFailedError = (\<lambda>e. False),
      ee_List = (\<lambda>y gvr w. (Inr [exNs], Suc w)),
      ee_GVRString = gvr_Resource,
      ee_Marshal = (\<lambda>m. Inr (GetName ex_am m))\<rparr>"

lemma exNs_facts: "GetName ex_am exNs = ''n''" "GetKind ex_am exNs = ''Namespace''" "GetNamespace ex_am exNs = []"
  by (simp_all add: ex_am_def exNs_def ex_meta_def ex_str_def)

lemma ex_ParseCore: "ParseGroupVersion ex_am ''v1'' = Inr ([], ''v1'')"
  by (simp add: ex_am_def ex_ParseGroupVersion_def Split_no_sep)

definition exPath :: string where
  "exPath = ''_cluster/core/Namespace/n.yaml''"

lemma exNs_path: "gvr_Group gvr = [] \<Longrightarrow> itemPath ex_am gvr exNs = exPath"
  by (simp add: itemPath_def exNs_facts exPath_def Join_plain plainElem_def)

lemma exExported:
  "exported \<lparr>res_Name = ''namespaces'', res_Kind = k, res_Verbs = [''list'']\<rparr>"
  "\<not> exported \<lparr>res_Name = ''namespaces/status'', res_Kind = k, res_Verbs = vs\<rparr>"
  by (simp_all add: exported_def str_simps)

lemma exInventory: "inventory ex_am exEenv () [exCore] w = ([(exPath, ''n'')], Suc w)"
  by (simp add: inventory_def listInventory_def exCore_def ex_ParseCore resourceInventory_def exExported
      exEenv_def itemEntries_def exNs_path exNs_facts)

lemma exClients: "exportClients exEenv w = (Inr ((), ()), w)"
  by (simp add: exportClients_def exEenv_def)

lemma exDiscovery: "ee_ServerPreferredResources exEenv () w = (([exCore], None), w)"
  by (simp add: exEenv_def)

definition exZip :: zip_file where
  "exZip = \<lparr>zf_entries = [(exPath, ''n'')], zf_writerClosed = True, zf_fileClosed = True, zf_faults = []\<rparr>"

lemma exRun:
  "RunExport ex_am exEenv (NewZipSink (\<lambda>p. Inr [])) ZipSink ''out.zip'' 0 = (None, Some exZip, 1)"
  by (simp add: RunExport_def NewZipSink_def exportBody_def exClients exDiscovery discoveryErrors_def
      exportList_def exCore_def ex_ParseCore exportResource_def exExported Let_def)
    (simp add: exEenv_def exportItems_def exportItem_def exNs_facts exNs_path ZipSink_def ZipSink_Write_def
      zip_Create_def zip_Write_def io_op_def ZipSink_Close_def zip_Close_def file_Close_def exZip_def
      append_last_def errors_Join_def collect_def)

text \<open>A cobra that understands one flag given in front of the arguments.\<close>

definition exFlag :: "string_flag list \<Rightarrow> string \<Rightarrow> (string \<times> string) option" where
  "exFlag flags arg =
     (case find (\<lambda>f. take (length (fl_Name f) + 3) arg = ''--'' @ fl_Name f @ ''='') flags of
        None \<Rightarrow> None | Some f \<Rightarrow> Some (fl_Name f, drop (length (fl_Name f) + 3) arg))"

definition exCobra :: "'s root_Command \<Rightarrow> string list \<Rightarrow> ('s, goerror option) io" where
  "exCobra root args s =
     (case (rc_Commands root, args) of
        ([cmd], _ # rest) \<Rightarrow>
          (case rest of
             arg # rest' \<Rightarrow>
               (case exFlag (cc_Flags cmd) arg of
                  Some g \<Rightarrow> cc_RunE cmd (flag_value (cc_Flags cmd) [g]) rest' s
                | None \<Rightarrow> cc_RunE cmd (flag_value (cc_Flags cmd) []) rest s)
           | [] \<Rightarrow> cc_RunE cmd (flag_value (cc_Flags cmd) []) rest s)
      | _ \<Rightarrow> (None, s))"

definition exExport :: "nat process cobra_Command" where
  "exExport = BuildExportCommand ex_am exEenv (\<lambda>p. Inr []) concat"

lemma exCobra_laws: "cobra_laws exCobra exExport"
proof -
  have cmd: "rc_Commands (rootCmd exExport) = [exExport]" by (simp add: rootCmd_def)
  have flags: "cc_Flags exExport = [\<lparr>fl_Name = ''output'', fl_Default = [], fl_Usage = ''Path to the output file (e.g. output.zip)''\<rparr>]"
    by (simp add: exExport_def BuildExportCommand_def Let_def InitDefaults_def)
  have "exFlag (cc_Flags exExport) arg = None" if "plain_arg arg" for arg
    using that by (cases arg) (auto simp: flags exFlag_def plain_arg_def)
  then show ?thesis
    by (auto simp: cobra_laws_def exCobra_def cmd split: list.split) (simp_all add: flags exFlag_def)
qed


theorem failing_objects_do_not_cost_others_witness:
  "zf_entries exZip = [(exPath, ''n'')]"
proof -
  have "discoveryErrors exEenv ([exCore], None) = Inr []" by (simp add: discoveryErrors_def)
  from failing_objects_do_not_cost_others [OF exClients exDiscovery this _ _ _ exRun,
      of "\<lparr>zf_entries = [], zf_writerClosed = False, zf_fileClosed = False, zf_faults = []\<rparr>"]
  show ?thesis by (simp add: NewZipSink_def exInventory)
qed

theorem paths_identify_objects_witness:
  "GetName ex_am exNs = GetName ex_am (exNs(''spec'' \<mapsto> JNull))"
proof -
  let ?gvr = "\<lparr>gvr_Group = [], gvr_Version = ''v1'', gvr_Resource = ''namespaces''\<rparr>"
  let ?other = "exNs(''spec'' \<mapsto> JNull)"
  have other: "GetName ex_am ?other = ''n''" "GetKind ex_am ?other = ''Namespace''" "GetNamespace ex_am ?other = []"
    by (simp_all add: ex_am_def exNs_def ex_meta_def ex_str_def)
  have "itemPath ex_am ?gvr exNs = itemPath ex_am ?gvr ?other"
    by (simp add: itemPath_def exNs_facts other)
  from paths_identify_objects [OF _ _ this] show ?thesis
    by (simp add: plainItem_def exNs_facts other plainElem_def)
qed

end
