(* ===== verification/GoMemory.thy ===== *)
theory GoMemory
  imports Prelude
begin

text \<open>
  A memory with addresses, for the code whose correctness depends on sharing. A cell holds a value or
  an array; a slice points to a part of an array, a nil pointer or slice is \<open>None\<close>. Cells above the
  limit are not allocated.

  The locale \<open>deep_copy\<close> is the contract of a deep copy: \<open>view\<close> gives the value a struct stands for, with
  all pointers followed (\<open>None\<close> when one leads nowhere or to a cell of another type), \<open>reach\<close> the addresses
  that this value depends on. Copying through a pointer and copying a slice keep the contract.
\<close>

section \<open>Memory\<close>

record 'c mem =
  mem_limit :: nat
  mem_cells :: "nat \<Rightarrow> 'c option"

record slice =
  sl_base :: nat
  sl_off :: nat
  sl_len :: nat

definition mem_alloc :: "'c \<Rightarrow> 'c mem \<Rightarrow> nat \<times> 'c mem" where
  "mem_alloc c m =
     (mem_limit m, m\<lparr>mem_limit := Suc (mem_limit m), mem_cells := (mem_cells m)(mem_limit m \<mapsto> c)\<rparr>)"

definition mem_store :: "nat \<Rightarrow> 'c \<Rightarrow> 'c mem \<Rightarrow> 'c mem" where
  "mem_store a c m = m\<lparr>mem_cells := (mem_cells m)(a \<mapsto> c)\<rparr>"

definition mem_load :: "('c \<Rightarrow> 'a option) \<Rightarrow> 'c mem \<Rightarrow> nat \<Rightarrow> 'a option" where
  "mem_load get m a = (case mem_cells m a of None \<Rightarrow> None | Some c \<Rightarrow> get c)"

text \<open>The elements of a slice, if it lies within an array of its type.\<close>

definition slice_elems :: "('c \<Rightarrow> 'a list option) \<Rightarrow> 'c mem \<Rightarrow> slice \<Rightarrow> 'a list option" where
  "slice_elems get m sl =
     (case mem_load get m (sl_base sl) of
        None \<Rightarrow> None
      | Some xs \<Rightarrow> if sl_off sl + sl_len sl \<le> length xs then Some (take (sl_len sl) (drop (sl_off sl) xs)) else None)"

definition mem_wf :: "'c mem \<Rightarrow> bool" where
  "mem_wf m \<longleftrightarrow> (\<forall>a \<ge> mem_limit m. mem_cells m a = None)"

definition agree :: "nat set \<Rightarrow> 'c mem \<Rightarrow> 'c mem \<Rightarrow> bool" where
  "agree A m m' \<longleftrightarrow> (\<forall>a \<in> A. mem_cells m' a = mem_cells m a)"

text \<open>\<open>m'\<close> has new cells, and all the old ones unchanged.\<close>

definition extends :: "'c mem \<Rightarrow> 'c mem \<Rightarrow> bool" where
  "extends m m' \<longleftrightarrow> mem_limit m \<le> mem_limit m' \<and> mem_wf m' \<and> agree {..<mem_limit m} m m'"

lemma extends_refl: "mem_wf m \<Longrightarrow> extends m m"
  by (simp add: extends_def agree_def)

lemma extends_trans: "extends m1 m2 \<Longrightarrow> extends m2 m3 \<Longrightarrow> extends m1 m3"
  by (simp add: extends_def agree_def)

lemma extends_wf: "extends m m' \<Longrightarrow> mem_wf m'"
  by (simp add: extends_def)

lemma extends_limit: "extends m m' \<Longrightarrow> mem_limit m \<le> mem_limit m'"
  by (simp add: extends_def)

lemma extends_agree: "extends m m' \<Longrightarrow> A \<subseteq> {..<mem_limit m} \<Longrightarrow> agree A m m'"
  by (auto simp: extends_def agree_def)

lemma agree_mono: "agree A m m' \<Longrightarrow> B \<subseteq> A \<Longrightarrow> agree B m m'"
  by (auto simp: agree_def)

lemma agree_Un [simp]: "agree (A \<union> B) m m' \<longleftrightarrow> agree A m m' \<and> agree B m m'"
  by (auto simp: agree_def)

lemma agree_store: "a \<notin> A \<Longrightarrow> agree A m (mem_store a c m)"
  by (auto simp: agree_def mem_store_def)

lemma mem_alloc_extends:
  assumes "mem_wf m" and "mem_alloc c m = (b, m')"
  shows "b = mem_limit m" "mem_limit m' = Suc b" "extends m m'" "mem_cells m' b = Some c"
  using assms by (auto simp: mem_alloc_def extends_def mem_wf_def agree_def)

text \<open>Storing to an address that is new compared to an earlier memory.\<close>

lemma extends_store:
  assumes "extends m m'" and "mem_limit m \<le> a" "a < mem_limit m'"
  shows "extends m (mem_store a c m')"
  using assms by (auto simp: extends_def mem_store_def mem_wf_def agree_def)

lemma mem_store_simps [simp]:
  "mem_limit (mem_store a c m) = mem_limit m" "mem_cells (mem_store a c m) a = Some c"
  "a' \<noteq> a \<Longrightarrow> mem_cells (mem_store a c m) a' = mem_cells m a'"
  by (simp_all add: mem_store_def)

lemma allocated: "mem_wf m \<Longrightarrow> mem_load get m a = Some x \<Longrightarrow> a < mem_limit m"
  by (force simp: mem_wf_def mem_load_def not_le [symmetric] split: option.splits)

lemma mem_load_agree: "agree {a} m m' \<Longrightarrow> mem_load get m' a = mem_load get m a"
  by (simp add: mem_load_def agree_def)

section \<open>Copying through pointers and slices\<close>

text \<open>The two shapes of generated code. \<^verbatim>\<open>if in != nil { *out = new(T); in.DeepCopyInto(*out) }\<close>, which is also the shape
  of the \<^verbatim>\<open>DeepCopy\<close> methods (where a pointer leads to no value of its type, which a Go program cannot
  reach, the copy stops):\<close>

definition copyPointer ::
  "('a \<Rightarrow> 'c) \<Rightarrow> ('c \<Rightarrow> 'a option) \<Rightarrow> 'a \<Rightarrow> ('a \<Rightarrow> 'c mem \<Rightarrow> 'a \<times> 'c mem) \<Rightarrow>
     nat option \<Rightarrow> 'c mem \<Rightarrow> nat option \<times> 'c mem" where
  "copyPointer mk get zero copyInto p m =
     (case p of
        None \<Rightarrow> (None, m)
      | Some a \<Rightarrow>
          (case mem_alloc (mk zero) m of
             (b, m1) \<Rightarrow>
               (case mem_load get m1 a of
                  None \<Rightarrow> (Some b, m1)
                | Some x \<Rightarrow> (case copyInto x m1 of (y, m2) \<Rightarrow> (Some b, mem_store b (mk y) m2)))))"

text \<open>\<^verbatim>\<open>if in != nil { *out = make([]T, len(*in)); for i := range *in { (*in)[i].DeepCopyInto(&(*out)[i]) } }\<close>:\<close>

definition copyElem ::
  "('a list \<Rightarrow> 'c) \<Rightarrow> ('c \<Rightarrow> 'a list option) \<Rightarrow> ('a \<Rightarrow> 'c mem \<Rightarrow> 'a \<times> 'c mem) \<Rightarrow> slice \<Rightarrow> nat \<Rightarrow>
     nat \<Rightarrow> 'c mem \<Rightarrow> 'c mem" where
  "copyElem mk get copyInto sl b i m =
     (case mem_load get m (sl_base sl) of
        None \<Rightarrow> m
      | Some xs \<Rightarrow>
          (case copyInto (xs ! (sl_off sl + i)) m of
             (y, m1) \<Rightarrow>
               (case mem_load get m1 b of None \<Rightarrow> m1 | Some ys \<Rightarrow> mem_store b (mk (ys[i := y])) m1)))"

definition copySlice ::
  "('a list \<Rightarrow> 'c) \<Rightarrow> ('c \<Rightarrow> 'a list option) \<Rightarrow> 'a \<Rightarrow> ('a \<Rightarrow> 'c mem \<Rightarrow> 'a \<times> 'c mem) \<Rightarrow>
     slice option \<Rightarrow> 'c mem \<Rightarrow> slice option \<times> 'c mem" where
  "copySlice mk get zero copyInto s m =
     (case s of
        None \<Rightarrow> (None, m)
      | Some sl \<Rightarrow>
          (case mem_alloc (mk (replicate (sl_len sl) zero)) m of
             (b, m1) \<Rightarrow>
               (Some \<lparr>sl_base = b, sl_off = 0, sl_len = sl_len sl\<rparr>,
                fold (copyElem mk get copyInto sl b) [0..<sl_len sl] m1)))"

definition view_pointer ::
  "('c \<Rightarrow> 'a option) \<Rightarrow> ('c mem \<Rightarrow> 'a \<Rightarrow> 'v option) \<Rightarrow> 'c mem \<Rightarrow> nat option \<Rightarrow> 'v option option" where
  "view_pointer get view m p =
     (case p of
        None \<Rightarrow> Some None
      | Some a \<Rightarrow> (case mem_load get m a of None \<Rightarrow> None | Some x \<Rightarrow> map_option Some (view m x)))"

definition reach_pointer ::
  "('c \<Rightarrow> 'a option) \<Rightarrow> ('c mem \<Rightarrow> 'a \<Rightarrow> nat set) \<Rightarrow> 'c mem \<Rightarrow> nat option \<Rightarrow> nat set" where
  "reach_pointer get reach m p =
     (case p of
        None \<Rightarrow> {}
      | Some a \<Rightarrow> insert a (case mem_load get m a of None \<Rightarrow> {} | Some x \<Rightarrow> reach m x))"

definition view_slice ::
  "('c \<Rightarrow> 'a list option) \<Rightarrow> ('c mem \<Rightarrow> 'a \<Rightarrow> 'v option) \<Rightarrow> 'c mem \<Rightarrow> slice option \<Rightarrow> 'v list option option" where
  "view_slice get view m s =
     (case s of
        None \<Rightarrow> Some None
      | Some sl \<Rightarrow>
          (case slice_elems get m sl of None \<Rightarrow> None | Some xs \<Rightarrow> map_option Some (those (map (view m) xs))))"

definition reach_slice ::
  "('c \<Rightarrow> 'a list option) \<Rightarrow> ('c mem \<Rightarrow> 'a \<Rightarrow> nat set) \<Rightarrow> 'c mem \<Rightarrow> slice option \<Rightarrow> nat set" where
  "reach_slice get reach m s =
     (case s of
        None \<Rightarrow> {}
      | Some sl \<Rightarrow>
          insert (sl_base sl)
            (case slice_elems get m sl of None \<Rightarrow> {} | Some xs \<Rightarrow> \<Union> (reach m ` set xs)))"

lemma those_map_Some:
  "those (map f xs) = Some vs \<longleftrightarrow> length vs = length xs \<and> (\<forall>i < length xs. f (xs ! i) = Some (vs ! i))"
proof (induction xs arbitrary: vs)
  case (Cons x xs)
  show ?case
  proof (cases vs)
    case (Cons w ws)
    with Cons.IH [of ws] show ?thesis
      by (auto simp: less_Suc_eq_0_disj map_option_case split: option.splits)
  qed (simp split: option.splits)
qed auto

section \<open>The contract of a deep copy\<close>

locale deep_copy =
  fixes copy :: "'a \<Rightarrow> 'c mem \<Rightarrow> 'a \<times> 'c mem"
    and view :: "'c mem \<Rightarrow> 'a \<Rightarrow> 'v option" and reach :: "'c mem \<Rightarrow> 'a \<Rightarrow> nat set"
  assumes view_frame: "agree (reach m x) m m' \<Longrightarrow> view m' x = view m x"
    and reach_frame: "agree (reach m x) m m' \<Longrightarrow> reach m' x = reach m x"
    and reach_allocated: "mem_wf m \<Longrightarrow> view m x = Some v \<Longrightarrow> reach m x \<subseteq> {..<mem_limit m}"
    and copies: "mem_wf m \<Longrightarrow> view m x = Some v \<Longrightarrow> copy x m = (y, m') \<Longrightarrow>
      extends m m' \<and> view m' y = Some v \<and> reach m' y \<subseteq> {mem_limit m..}"
begin

lemma reach_limit: "mem_wf m \<Longrightarrow> view m x = Some v \<Longrightarrow> a \<in> reach m x \<Longrightarrow> a < mem_limit m"
  using reach_allocated by blast

text \<open>A value stays as it is when other cells are added.\<close>

lemma kept:
  assumes "mem_wf m" and "view m x = Some v" and "extends m m'"
  shows "view m' x = Some v" "reach m' x = reach m x"
proof -
  have "agree (reach m x) m m'" by (rule extends_agree [OF assms(3) reach_allocated [OF assms(1,2)]])
  with assms(2) show "view m' x = Some v" "reach m' x = reach m x"
    by (simp_all add: view_frame reach_frame)
qed

text \<open>The copy and the original share nothing, and the original is unchanged.\<close>

lemma separate:
  assumes "mem_wf m" and "view m x = Some v" and "copy x m = (y, m')"
  shows "view m' x = Some v \<and> view m' y = Some v \<and> reach m' x \<inter> reach m' y = {}"
proof -
  from copies [OF assms] have y: "extends m m'" "view m' y = Some v" "reach m' y \<subseteq> {mem_limit m..}" by auto
  with kept [OF assms(1,2) y(1)] reach_allocated [OF assms(1,2)] show ?thesis by force
qed

text \<open>Whatever is written to the cells of one of the two, the other keeps its value.\<close>

lemma isolated:
  assumes "mem_wf m" and "view m x = Some v" and "copy x m = (y, m')"
  shows "agree (- reach m' y) m' m'' \<Longrightarrow> view m'' x = Some v"
    and "agree (- reach m' x) m' m'' \<Longrightarrow> view m'' y = Some v"
proof -
  from separate [OF assms] have v: "view m' x = Some v" "view m' y = Some v"
    and dis: "reach m' x \<subseteq> - reach m' y" "reach m' y \<subseteq> - reach m' x" by auto
  show "agree (- reach m' y) m' m'' \<Longrightarrow> view m'' x = Some v"
    using v(1) view_frame [OF agree_mono [OF _ dis(1)]] by simp
  show "agree (- reach m' x) m' m'' \<Longrightarrow> view m'' y = Some v"
    using v(2) view_frame [OF agree_mono [OF _ dis(2)]] by simp
qed

text \<open>Copying what a pointer points to, behind a new pointer.\<close>

lemma pointer_copy:
  assumes get: "\<And>x. get (mk x) = Some x"
  shows "deep_copy (copyPointer mk get zero copy) (view_pointer get view) (reach_pointer get reach)"
proof
  fix m m' p
  assume "agree (reach_pointer get reach m p) m m'"
  then have "view_pointer get view m' p = view_pointer get view m p \<and>
      reach_pointer get reach m' p = reach_pointer get reach m p"
  proof (cases p)
    case (Some a)
    assume agr: "agree (reach_pointer get reach m p) m m'"
    then have a: "mem_load get m' a = mem_load get m a"
      by (intro mem_load_agree) (auto simp: reach_pointer_def Some elim: agree_mono)
    show ?thesis
    proof (cases "mem_load get m a")
      case None
      with a show ?thesis by (simp add: view_pointer_def reach_pointer_def Some)
    next
      case (Some x)
      with agr have "agree (reach m x) m m'"
        by (auto simp: reach_pointer_def \<open>p = Some a\<close> elim: agree_mono)
      with a Some show ?thesis
        by (simp add: view_pointer_def reach_pointer_def \<open>p = Some a\<close> view_frame reach_frame)
    qed
  qed (simp add: view_pointer_def reach_pointer_def)
  then show "view_pointer get view m' p = view_pointer get view m p"
    and "reach_pointer get reach m' p = reach_pointer get reach m p" by auto
next
  fix m p v
  assume "mem_wf m" "view_pointer get view m p = Some v"
  then show "reach_pointer get reach m p \<subseteq> {..<mem_limit m}"
    by (auto simp: view_pointer_def reach_pointer_def split: option.splits dest: reach_limit allocated)
next
  fix m p v q m'
  assume wf: "mem_wf m" and v: "view_pointer get view m p = Some v"
    and c: "copyPointer mk get zero copy p m = (q, m')"
  show "extends m m' \<and> view_pointer get view m' q = Some v \<and> reach_pointer get reach m' q \<subseteq> {mem_limit m..}"
  proof (cases p)
    case None
    with v c wf show ?thesis by (auto simp: copyPointer_def view_pointer_def reach_pointer_def extends_refl)
  next
    case (Some a)
    with v obtain x u where x: "mem_load get m a = Some x" "view m x = Some u" "v = Some u"
      by (auto simp: view_pointer_def split: option.splits)
    obtain b m1 where al: "mem_alloc (mk zero) m = (b, m1)" by (metis prod.exhaust)
    note new = mem_alloc_extends [OF wf al]
    have "agree {a} m m1"
      using allocated [OF wf x(1)] by (intro extends_agree [OF new(3)]) simp
    then have x1: "mem_load get m1 a = Some x" using x(1) by (simp add: mem_load_agree)
    note kx = kept [OF wf x(2) new(3)]
    obtain y m2 where cp: "copy x m1 = (y, m2)" by (metis prod.exhaust)
    from copies [OF extends_wf [OF new(3)] kx(1) cp]
    have y: "extends m1 m2" "view m2 y = Some u" "reach m2 y \<subseteq> {mem_limit m1..}" by auto
    from c al x1 cp Some have q: "q = Some b" "m' = mem_store b (mk y) m2" by (simp_all add: copyPointer_def)
    have "agree (reach m2 y) m2 m'"
      unfolding q by (rule agree_store) (use y(3) new(2) in auto)
    then have "view m' y = Some u" "reach m' y = reach m2 y" using y(2) by (simp_all add: view_frame reach_frame)
    moreover have "mem_load get m' b = Some y" by (simp add: q mem_load_def get)
    moreover have "extends m m'"
      unfolding q using extends_trans [OF new(3) y(1)] extends_limit [OF y(1)] new(1,2) by (intro extends_store) auto
    ultimately show ?thesis
      using y(3) new(1,2) x(3) q(1) by (auto simp: view_pointer_def reach_pointer_def)
  qed
qed

text \<open>Copying the elements of a slice into a new array. The first \<open>i\<close> elements of the array \<open>b\<close> are copies,
  which live above it.\<close>

lemma copied_elems:
  assumes wf: "mem_wf m0" and m0: "b < mem_limit m0" "mem_load get m0 b = Some zs" "length zs = n"
    and get: "\<And>x. get (mk x) = Some x"
    and xs: "mem_load get m0 (sl_base sl) = Some xs" "sl_base sl \<noteq> b"
    and vs: "\<And>i. i < n \<Longrightarrow> view m0 (xs ! (sl_off sl + i)) = Some (vs i) \<and> b \<notin> reach m0 (xs ! (sl_off sl + i))"
  shows "i \<le> n \<Longrightarrow> m = fold (copyElem mk get copy sl b) [0..<i] m0 \<Longrightarrow>
    mem_wf m \<and> mem_limit m0 \<le> mem_limit m \<and> agree ({..<mem_limit m0} - {b}) m0 m \<and>
    (\<exists>ys. mem_load get m b = Some ys \<and> length ys = n \<and>
      (\<forall>j < i. view m (ys ! j) = Some (vs j) \<and> reach m (ys ! j) \<subseteq> {mem_limit m0..}))"
proof (induction i arbitrary: m)
  case 0
  with wf m0 show ?case by (simp add: agree_def)
next
  case (Suc i)
  define m1 where "m1 = fold (copyElem mk get copy sl b) [0..<i] m0"
  from Suc.IH [OF _ m1_def] Suc.prems obtain ys where m1: "mem_wf m1" "mem_limit m0 \<le> mem_limit m1"
    "agree ({..<mem_limit m0} - {b}) m0 m1"
    and ys: "mem_load get m1 b = Some ys" "length ys = n"
      "\<forall>j < i. view m1 (ys ! j) = Some (vs j) \<and> reach m1 (ys ! j) \<subseteq> {mem_limit m0..}" by auto
  let ?x = "xs ! (sl_off sl + i)"
  from vs [of i] Suc.prems have x0: "view m0 ?x = Some (vs i)" "b \<notin> reach m0 ?x" by auto
  with reach_allocated [OF wf x0(1)] have "agree (reach m0 ?x) m0 m1"
    by (intro agree_mono [OF m1(3)]) auto
  then have x1: "view m1 ?x = Some (vs i)" using x0 view_frame by metis
  have "agree {sl_base sl} m0 m1"
    using allocated [OF wf xs(1)] xs(2) by (intro agree_mono [OF m1(3)]) auto
  then have base: "mem_load get m1 (sl_base sl) = Some xs" using xs(1) by (simp add: mem_load_agree)
  obtain y m2 where cp: "copy ?x m1 = (y, m2)" by (metis prod.exhaust)
  from copies [OF m1(1) x1 cp] have y: "extends m1 m2" "view m2 y = Some (vs i)" "reach m2 y \<subseteq> {mem_limit m1..}"
    by auto
  have "agree {b} m1 m2" using m0(1) m1(2) by (intro extends_agree [OF y(1)]) auto
  then have b2: "mem_load get m2 b = Some ys" using ys(1) by (simp add: mem_load_agree)
  have "m = copyElem mk get copy sl b i m1" by (simp add: Suc.prems m1_def)
  then have m: "m = mem_store b (mk (ys[i := y])) m2"
    using base cp b2 by (simp add: copyElem_def)
  have st: "view m u = Some w \<and> reach m u \<subseteq> {mem_limit m0..}"
    if "view m2 u = Some w" "reach m2 u \<subseteq> {mem_limit m0..}" for u w
  proof -
    have "agree (reach m2 u) m2 m" unfolding m using that(2) m0(1) by (intro agree_store) auto
    with that show ?thesis by (simp add: view_frame reach_frame)
  qed
  have old: "view m2 (ys ! j) = Some (vs j) \<and> reach m2 (ys ! j) \<subseteq> {mem_limit m0..}" if "j < i" for j
    using kept [OF m1(1) _ y(1)] ys(3) that by fastforce
  have "reach m2 y \<subseteq> {mem_limit m0..}" using y(3) m1(2) by auto
  with st [OF y(2)] old st ys(2) Suc.prems
  have "\<forall>j < Suc i. view m (ys[i := y] ! j) = Some (vs j) \<and> reach m (ys[i := y] ! j) \<subseteq> {mem_limit m0..}"
    by (auto simp: less_Suc_eq nth_list_update)
  moreover have "mem_load get m b = Some (ys[i := y])" by (simp add: m mem_load_def get)
  moreover have "mem_wf m \<and> mem_limit m0 \<le> mem_limit m"
    using extends_wf [OF y(1)] extends_limit [OF y(1)] m0(1) m1(2) by (auto simp: m mem_wf_def mem_store_def)
  moreover have "agree ({..<mem_limit m0} - {b}) m0 m"
    using m1(2,3) y(1) by (auto simp: m agree_def extends_def)
  ultimately show ?case using ys(2) by auto
qed

lemma slice_view_iff:
  "view_slice get view m (Some sl) = Some v \<longleftrightarrow>
     (\<exists>xs vs. mem_load get m (sl_base sl) = Some xs \<and> sl_off sl + sl_len sl \<le> length xs \<and> v = Some vs \<and>
        length vs = sl_len sl \<and> (\<forall>i < sl_len sl. view m (xs ! (sl_off sl + i)) = Some (vs ! i)))"
  by (auto simp: view_slice_def slice_elems_def those_map_Some split: option.splits)

lemma slice_reach:
  assumes "mem_load get m (sl_base sl) = Some xs" and "sl_off sl + sl_len sl \<le> length xs"
  shows "reach_slice get reach m (Some sl)
    = insert (sl_base sl) (\<Union>i \<in> {..<sl_len sl}. reach m (xs ! (sl_off sl + i)))"
proof -
  have "take (sl_len sl) (drop (sl_off sl) xs) = map (\<lambda>i. xs ! (sl_off sl + i)) [0..<sl_len sl]"
    using assms(2) by (intro nth_equalityI) auto
  with assms show ?thesis by (simp add: reach_slice_def slice_elems_def atLeast0LessThan)
qed

lemma slice_frame:
  assumes "agree (reach_slice get reach m s) m m'"
  shows "view_slice get view m' s = view_slice get view m s \<and> reach_slice get reach m' s = reach_slice get reach m s"
proof (cases s)
  case (Some sl)
  with assms have "agree {sl_base sl} m m'"
    by (auto simp: reach_slice_def elim: agree_mono)
  then have elems: "slice_elems get m' sl = slice_elems get m sl"
    by (simp add: slice_elems_def mem_load_agree)
  show ?thesis
  proof (cases "slice_elems get m sl")
    case None
    with elems show ?thesis by (simp add: view_slice_def reach_slice_def Some)
  next
    case el: (Some xs)
    have agr: "agree (reach m x) m m'" if "x \<in> set xs" for x
      using assms el that by (auto simp: reach_slice_def Some elim: agree_mono)
    then have "map (view m') xs = map (view m) xs" by (intro map_cong [OF refl] view_frame) simp
    then have "those (map (view m') xs) = those (map (view m) xs)" by (rule arg_cong)
    moreover have "reach m' ` set xs = reach m ` set xs"
      by (rule image_cong [OF refl]) (simp add: reach_frame agr)
    ultimately show ?thesis using elems el
      by (simp add: view_slice_def reach_slice_def Some)
  qed
qed (simp add: view_slice_def reach_slice_def)

lemma slice_copy:
  assumes get: "\<And>x. get (mk x) = Some x"
  shows "deep_copy (copySlice mk get zero copy) (view_slice get view) (reach_slice get reach)"
proof
  fix m m' s
  assume "agree (reach_slice get reach m s) m m'"
  from slice_frame [OF this] show "view_slice get view m' s = view_slice get view m s"
    and "reach_slice get reach m' s = reach_slice get reach m s" by auto
next
  fix m s v
  assume wf: "mem_wf m" and v: "view_slice get view m s = Some v"
  show "reach_slice get reach m s \<subseteq> {..<mem_limit m}"
  proof (cases s)
    case (Some sl)
    with v obtain xs vs where xs: "mem_load get m (sl_base sl) = Some xs" "sl_off sl + sl_len sl \<le> length xs"
      "\<forall>i < sl_len sl. view m (xs ! (sl_off sl + i)) = Some (vs ! i)" by (auto simp: slice_view_iff)
    with slice_reach [OF xs(1,2)] allocated [OF wf xs(1)] reach_limit [OF wf] show ?thesis
      by (auto simp: Some)
  qed (simp add: reach_slice_def)
next
  fix m s v t m'
  assume wf: "mem_wf m" and v: "view_slice get view m s = Some v" and c: "copySlice mk get zero copy s m = (t, m')"
  show "extends m m' \<and> view_slice get view m' t = Some v \<and> reach_slice get reach m' t \<subseteq> {mem_limit m..}"
  proof (cases s)
    case None
    with v c wf show ?thesis by (auto simp: copySlice_def view_slice_def reach_slice_def extends_refl)
  next
    case (Some sl)
    with v obtain xs vs where xs: "mem_load get m (sl_base sl) = Some xs" "sl_off sl + sl_len sl \<le> length xs"
      "v = Some vs" "length vs = sl_len sl"
      and el: "\<forall>i < sl_len sl. view m (xs ! (sl_off sl + i)) = Some (vs ! i)" by (auto simp: slice_view_iff)
    obtain b m1 where al: "mem_alloc (mk (replicate (sl_len sl) zero)) m = (b, m1)" by (metis prod.exhaust)
    note new = mem_alloc_extends [OF wf al]
    have t: "t = Some \<lparr>sl_base = b, sl_off = 0, sl_len = sl_len sl\<rparr>"
      "m' = fold (copyElem mk get copy sl b) [0..<sl_len sl] m1"
      using c al Some by (simp_all add: copySlice_def)
    have base: "sl_base sl < mem_limit m" by (rule allocated [OF wf xs(1)])
    have x1: "mem_load get m1 (sl_base sl) = Some xs"
      using xs(1) base mem_load_agree [OF extends_agree [OF new(3), of "{sl_base sl}"], of get] by simp
    have z: "mem_load get m1 b = Some (replicate (sl_len sl) zero)" by (simp add: mem_load_def new(4) get)
    have el1: "view m1 (xs ! (sl_off sl + i)) = Some (vs ! i) \<and> b \<notin> reach m1 (xs ! (sl_off sl + i))"
      if "i < sl_len sl" for i
    proof -
      have e: "view m (xs ! (sl_off sl + i)) = Some (vs ! i)" using el that by simp
      from kept [OF wf e new(3)] reach_limit [OF wf e, of b] new(1) show ?thesis by auto
    qed
    have ne: "sl_base sl \<noteq> b" "b < mem_limit m1" using base new(1,2) by auto
    have len: "length (replicate (sl_len sl) zero) = sl_len sl" by simp
    from copied_elems [OF extends_wf [OF new(3)] ne(2) z len get x1 ne(1) el1 order_refl t(2)]
    obtain ys where m': "mem_wf m'" "mem_limit m1 \<le> mem_limit m'" "agree ({..<mem_limit m1} - {b}) m1 m'"
      and ys: "mem_load get m' b = Some ys" "length ys = sl_len sl"
        "\<forall>j < sl_len sl. view m' (ys ! j) = Some (vs ! j) \<and> reach m' (ys ! j) \<subseteq> {mem_limit m1..}" by auto
    have "extends m m'"
      using new(1,2,3) m' by (auto simp: extends_def agree_def)
    moreover have "view_slice get view m' t = Some v"
      unfolding t(1) slice_view_iff using ys xs(3,4) by auto
    moreover have "reach_slice get reach m' t \<subseteq> {mem_limit m..}"
      unfolding t(1) using slice_reach [of get m' "\<lparr>sl_base = b, sl_off = 0, sl_len = sl_len sl\<rparr>" ys] ys new(1,2)
      by fastforce
    ultimately show ?thesis by simp
  qed
qed

end

text \<open>One copy after another.\<close>

lemma copy_two:
  assumes 1: "deep_copy copy1 view1 reach1" and 2: "deep_copy copy2 view2 reach2"
    and m: "mem_wf m" "view1 m x1 = Some v1" "view2 m x2 = Some v2"
    and c: "copy1 x1 m = (y1, m1)" "copy2 x2 m1 = (y2, m2)"
  shows "extends m m2 \<and> view1 m2 y1 = Some v1 \<and> view2 m2 y2 = Some v2 \<and>
    reach1 m2 y1 \<subseteq> {mem_limit m..} \<and> reach2 m2 y2 \<subseteq> {mem_limit m..}"
proof -
  note y1 = deep_copy.copies [OF 1 m(1,2) c(1)]
  then have wf1: "mem_wf m1" using extends_wf by blast
  have x2: "view2 m1 x2 = Some v2" using deep_copy.kept [OF 2 m(1,3)] y1 by blast
  note y2 = deep_copy.copies [OF 2 wf1 x2 c(2)]
  have "view1 m2 y1 = Some v1 \<and> reach1 m2 y1 = reach1 m1 y1"
    using deep_copy.kept [OF 1 wf1] y1 y2 by blast
  with y1 y2 show ?thesis using extends_trans extends_limit by fastforce
qed

end
