(* ===== verification/DeepCopy.thy ===== *)
theory DeepCopy
  imports GoMemory ApiTypes
begin

text \<open>
  \<^verbatim>\<open>syncer/api/v1alpha1/zz_generated.deepcopy.go\<close>: the deep copies of the API types, over the memory of the
  theory \<open>GoMemory\<close>. Everywhere else the API types are immutable values; this is sound because the caches of controller-runtime
  hand out deep copies, and the theorems here say that a copy has the same value as the original
  and shares no memory with it.

  A struct is a record over the type of its pointer and slice fields: in memory these are addresses
  and slices, in a value they are what is found there. Nil and an empty slice differ in both.
\<close>

section \<open>Structs, cells and zero values\<close>

record 'sl ResourceRuleFields =
  rf_Group :: string
  rf_Version :: string
  rf_Kind :: string
  rf_Namespaces :: 'sl
  rf_SyncFields :: 'sl

record 'p RemoteConfigFields =
  cf_GKECluster :: 'p

record ('p, 'sl) KRMSyncerSpecFields =
  sf_Suspend :: bool
  sf_Mode :: Mode
  sf_Remote :: 'p
  sf_Rules :: 'sl

record 'sl KRMSyncerStatusFields =
  tf_Conditions :: 'sl

record ('om, 'spec, 'status) KRMSyncerFields =
  kf_TypeMeta :: "string \<times> string"
  kf_ObjectMeta :: 'om
  kf_Spec :: 'spec
  kf_Status :: 'status

record ('lm, 'sl) KRMSyncerListFields =
  lf_TypeMeta :: "string \<times> string"
  lf_ListMeta :: 'lm
  lf_Items :: 'sl

type_synonym ResourceRuleMem = "slice option ResourceRuleFields"
type_synonym RemoteConfigMem = "nat option RemoteConfigFields"
type_synonym KRMSyncerSpecMem = "(nat option, slice option) KRMSyncerSpecFields"
type_synonym KRMSyncerStatusMem = "slice option KRMSyncerStatusFields"
type_synonym 'om KRMSyncerMem = "('om, KRMSyncerSpecMem, KRMSyncerStatusMem) KRMSyncerFields"
type_synonym 'lm KRMSyncerListMem = "('lm, slice option) KRMSyncerListFields"

type_synonym ResourceRuleVal = "string list option ResourceRuleFields"
type_synonym RemoteConfigVal = "GKECluster option RemoteConfigFields"
type_synonym KRMSyncerSpecVal = "(RemoteConfigVal option, ResourceRuleVal list option) KRMSyncerSpecFields"
type_synonym KRMSyncerStatusVal = "Condition list option KRMSyncerStatusFields"
type_synonym 'ov KRMSyncerVal = "('ov, KRMSyncerSpecVal, KRMSyncerStatusVal) KRMSyncerFields"
type_synonym ('ov, 'lv) KRMSyncerListVal = "('lv, 'ov KRMSyncerVal list option) KRMSyncerListFields"

text \<open>What a cell can hold; \<open>MetaCell\<close> is for the memory of \<^verbatim>\<open>ObjectMeta\<close> and \<^verbatim>\<open>ListMeta\<close>, whose layout is not
  ours.\<close>

datatype ('om, 'lm, 'x) cell =
    ClusterCell GKECluster
  | RemoteCell RemoteConfigMem
  | RuleCell ResourceRuleMem
  | SpecCell KRMSyncerSpecMem
  | StatusCell KRMSyncerStatusMem
  | SyncerCell "'om KRMSyncerMem"
  | ListCell "'lm KRMSyncerListMem"
  | StringsCell "string list"
  | RulesCell "ResourceRuleMem list"
  | ConditionsCell "Condition list"
  | SyncersCell "'om KRMSyncerMem list"
  | MetaCell 'x

type_synonym ('om, 'lm, 'x) store = "('om, 'lm, 'x) cell mem"
type_synonym ('om, 'lm, 'x, 'a) copier = "'a \<Rightarrow> ('om, 'lm, 'x) store \<Rightarrow> 'a \<times> ('om, 'lm, 'x) store"

definition getCluster :: "('om, 'lm, 'x) cell \<Rightarrow> GKECluster option" where
  "getCluster c = (case c of ClusterCell v \<Rightarrow> Some v | _ \<Rightarrow> None)"
definition getRemote :: "('om, 'lm, 'x) cell \<Rightarrow> RemoteConfigMem option" where
  "getRemote c = (case c of RemoteCell v \<Rightarrow> Some v | _ \<Rightarrow> None)"
definition getRule :: "('om, 'lm, 'x) cell \<Rightarrow> ResourceRuleMem option" where
  "getRule c = (case c of RuleCell v \<Rightarrow> Some v | _ \<Rightarrow> None)"
definition getSpec :: "('om, 'lm, 'x) cell \<Rightarrow> KRMSyncerSpecMem option" where
  "getSpec c = (case c of SpecCell v \<Rightarrow> Some v | _ \<Rightarrow> None)"
definition getStatus :: "('om, 'lm, 'x) cell \<Rightarrow> KRMSyncerStatusMem option" where
  "getStatus c = (case c of StatusCell v \<Rightarrow> Some v | _ \<Rightarrow> None)"
definition getSyncer :: "('om, 'lm, 'x) cell \<Rightarrow> 'om KRMSyncerMem option" where
  "getSyncer c = (case c of SyncerCell v \<Rightarrow> Some v | _ \<Rightarrow> None)"
definition getList :: "('om, 'lm, 'x) cell \<Rightarrow> 'lm KRMSyncerListMem option" where
  "getList c = (case c of ListCell v \<Rightarrow> Some v | _ \<Rightarrow> None)"
definition getStrings :: "('om, 'lm, 'x) cell \<Rightarrow> string list option" where
  "getStrings c = (case c of StringsCell v \<Rightarrow> Some v | _ \<Rightarrow> None)"
definition getRules :: "('om, 'lm, 'x) cell \<Rightarrow> ResourceRuleMem list option" where
  "getRules c = (case c of RulesCell v \<Rightarrow> Some v | _ \<Rightarrow> None)"
definition getConditions :: "('om, 'lm, 'x) cell \<Rightarrow> Condition list option" where
  "getConditions c = (case c of ConditionsCell v \<Rightarrow> Some v | _ \<Rightarrow> None)"
definition getSyncers :: "('om, 'lm, 'x) cell \<Rightarrow> 'om KRMSyncerMem list option" where
  "getSyncers c = (case c of SyncersCell v \<Rightarrow> Some v | _ \<Rightarrow> None)"

lemma cell_gets [simp]:
  "getCluster (ClusterCell cl) = Some cl" "getRemote (RemoteCell rc) = Some rc" "getRule (RuleCell ru) = Some ru"
  "getSpec (SpecCell sp) = Some sp" "getStatus (StatusCell st) = Some st" "getSyncer (SyncerCell k) = Some k"
  "getList (ListCell l) = Some l" "getStrings (StringsCell ss) = Some ss" "getRules (RulesCell rs) = Some rs"
  "getConditions (ConditionsCell cs) = Some cs" "getSyncers (SyncersCell ks) = Some ks"
  by (simp_all add: getCluster_def getRemote_def getRule_def getSpec_def getStatus_def getSyncer_def getList_def
      getStrings_def getRules_def getConditions_def getSyncers_def)

definition zeroCluster :: GKECluster where
  "zeroCluster = \<lparr>gke_Project = [], gke_Location = [], gke_Name = [], gke_Endpoint = []\<rparr>"
definition zeroRemote :: RemoteConfigMem where
  "zeroRemote = \<lparr>cf_GKECluster = None\<rparr>"
definition zeroRule :: ResourceRuleMem where
  "zeroRule = \<lparr>rf_Group = [], rf_Version = [], rf_Kind = [], rf_Namespaces = None, rf_SyncFields = None\<rparr>"
definition zeroSpec :: KRMSyncerSpecMem where
  "zeroSpec = \<lparr>sf_Suspend = False, sf_Mode = [], sf_Remote = None, sf_Rules = None\<rparr>"
definition zeroStatus :: KRMSyncerStatusMem where
  "zeroStatus = \<lparr>tf_Conditions = None\<rparr>"
definition zeroCondition :: Condition where
  "zeroCondition = \<lparr>cond_Type = [], cond_Status = [], cond_Reason = [], cond_Message = []\<rparr>"

text \<open>The copies of the types of \<^verbatim>\<open>k8s.io/apimachinery\<close>, and the zero values of the metadata.\<close>

record ('om, 'lm, 'x) meta_env =
  me_ObjectMeta_zero :: 'om
  me_ObjectMeta_DeepCopyInto :: "('om, 'lm, 'x, 'om) copier"
  me_ListMeta_zero :: 'lm
  me_ListMeta_DeepCopyInto :: "('om, 'lm, 'x, 'lm) copier"
  me_Condition_DeepCopyInto :: "('om, 'lm, 'x, Condition) copier"

definition zeroSyncer :: "('om, 'lm, 'x) meta_env \<Rightarrow> 'om KRMSyncerMem" where
  "zeroSyncer env = \<lparr>kf_TypeMeta = ([], []), kf_ObjectMeta = me_ObjectMeta_zero env,
     kf_Spec = zeroSpec, kf_Status = zeroStatus\<rparr>"
definition zeroList :: "('om, 'lm, 'x) meta_env \<Rightarrow> 'lm KRMSyncerListMem" where
  "zeroList env = \<lparr>lf_TypeMeta = ([], []), lf_ListMeta = me_ListMeta_zero env, lf_Items = None\<rparr>"

section \<open>zz_generated.deepcopy.go\<close>

text \<open>\<^verbatim>\<open>copy\<close> of a slice of strings, and plain assignment.\<close>

definition copyValue :: "'a \<Rightarrow> 'c mem \<Rightarrow> 'a \<times> 'c mem" where
  "copyValue x m = (x, m)"

definition GKECluster_DeepCopyInto :: "('om, 'lm, 'x, GKECluster) copier" where
  "GKECluster_DeepCopyInto inp m = (inp, m)"

definition GKECluster_DeepCopy :: "('om, 'lm, 'x, nat option) copier" where
  "GKECluster_DeepCopy = copyPointer ClusterCell getCluster zeroCluster GKECluster_DeepCopyInto"

definition RemoteConfig_DeepCopyInto :: "('om, 'lm, 'x, RemoteConfigMem) copier" where
  "RemoteConfig_DeepCopyInto inp m =
     (case copyPointer ClusterCell getCluster zeroCluster copyValue (cf_GKECluster inp) m of
        (p, m1) \<Rightarrow> (inp\<lparr>cf_GKECluster := p\<rparr>, m1))"

definition RemoteConfig_DeepCopy :: "('om, 'lm, 'x, nat option) copier" where
  "RemoteConfig_DeepCopy = copyPointer RemoteCell getRemote zeroRemote RemoteConfig_DeepCopyInto"

definition ResourceRule_DeepCopyInto :: "('om, 'lm, 'x, ResourceRuleMem) copier" where
  "ResourceRule_DeepCopyInto inp m =
     (case copySlice StringsCell getStrings [] copyValue (rf_Namespaces inp) m of
        (ns, m1) \<Rightarrow>
          (case copySlice StringsCell getStrings [] copyValue (rf_SyncFields inp) m1 of
             (fs, m2) \<Rightarrow> (inp\<lparr>rf_Namespaces := ns, rf_SyncFields := fs\<rparr>, m2)))"

definition ResourceRule_DeepCopy :: "('om, 'lm, 'x, nat option) copier" where
  "ResourceRule_DeepCopy = copyPointer RuleCell getRule zeroRule ResourceRule_DeepCopyInto"

definition KRMSyncerSpec_DeepCopyInto :: "('om, 'lm, 'x, KRMSyncerSpecMem) copier" where
  "KRMSyncerSpec_DeepCopyInto inp m =
     (case copyPointer RemoteCell getRemote zeroRemote RemoteConfig_DeepCopyInto (sf_Remote inp) m of
        (p, m1) \<Rightarrow>
          (case copySlice RulesCell getRules zeroRule ResourceRule_DeepCopyInto (sf_Rules inp) m1 of
             (rs, m2) \<Rightarrow> (inp\<lparr>sf_Remote := p, sf_Rules := rs\<rparr>, m2)))"

definition KRMSyncerSpec_DeepCopy :: "('om, 'lm, 'x, nat option) copier" where
  "KRMSyncerSpec_DeepCopy = copyPointer SpecCell getSpec zeroSpec KRMSyncerSpec_DeepCopyInto"

definition KRMSyncerStatus_DeepCopyInto ::
  "('om, 'lm, 'x) meta_env \<Rightarrow> ('om, 'lm, 'x, KRMSyncerStatusMem) copier" where
  "KRMSyncerStatus_DeepCopyInto env inp m =
     (case copySlice ConditionsCell getConditions zeroCondition (me_Condition_DeepCopyInto env)
             (tf_Conditions inp) m of
        (cs, m1) \<Rightarrow> (inp\<lparr>tf_Conditions := cs\<rparr>, m1))"

definition KRMSyncerStatus_DeepCopy :: "('om, 'lm, 'x) meta_env \<Rightarrow> ('om, 'lm, 'x, nat option) copier" where
  "KRMSyncerStatus_DeepCopy env = copyPointer StatusCell getStatus zeroStatus (KRMSyncerStatus_DeepCopyInto env)"

definition KRMSyncer_DeepCopyInto :: "('om, 'lm, 'x) meta_env \<Rightarrow> ('om, 'lm, 'x, 'om KRMSyncerMem) copier" where
  "KRMSyncer_DeepCopyInto env inp m =
     (case me_ObjectMeta_DeepCopyInto env (kf_ObjectMeta inp) m of
        (om, m1) \<Rightarrow>
          (case KRMSyncerSpec_DeepCopyInto (kf_Spec inp) m1 of
             (sp, m2) \<Rightarrow>
               (case KRMSyncerStatus_DeepCopyInto env (kf_Status inp) m2 of
                  (st, m3) \<Rightarrow> (inp\<lparr>kf_ObjectMeta := om, kf_Spec := sp, kf_Status := st\<rparr>, m3))))"

definition KRMSyncer_DeepCopy :: "('om, 'lm, 'x) meta_env \<Rightarrow> ('om, 'lm, 'x, nat option) copier" where
  "KRMSyncer_DeepCopy env = copyPointer SyncerCell getSyncer (zeroSyncer env) (KRMSyncer_DeepCopyInto env)"

definition KRMSyncerList_DeepCopyInto ::
  "('om, 'lm, 'x) meta_env \<Rightarrow> ('om, 'lm, 'x, 'lm KRMSyncerListMem) copier" where
  "KRMSyncerList_DeepCopyInto env inp m =
     (case me_ListMeta_DeepCopyInto env (lf_ListMeta inp) m of
        (lm, m1) \<Rightarrow>
          (case copySlice SyncersCell getSyncers (zeroSyncer env) (KRMSyncer_DeepCopyInto env) (lf_Items inp) m1 of
             (ks, m2) \<Rightarrow> (inp\<lparr>lf_ListMeta := lm, lf_Items := ks\<rparr>, m2)))"

definition KRMSyncerList_DeepCopy :: "('om, 'lm, 'x) meta_env \<Rightarrow> ('om, 'lm, 'x, nat option) copier" where
  "KRMSyncerList_DeepCopy env = copyPointer ListCell getList (zeroList env) (KRMSyncerList_DeepCopyInto env)"

text \<open>An interface value is nil or has a type and a pointer of that type, which may itself be nil.\<close>

datatype runtime_Object = NilObject | KRMSyncerObject "nat option" | KRMSyncerListObject "nat option"

definition KRMSyncer_DeepCopyObject ::
  "('om, 'lm, 'x) meta_env \<Rightarrow> nat option \<Rightarrow> ('om, 'lm, 'x) store \<Rightarrow> runtime_Object \<times> ('om, 'lm, 'x) store" where
  "KRMSyncer_DeepCopyObject env inp m =
     (case KRMSyncer_DeepCopy env inp m of
        (c, m1) \<Rightarrow> (if c \<noteq> None then KRMSyncerObject c else NilObject, m1))"

definition KRMSyncerList_DeepCopyObject ::
  "('om, 'lm, 'x) meta_env \<Rightarrow> nat option \<Rightarrow> ('om, 'lm, 'x) store \<Rightarrow> runtime_Object \<times> ('om, 'lm, 'x) store" where
  "KRMSyncerList_DeepCopyObject env inp m =
     (case KRMSyncerList_DeepCopy env inp m of
        (c, m1) \<Rightarrow> (if c \<noteq> None then KRMSyncerListObject c else NilObject, m1))"

section \<open>Values and sharing\<close>

definition view_value :: "'c mem \<Rightarrow> 'a \<Rightarrow> 'a option" where
  "view_value m x = Some x"

definition reach_value :: "'c mem \<Rightarrow> 'a \<Rightarrow> nat set" where
  "reach_value m x = {}"

abbreviation view_names :: "('om, 'lm, 'x) store \<Rightarrow> slice option \<Rightarrow> string list option option" where
  "view_names \<equiv> view_slice getStrings view_value"

abbreviation reach_names :: "('om, 'lm, 'x) store \<Rightarrow> slice option \<Rightarrow> nat set" where
  "reach_names \<equiv> reach_slice getStrings reach_value"

definition view_rule :: "('om, 'lm, 'x) store \<Rightarrow> ResourceRuleMem \<Rightarrow> ResourceRuleVal option" where
  "view_rule m r =
     (case (view_names m (rf_Namespaces r), view_names m (rf_SyncFields r)) of
        (Some ns, Some fs) \<Rightarrow>
          Some \<lparr>rf_Group = rf_Group r, rf_Version = rf_Version r, rf_Kind = rf_Kind r, rf_Namespaces = ns, rf_SyncFields = fs\<rparr>
      | _ \<Rightarrow> None)"

definition reach_rule :: "('om, 'lm, 'x) store \<Rightarrow> ResourceRuleMem \<Rightarrow> nat set" where
  "reach_rule m r = reach_names m (rf_Namespaces r) \<union> reach_names m (rf_SyncFields r)"

definition view_remote :: "('om, 'lm, 'x) store \<Rightarrow> RemoteConfigMem \<Rightarrow> RemoteConfigVal option" where
  "view_remote m c = map_option (\<lambda>g. \<lparr>cf_GKECluster = g\<rparr>) (view_pointer getCluster view_value m (cf_GKECluster c))"

definition reach_remote :: "('om, 'lm, 'x) store \<Rightarrow> RemoteConfigMem \<Rightarrow> nat set" where
  "reach_remote m c = reach_pointer getCluster reach_value m (cf_GKECluster c)"

definition view_spec :: "('om, 'lm, 'x) store \<Rightarrow> KRMSyncerSpecMem \<Rightarrow> KRMSyncerSpecVal option" where
  "view_spec m sp =
     (case (view_pointer getRemote view_remote m (sf_Remote sp), view_slice getRules view_rule m (sf_Rules sp)) of
        (Some rc, Some rs) \<Rightarrow>
          Some \<lparr>sf_Suspend = sf_Suspend sp, sf_Mode = sf_Mode sp, sf_Remote = rc, sf_Rules = rs\<rparr>
      | _ \<Rightarrow> None)"

definition reach_spec :: "('om, 'lm, 'x) store \<Rightarrow> KRMSyncerSpecMem \<Rightarrow> nat set" where
  "reach_spec m sp = reach_pointer getRemote reach_remote m (sf_Remote sp)
     \<union> reach_slice getRules reach_rule m (sf_Rules sp)"

definition view_status :: "('om, 'lm, 'x) store \<Rightarrow> KRMSyncerStatusMem \<Rightarrow> KRMSyncerStatusVal option" where
  "view_status m st = map_option (\<lambda>cs. \<lparr>tf_Conditions = cs\<rparr>) (view_slice getConditions view_value m (tf_Conditions st))"

definition reach_status :: "('om, 'lm, 'x) store \<Rightarrow> KRMSyncerStatusMem \<Rightarrow> nat set" where
  "reach_status m st = reach_slice getConditions reach_value m (tf_Conditions st)"

text \<open>The metadata of a KRMSyncer and of a list of them has its own values, addresses and copies.\<close>

definition view_syncer ::
  "(('om, 'lm, 'x) store \<Rightarrow> 'om \<Rightarrow> 'ov option) \<Rightarrow> ('om, 'lm, 'x) store \<Rightarrow> 'om KRMSyncerMem \<Rightarrow> 'ov KRMSyncerVal option" where
  "view_syncer omv m k =
     (case (omv m (kf_ObjectMeta k), view_spec m (kf_Spec k), view_status m (kf_Status k)) of
        (Some om, Some sp, Some st) \<Rightarrow>
          Some \<lparr>kf_TypeMeta = kf_TypeMeta k, kf_ObjectMeta = om, kf_Spec = sp, kf_Status = st\<rparr>
      | _ \<Rightarrow> None)"

definition reach_syncer ::
  "(('om, 'lm, 'x) store \<Rightarrow> 'om \<Rightarrow> nat set) \<Rightarrow> ('om, 'lm, 'x) store \<Rightarrow> 'om KRMSyncerMem \<Rightarrow> nat set" where
  "reach_syncer omr m k = omr m (kf_ObjectMeta k) \<union> (reach_spec m (kf_Spec k) \<union> reach_status m (kf_Status k))"

definition view_list ::
  "(('om, 'lm, 'x) store \<Rightarrow> 'om \<Rightarrow> 'ov option) \<Rightarrow> (('om, 'lm, 'x) store \<Rightarrow> 'lm \<Rightarrow> 'lv option) \<Rightarrow>
     ('om, 'lm, 'x) store \<Rightarrow> 'lm KRMSyncerListMem \<Rightarrow> ('ov, 'lv) KRMSyncerListVal option" where
  "view_list omv lmv m l =
     (case (lmv m (lf_ListMeta l), view_slice getSyncers (view_syncer omv) m (lf_Items l)) of
        (Some lm, Some ks) \<Rightarrow> Some \<lparr>lf_TypeMeta = lf_TypeMeta l, lf_ListMeta = lm, lf_Items = ks\<rparr>
      | _ \<Rightarrow> None)"

definition reach_list ::
  "(('om, 'lm, 'x) store \<Rightarrow> 'om \<Rightarrow> nat set) \<Rightarrow> (('om, 'lm, 'x) store \<Rightarrow> 'lm \<Rightarrow> nat set) \<Rightarrow>
     ('om, 'lm, 'x) store \<Rightarrow> 'lm KRMSyncerListMem \<Rightarrow> nat set" where
  "reach_list omr lmr m l = lmr m (lf_ListMeta l) \<union> reach_slice getSyncers (reach_syncer omr) m (lf_Items l)"

text \<open>The documented behaviour of the copies of \<^verbatim>\<open>k8s.io/apimachinery\<close>. A condition has no pointers.\<close>

definition meta_laws ::
  "('om, 'lm, 'x) meta_env \<Rightarrow> (('om, 'lm, 'x) store \<Rightarrow> 'om \<Rightarrow> 'ov option) \<Rightarrow> (('om, 'lm, 'x) store \<Rightarrow> 'om \<Rightarrow> nat set) \<Rightarrow>
     (('om, 'lm, 'x) store \<Rightarrow> 'lm \<Rightarrow> 'lv option) \<Rightarrow> (('om, 'lm, 'x) store \<Rightarrow> 'lm \<Rightarrow> nat set) \<Rightarrow> bool" where
  "meta_laws env omv omr lmv lmr \<longleftrightarrow>
     deep_copy (me_ObjectMeta_DeepCopyInto env) omv omr \<and> deep_copy (me_ListMeta_DeepCopyInto env) lmv lmr \<and>
     me_Condition_DeepCopyInto env = copyValue"

section \<open>Every copy keeps the contract\<close>

text \<open>The contract is carried from the parts of a struct to the struct.\<close>

lemma struct_of_one:
  assumes d: "deep_copy copy1 view1 reach1"
    and copy: "\<And>x m. copy x m = (case copy1 (f x) m of (y, m1) \<Rightarrow> (upd y x, m1))"
    and view: "\<And>m x. view m x = map_option (val x) (view1 m (f x))" and reach: "\<And>m x. reach m x = reach1 m (f x)"
    and upd: "\<And>y x. f (upd y x) = y" "\<And>y x. val (upd y x) = val x"
  shows "deep_copy copy view reach"
proof
  show "agree (reach m x) m m' \<Longrightarrow> view m' x = view m x" for m x m'
    by (simp add: view reach deep_copy.view_frame [OF d])
  show "agree (reach m x) m m' \<Longrightarrow> reach m' x = reach m x" for m x m'
    by (simp add: reach deep_copy.reach_frame [OF d])
  show "mem_wf m \<Longrightarrow> view m x = Some v \<Longrightarrow> reach m x \<subseteq> {..<mem_limit m}" for m x v
    by (auto simp: view reach dest: deep_copy.reach_limit [OF d])
  fix m x v y m'
  assume m: "mem_wf m" "view m x = Some v" "copy x m = (y, m')"
  then obtain v1 where v: "view1 m (f x) = Some v1" "v = val x v1" by (auto simp: view)
  obtain y1 m1 where c: "copy1 (f x) m = (y1, m1)" by (metis prod.exhaust)
  have "y = upd y1 x" "m' = m1" using m(3) c by (simp_all add: copy)
  with deep_copy.copies [OF d m(1) v(1) c] v(2)
  show "extends m m' \<and> view m' y = Some v \<and> reach m' y \<subseteq> {mem_limit m..}"
    by (simp add: view reach upd)
qed

lemma struct_of_two:
  assumes d1: "deep_copy copy1 view1 reach1" and d2: "deep_copy copy2 view2 reach2"
    and copy: "\<And>x m. copy x m = (case copy1 (f x) m of (y1, m1) \<Rightarrow>
      (case copy2 (g x) m1 of (y2, m2) \<Rightarrow> (upd y1 y2 x, m2)))"
    and view: "\<And>m x. view m x = (case (view1 m (f x), view2 m (g x)) of
      (Some v1, Some v2) \<Rightarrow> Some (val x v1 v2) | _ \<Rightarrow> None)"
    and reach: "\<And>m x. reach m x = reach1 m (f x) \<union> reach2 m (g x)"
    and upd: "\<And>y1 y2 x. f (upd y1 y2 x) = y1" "\<And>y1 y2 x. g (upd y1 y2 x) = y2" "\<And>y1 y2 x. val (upd y1 y2 x) = val x"
  shows "deep_copy copy view reach"
proof
  show "agree (reach m x) m m' \<Longrightarrow> view m' x = view m x" for m x m'
    using deep_copy.view_frame [OF d1, of m "f x" m'] deep_copy.view_frame [OF d2, of m "g x" m']
    by (simp add: view reach)
  show "agree (reach m x) m m' \<Longrightarrow> reach m' x = reach m x" for m x m'
    using deep_copy.reach_frame [OF d1, of m "f x" m'] deep_copy.reach_frame [OF d2, of m "g x" m']
    by (simp add: reach)
  show "mem_wf m \<Longrightarrow> view m x = Some v \<Longrightarrow> reach m x \<subseteq> {..<mem_limit m}" for m x v
    by (auto simp: view reach split: option.splits
        dest: deep_copy.reach_limit [OF d1] deep_copy.reach_limit [OF d2])
  fix m x v y m'
  assume m: "mem_wf m" "view m x = Some v" "copy x m = (y, m')"
  then obtain v1 v2 where v: "view1 m (f x) = Some v1" "view2 m (g x) = Some v2" "v = val x v1 v2"
    by (auto simp: view split: option.splits)
  obtain y1 m1 where c1: "copy1 (f x) m = (y1, m1)" by (metis prod.exhaust)
  obtain y2 m2 where c2: "copy2 (g x) m1 = (y2, m2)" by (metis prod.exhaust)
  have "y = upd y1 y2 x" "m' = m2" using m(3) c1 c2 by (simp_all add: copy)
  with copy_two [OF d1 d2 m(1) v(1,2) c1 c2] v(3)
  show "extends m m' \<and> view m' y = Some v \<and> reach m' y \<subseteq> {mem_limit m..}"
    by (simp add: view reach upd)
qed

interpretation plain: deep_copy copyValue view_value reach_value
  by unfold_locales (auto simp: copyValue_def view_value_def reach_value_def extends_refl)

lemma copyValue_DeepCopyInto: "GKECluster_DeepCopyInto = copyValue"
  by (intro ext) (simp add: GKECluster_DeepCopyInto_def copyValue_def)

interpretation names: deep_copy "copySlice StringsCell getStrings [] copyValue" view_names reach_names
  by (rule plain.slice_copy) simp

interpretation clusters: deep_copy "copyPointer ClusterCell getCluster zeroCluster copyValue"
  "view_pointer getCluster view_value" "reach_pointer getCluster reach_value"
  by (rule plain.pointer_copy) simp

interpretation rule: deep_copy ResourceRule_DeepCopyInto view_rule reach_rule
  by (rule struct_of_two [OF names.deep_copy_axioms names.deep_copy_axioms,
      where f = rf_Namespaces and g = rf_SyncFields and upd = "\<lambda>ns fs r. r\<lparr>rf_Namespaces := ns, rf_SyncFields := fs\<rparr>"
        and val = "\<lambda>r ns fs. \<lparr>rf_Group = rf_Group r, rf_Version = rf_Version r, rf_Kind = rf_Kind r,
          rf_Namespaces = ns, rf_SyncFields = fs\<rparr>"])
    (simp_all add: ResourceRule_DeepCopyInto_def view_rule_def reach_rule_def)

interpretation remote: deep_copy RemoteConfig_DeepCopyInto view_remote reach_remote
  by (rule struct_of_one [OF clusters.deep_copy_axioms,
      where f = cf_GKECluster and upd = "\<lambda>p c. c\<lparr>cf_GKECluster := p\<rparr>" and val = "\<lambda>_ g. \<lparr>cf_GKECluster = g\<rparr>"])
    (simp_all add: RemoteConfig_DeepCopyInto_def view_remote_def reach_remote_def)

interpretation rules: deep_copy "copySlice RulesCell getRules zeroRule ResourceRule_DeepCopyInto"
  "view_slice getRules view_rule" "reach_slice getRules reach_rule"
  by (rule rule.slice_copy) simp

interpretation remotes: deep_copy "copyPointer RemoteCell getRemote zeroRemote RemoteConfig_DeepCopyInto"
  "view_pointer getRemote view_remote" "reach_pointer getRemote reach_remote"
  by (rule remote.pointer_copy) simp

interpretation spec: deep_copy KRMSyncerSpec_DeepCopyInto view_spec reach_spec
  by (rule struct_of_two [OF remotes.deep_copy_axioms rules.deep_copy_axioms,
      where f = sf_Remote and g = sf_Rules and upd = "\<lambda>p rs sp. sp\<lparr>sf_Remote := p, sf_Rules := rs\<rparr>"
        and val = "\<lambda>sp p rs. \<lparr>sf_Suspend = sf_Suspend sp, sf_Mode = sf_Mode sp, sf_Remote = p, sf_Rules = rs\<rparr>"])
    (simp_all add: KRMSyncerSpec_DeepCopyInto_def view_spec_def reach_spec_def)

lemma status_deep_copy:
  assumes "meta_laws env omv omr lmv lmr"
  shows "deep_copy (KRMSyncerStatus_DeepCopyInto env) view_status reach_status"
proof -
  have "deep_copy (copySlice ConditionsCell getConditions zeroCondition (me_Condition_DeepCopyInto env))
      (view_slice getConditions view_value) (reach_slice getConditions reach_value)"
    using assms plain.slice_copy [of getConditions ConditionsCell zeroCondition] by (simp add: meta_laws_def)
  then show ?thesis
    by (rule struct_of_one [where f = tf_Conditions and upd = "\<lambda>cs st. st\<lparr>tf_Conditions := cs\<rparr>" and val = "\<lambda>_ cs. \<lparr>tf_Conditions = cs\<rparr>"])
      (simp_all add: KRMSyncerStatus_DeepCopyInto_def view_status_def reach_status_def)
qed

lemma pair_deep_copy:
  assumes "deep_copy copy1 view1 reach1" and "deep_copy copy2 view2 reach2"
  shows "deep_copy (\<lambda>x m. case copy1 (fst x) m of (y1, m1) \<Rightarrow> (case copy2 (snd x) m1 of (y2, m2) \<Rightarrow> ((y1, y2), m2)))
    (\<lambda>m x. case (view1 m (fst x), view2 m (snd x)) of (Some v1, Some v2) \<Rightarrow> Some (v1, v2) | _ \<Rightarrow> None)
    (\<lambda>m x. reach1 m (fst x) \<union> reach2 m (snd x))"
  by (rule struct_of_two [OF assms, where f = fst and g = snd and upd = "\<lambda>y1 y2 x. (y1, y2)" and val = "\<lambda>_. Pair"])
    simp_all

lemma syncer_deep_copy:
  assumes laws: "meta_laws env omv omr lmv lmr"
  shows "deep_copy (KRMSyncer_DeepCopyInto env) (view_syncer omv) (reach_syncer omr)"
proof -
  have om: "deep_copy (me_ObjectMeta_DeepCopyInto env) omv omr" using laws by (simp add: meta_laws_def)
  show ?thesis
    by (rule struct_of_two [OF om pair_deep_copy [OF spec.deep_copy_axioms status_deep_copy [OF laws]],
        where f = kf_ObjectMeta and g = "\<lambda>k. (kf_Spec k, kf_Status k)"
          and upd = "\<lambda>om y k. k\<lparr>kf_ObjectMeta := om, kf_Spec := fst y, kf_Status := snd y\<rparr>"
          and val = "\<lambda>k om y. \<lparr>kf_TypeMeta = kf_TypeMeta k, kf_ObjectMeta = om, kf_Spec = fst y, kf_Status = snd y\<rparr>"])
      (simp_all add: KRMSyncer_DeepCopyInto_def view_syncer_def reach_syncer_def split: prod.split option.split)
qed

lemma list_deep_copy:
  assumes laws: "meta_laws env omv omr lmv lmr"
  shows "deep_copy (KRMSyncerList_DeepCopyInto env) (view_list omv lmv) (reach_list omr lmr)"
proof -
  have lm: "deep_copy (me_ListMeta_DeepCopyInto env) lmv lmr" using laws by (simp add: meta_laws_def)
  have items: "deep_copy (copySlice SyncersCell getSyncers (zeroSyncer env) (KRMSyncer_DeepCopyInto env))
      (view_slice getSyncers (view_syncer omv)) (reach_slice getSyncers (reach_syncer omr))"
    by (rule deep_copy.slice_copy [OF syncer_deep_copy [OF laws]]) simp
  show ?thesis
    by (rule struct_of_two [OF lm items, where f = lf_ListMeta and g = lf_Items
          and upd = "\<lambda>lm ks l. l\<lparr>lf_ListMeta := lm, lf_Items := ks\<rparr>"
          and val = "\<lambda>l lm ks. \<lparr>lf_TypeMeta = lf_TypeMeta l, lf_ListMeta = lm, lf_Items = ks\<rparr>"])
      (simp_all add: KRMSyncerList_DeepCopyInto_def view_list_def reach_list_def)
qed

text \<open>The \<^verbatim>\<open>DeepCopy\<close> methods.\<close>

lemma DeepCopy_methods:
  "deep_copy GKECluster_DeepCopy (view_pointer getCluster view_value) (reach_pointer getCluster reach_value)"
  "deep_copy RemoteConfig_DeepCopy (view_pointer getRemote view_remote) (reach_pointer getRemote reach_remote)"
  "deep_copy ResourceRule_DeepCopy (view_pointer getRule view_rule) (reach_pointer getRule reach_rule)"
  "deep_copy KRMSyncerSpec_DeepCopy (view_pointer getSpec view_spec) (reach_pointer getSpec reach_spec)"
  unfolding GKECluster_DeepCopy_def RemoteConfig_DeepCopy_def ResourceRule_DeepCopy_def KRMSyncerSpec_DeepCopy_def
    copyValue_DeepCopyInto
  by (rule plain.pointer_copy remote.pointer_copy rule.pointer_copy spec.pointer_copy, simp)+

lemma DeepCopy_methods_meta:
  assumes laws: "meta_laws env omv omr lmv lmr"
  shows "deep_copy (KRMSyncerStatus_DeepCopy env) (view_pointer getStatus view_status) (reach_pointer getStatus reach_status)"
    and "deep_copy (KRMSyncer_DeepCopy env) (view_pointer getSyncer (view_syncer omv)) (reach_pointer getSyncer (reach_syncer omr))"
    and "deep_copy (KRMSyncerList_DeepCopy env) (view_pointer getList (view_list omv lmv)) (reach_pointer getList (reach_list omr lmr))"
  unfolding KRMSyncerStatus_DeepCopy_def KRMSyncer_DeepCopy_def KRMSyncerList_DeepCopy_def
  by (rule deep_copy.pointer_copy [OF status_deep_copy [OF laws]] deep_copy.pointer_copy [OF syncer_deep_copy [OF laws]]
      deep_copy.pointer_copy [OF list_deep_copy [OF laws]], simp)+

section \<open>Copies are equal and separate\<close>

text \<open>C34: A deep copy of a KRMSyncer as an object has the same value as the original, down to which slices and pointers
  are nil, the original keeps its value, and no memory is shared. The copy of a nil pointer is the
  nil object.\<close>

theorem syncer_copy_is_equal_and_separate:
  assumes laws: "meta_laws env omv omr lmv lmr" and wf: "mem_wf m"
    and v: "view_pointer getSyncer (view_syncer omv) m p = Some v"
    and copy: "KRMSyncer_DeepCopyObject env p m = (obj, m')"
  shows "(case p of
      None \<Rightarrow> obj = NilObject
    | Some _ \<Rightarrow> \<exists>q. obj = KRMSyncerObject (Some q) \<and>
        view_pointer getSyncer (view_syncer omv) m' (Some q) = Some v \<and>
        view_pointer getSyncer (view_syncer omv) m' p = Some v \<and>
        reach_pointer getSyncer (reach_syncer omr) m' p \<inter> reach_pointer getSyncer (reach_syncer omr) m' (Some q) = {})"
proof -
  obtain q where q: "KRMSyncer_DeepCopy env p m = (q, m')"
    and obj: "obj = (if q \<noteq> None then KRMSyncerObject q else NilObject)"
    using copy by (auto simp: KRMSyncer_DeepCopyObject_def split: prod.splits)
  note sep = deep_copy.separate [OF DeepCopy_methods_meta(2) [OF laws] wf v q]
  show ?thesis
  proof (cases p)
    case None
    with q obj show ?thesis by (simp add: KRMSyncer_DeepCopy_def copyPointer_def)
  next
    case (Some a)
    with q have "q \<noteq> None"
      by (auto simp: KRMSyncer_DeepCopy_def copyPointer_def split: prod.splits option.splits)
    with sep obj Some show ?thesis by auto
  qed
qed

text \<open>C35: Items of a list can be changed without changing what the list was copied from: whatever is written
  to the memory of a copied list, the original list keeps its value, and the other way round.\<close>

theorem list_copy_is_isolated:
  assumes laws: "meta_laws env omv omr lmv lmr" and wf: "mem_wf m"
    and v: "view_pointer getList (view_list omv lmv) m p = Some v"
    and copy: "KRMSyncerList_DeepCopy env p m = (q, m')"
  shows "(agree (- reach_pointer getList (reach_list omr lmr) m' q) m' m'' \<longrightarrow>
      view_pointer getList (view_list omv lmv) m'' p = Some v) \<and>
    (agree (- reach_pointer getList (reach_list omr lmr) m' p) m' m'' \<longrightarrow>
      view_pointer getList (view_list omv lmv) m'' q = Some v)"
  using deep_copy.isolated [OF DeepCopy_methods_meta(3) [OF laws] wf v copy] by simp

end
