(* ===== verification/HeapTyping.thy ===== *)
theory HeapTyping
  imports GoMemory
begin

text \<open>
  Types of memory cells. A type is given to every allocated address; for an array it has the length.
  What a value may point to is asked of the types only, not of the contents, so storing a value of
  the same type keeps everything else well typed. The locale \<open>typed_copy\<close> is the contract of a copy:
  in a well-typed memory it gives a well-typed value, keeps the memory well typed, also the cells no
  longer reachable, and never retypes an address.
\<close>

definition heap_types :: "('c \<Rightarrow> 'g) \<Rightarrow> 'c mem \<Rightarrow> nat \<Rightarrow> 'g option" where
  "heap_types tag m a = map_option tag (mem_cells m a)"

definition mem_typed :: "('c \<Rightarrow> 'g) \<Rightarrow> ((nat \<Rightarrow> 'g option) \<Rightarrow> 'c \<Rightarrow> bool) \<Rightarrow> 'c mem \<Rightarrow> bool" where
  "mem_typed tag cell_ok m \<longleftrightarrow> mem_wf m \<and> (\<forall>a c. mem_cells m a = Some c \<longrightarrow> cell_ok (heap_types tag m) c)"

definition pointer_ok :: "'g \<Rightarrow> (nat \<Rightarrow> 'g option) \<Rightarrow> nat option \<Rightarrow> bool" where
  "pointer_ok t ty p = (case p of None \<Rightarrow> True | Some a \<Rightarrow> ty a = Some t)"

text \<open>\<open>len\<close> gives the length of an array type, and \<open>None\<close> for the other types.\<close>

definition slice_ok :: "('g \<Rightarrow> nat option) \<Rightarrow> (nat \<Rightarrow> 'g option) \<Rightarrow> slice option \<Rightarrow> bool" where
  "slice_ok len ty s =
     (case s of
        None \<Rightarrow> True
      | Some sl \<Rightarrow> (case Option.bind (ty (sl_base sl)) len of
          None \<Rightarrow> False | Some n \<Rightarrow> sl_off sl + sl_len sl \<le> n))"

lemma pointer_ok_mono: "ty \<subseteq>\<^sub>m ty' \<Longrightarrow> pointer_ok t ty p \<Longrightarrow> pointer_ok t ty' p"
  by (auto simp: pointer_ok_def map_le_def dom_def split: option.splits)

lemma slice_ok_mono: "ty \<subseteq>\<^sub>m ty' \<Longrightarrow> slice_ok len ty s \<Longrightarrow> slice_ok len ty' s"
  by (auto simp: slice_ok_def map_le_def dom_def Option.bind_eq_Some_conv split: option.splits bind_splits)

lemma heap_types_Some: "heap_types tag m a = Some t \<longleftrightarrow> (\<exists>c. mem_cells m a = Some c \<and> tag c = t)"
  by (auto simp: heap_types_def)

lemma mem_typed_wf: "mem_typed tag cell_ok m \<Longrightarrow> mem_wf m"
  by (simp add: mem_typed_def)

locale typed_copy =
  fixes tag :: "'c \<Rightarrow> 'g" and cell_ok :: "(nat \<Rightarrow> 'g option) \<Rightarrow> 'c \<Rightarrow> bool"
    and copy :: "'a \<Rightarrow> 'c mem \<Rightarrow> 'a \<times> 'c mem" and ok :: "(nat \<Rightarrow> 'g option) \<Rightarrow> 'a \<Rightarrow> bool"
  assumes cell_ok_mono: "ty \<subseteq>\<^sub>m ty' \<Longrightarrow> cell_ok ty c \<Longrightarrow> cell_ok ty' c"
    and ok_mono: "ty \<subseteq>\<^sub>m ty' \<Longrightarrow> ok ty x \<Longrightarrow> ok ty' x"
    and typed: "mem_typed tag cell_ok m \<Longrightarrow> ok (heap_types tag m) x \<Longrightarrow> copy x m = (y, m') \<Longrightarrow>
      mem_typed tag cell_ok m' \<and> heap_types tag m \<subseteq>\<^sub>m heap_types tag m' \<and> ok (heap_types tag m') y"
begin

lemma alloc_typed:
  assumes m: "mem_typed tag cell_ok m" and c: "cell_ok (heap_types tag m) c" and al: "mem_alloc c m = (b, m1)"
  shows "mem_typed tag cell_ok m1" "heap_types tag m \<subseteq>\<^sub>m heap_types tag m1" "heap_types tag m1 b = Some (tag c)"
proof -
  note new = mem_alloc_extends [OF mem_typed_wf [OF m] al]
  have m1: "mem_cells m1 = (mem_cells m)(b \<mapsto> c)" and b: "mem_cells m b = None"
    using al m by (auto simp: mem_alloc_def mem_typed_def mem_wf_def)
  show le: "heap_types tag m \<subseteq>\<^sub>m heap_types tag m1"
    using b by (auto simp: map_le_def heap_types_def m1 dom_def)
  show "heap_types tag m1 b = Some (tag c)" by (simp add: heap_types_def m1)
  have "cell_ok (heap_types tag m1) c'" if "mem_cells m1 a = Some c'" for a c'
    using that c m by (intro cell_ok_mono [OF le]) (auto simp: m1 mem_typed_def split: if_splits)
  with extends_wf [OF new(3)] show "mem_typed tag cell_ok m1" by (simp add: mem_typed_def)
qed

lemma store_typed:
  assumes m: "mem_typed tag cell_ok m" and b: "heap_types tag m b = Some (tag c)" and c: "cell_ok (heap_types tag m) c"
  shows "mem_typed tag cell_ok (mem_store b c m)" "heap_types tag (mem_store b c m) = heap_types tag m"
proof -
  show ty: "heap_types tag (mem_store b c m) = heap_types tag m"
    using b by (auto simp: heap_types_def mem_store_def fun_eq_iff)
  have "mem_wf (mem_store b c m)"
    using m b by (auto simp: mem_typed_def mem_wf_def mem_store_def heap_types_def)
  then show "mem_typed tag cell_ok (mem_store b c m)"
    using m c unfolding mem_typed_def ty by (auto simp: mem_store_def)
qed

lemma pointer_typed:
  assumes get: "\<And>x. get (mk x) = Some x" and tag: "\<And>x. tag (mk x) = t" "\<And>c. tag c = t \<Longrightarrow> \<exists>x. c = mk x"
    and cell: "\<And>ty x. cell_ok ty (mk x) \<longleftrightarrow> ok ty x" and zero: "\<And>ty. ok ty zero"
  shows "typed_copy tag cell_ok (copyPointer mk get zero copy) (pointer_ok t)"
proof
  fix m p q m'
  assume m: "mem_typed tag cell_ok m" and p: "pointer_ok t (heap_types tag m) p"
    and copy: "copyPointer mk get zero copy p m = (q, m')"
  show "mem_typed tag cell_ok m' \<and> heap_types tag m \<subseteq>\<^sub>m heap_types tag m' \<and> pointer_ok t (heap_types tag m') q"
  proof (cases p)
    case None
    with copy m show ?thesis by (simp add: copyPointer_def pointer_ok_def)
  next
    case (Some a)
    obtain b m1 where al: "mem_alloc (mk zero) m = (b, m1)" by (metis prod.exhaust)
    note m1 = alloc_typed [OF m _ al, unfolded cell, OF zero]
    have "pointer_ok t (heap_types tag m1) (Some a)"
      using pointer_ok_mono [OF m1(2) p] Some by simp
    then obtain x where x: "mem_cells m1 a = Some (mk x)"
      using tag(2) by (auto simp: pointer_ok_def heap_types_Some)
    then have load: "mem_load get m1 a = Some x" by (simp add: mem_load_def get)
    have okx: "ok (heap_types tag m1) x" using m1(1) x cell by (auto simp: mem_typed_def)
    obtain y m2 where cp: "copy x m1 = (y, m2)" by (metis prod.exhaust)
    note m2 = typed [OF m1(1) okx cp]
    have b: "heap_types tag m2 b = Some (tag (mk y))"
      using m2 m1(3) tag(1) by (auto simp: map_le_def dom_def)
    note m3 = store_typed [OF _ b, unfolded cell]
    from copy al load cp Some have "q = Some b" "m' = mem_store b (mk y) m2" by (simp_all add: copyPointer_def)
    with m3 m2 m1(2) b tag(1) show ?thesis
      by (auto simp: pointer_ok_def intro: map_le_trans)
  qed
qed (auto intro: cell_ok_mono pointer_ok_mono)

text \<open>One element: it is within the array it is read from, and the array it is written to keeps its length.\<close>

lemma elem_typed:
  assumes get: "\<And>xs. get (mk xs) = Some xs" and tag: "\<And>xs. tag (mk xs) = t (length xs)"
      "\<And>c n. tag c = t n \<Longrightarrow> \<exists>xs. c = mk xs \<and> length xs = n"
    and cell: "\<And>ty xs. cell_ok ty (mk xs) \<longleftrightarrow> (\<forall>x \<in> set xs. ok ty x)"
    and m: "mem_typed tag cell_ok m" and src: "heap_types tag m (sl_base sl) = Some (t n)" "sl_off sl + i < n"
    and dst: "heap_types tag m b = Some (t k)"
  shows "mem_typed tag cell_ok (copyElem mk get copy sl b i m) \<and>
    heap_types tag m \<subseteq>\<^sub>m heap_types tag (copyElem mk get copy sl b i m)"
proof -
  obtain xs where xs: "mem_cells m (sl_base sl) = Some (mk xs)" "length xs = n"
    using src(1) tag(2) by (auto simp: heap_types_Some)
  have "xs ! (sl_off sl + i) \<in> set xs" using src(2) xs(2) by simp
  then have okx: "ok (heap_types tag m) (xs ! (sl_off sl + i))"
    using m xs(1) cell by (auto simp: mem_typed_def)
  obtain y m1 where cp: "copy (xs ! (sl_off sl + i)) m = (y, m1)" by (metis prod.exhaust)
  note m1 = typed [OF m okx cp]
  have "heap_types tag m1 b = Some (t k)" using m1 dst by (auto simp: map_le_def dom_def)
  then obtain ys where ys: "mem_cells m1 b = Some (mk ys)" "length ys = k"
    using tag(2) by (auto simp: heap_types_Some)
  have ty: "heap_types tag m1 b = Some (tag (mk (ys[i := y])))" using ys tag(1) by (simp add: heap_types_Some)
  have "\<forall>x \<in> set ys. ok (heap_types tag m1) x" using m1 ys(1) cell by (auto simp: mem_typed_def)
  with m1 have "cell_ok (heap_types tag m1) (mk (ys[i := y]))"
    unfolding cell by (auto dest: set_update_subset_insert [THEN subsetD])
  note m2 = store_typed [OF _ ty this]
  have "copyElem mk get copy sl b i m = mem_store b (mk (ys[i := y])) m1"
    using xs ys cp by (simp add: copyElem_def mem_load_def get)
  with m1 m2 show ?thesis by simp
qed

lemma slice_typed:
  assumes get: "\<And>xs. get (mk xs) = Some xs" and tag: "\<And>xs. tag (mk xs) = t (length xs)"
      "\<And>c n. tag c = t n \<Longrightarrow> \<exists>xs. c = mk xs \<and> length xs = n"
    and len: "\<And>g n. len g = Some n \<longleftrightarrow> g = t n"
    and cell: "\<And>ty xs. cell_ok ty (mk xs) \<longleftrightarrow> (\<forall>x \<in> set xs. ok ty x)" and zero: "\<And>ty. ok ty zero"
  shows "typed_copy tag cell_ok (copySlice mk get zero copy) (slice_ok len)"
proof
  fix m s q m'
  assume m: "mem_typed tag cell_ok m" and s: "slice_ok len (heap_types tag m) s"
    and copy: "copySlice mk get zero copy s m = (q, m')"
  show "mem_typed tag cell_ok m' \<and> heap_types tag m \<subseteq>\<^sub>m heap_types tag m' \<and> slice_ok len (heap_types tag m') q"
  proof (cases s)
    case None
    with copy m show ?thesis by (simp add: copySlice_def slice_ok_def)
  next
    case (Some sl)
    from s Some obtain n where n: "heap_types tag m (sl_base sl) = Some (t n)" "sl_off sl + sl_len sl \<le> n"
      by (auto simp: slice_ok_def len Option.bind_eq_Some_conv split: option.splits)
    obtain b m1 where al: "mem_alloc (mk (replicate (sl_len sl) zero)) m = (b, m1)" by (metis prod.exhaust)
    have "cell_ok (heap_types tag m) (mk (replicate (sl_len sl) zero))" using zero by (simp add: cell)
    note m1 = alloc_typed [OF m this al]
    let ?P = "\<lambda>v. mem_typed tag cell_ok v \<and> heap_types tag m1 \<subseteq>\<^sub>m heap_types tag v"
    have q: "q = Some \<lparr>sl_base = b, sl_off = 0, sl_len = sl_len sl\<rparr>"
      and m': "m' = fold (copyElem mk get copy sl b) [0..<sl_len sl] m1"
      using copy al Some by (simp_all add: copySlice_def)
    have "?P m'" unfolding m'
    proof (rule fold_preserves)
      fix i v
      assume i: "i \<in> set [0..<sl_len sl]" and v: "?P v"
      have "heap_types tag v (sl_base sl) = Some (t n)" "heap_types tag v b = Some (t (sl_len sl))"
        using v m1(2,3) n(1) tag(1) by (auto simp: map_le_def dom_def)
      from elem_typed [OF get tag cell _ this(1) _ this(2), of i] v i n(2) show "?P (copyElem mk get copy sl b i v)"
        by (auto intro: map_le_trans)
    qed (use m1 in simp)
    moreover from this have "heap_types tag m' b = Some (t (sl_len sl))"
      using m1(3) tag(1) by (auto simp: map_le_def dom_def)
    ultimately show ?thesis
      using m1(2) len [of "t (sl_len sl)" "sl_len sl"] by (auto simp: q slice_ok_def intro: map_le_trans)
  qed
qed (auto intro: cell_ok_mono slice_ok_mono)

end

text \<open>Progress: in a well-typed memory, well-typed pointers and slices have values, if what they lead to has.\<close>

lemma typed_pointer_value:
  assumes m: "mem_typed tag cell_ok m" and p: "pointer_ok t (heap_types tag m) p"
    and get: "\<And>x. get (mk x) = Some x" and tag: "\<And>c. tag c = t \<Longrightarrow> \<exists>x. c = mk x"
    and cell: "\<And>ty x. cell_ok ty (mk x) \<longleftrightarrow> ok ty x"
    and val: "\<And>x. ok (heap_types tag m) x \<Longrightarrow> view m x \<noteq> None"
  shows "view_pointer get view m p \<noteq> None"
proof (cases p)
  case (Some a)
  with p obtain c where "mem_cells m a = Some c" "tag c = t" by (auto simp: pointer_ok_def heap_types_Some)
  with tag obtain x where x: "mem_cells m a = Some (mk x)" by auto
  with m cell have "ok (heap_types tag m) x" by (auto simp: mem_typed_def)
  with x Some val show ?thesis by (simp add: view_pointer_def mem_load_def get)
qed (simp add: view_pointer_def)

lemma typed_slice_value:
  assumes m: "mem_typed tag cell_ok m" and s: "slice_ok len (heap_types tag m) s"
    and get: "\<And>xs. get (mk xs) = Some xs" and tag: "\<And>c n. tag c = t n \<Longrightarrow> \<exists>xs. c = mk xs \<and> length xs = n"
    and len: "\<And>g n. len g = Some n \<longleftrightarrow> g = t n"
    and cell: "\<And>ty xs. cell_ok ty (mk xs) \<longleftrightarrow> (\<forall>x \<in> set xs. ok ty x)"
    and val: "\<And>x. ok (heap_types tag m) x \<Longrightarrow> view m x \<noteq> None"
  shows "view_slice get view m s \<noteq> None"
proof (cases s)
  case (Some sl)
  with s obtain c n where c: "mem_cells m (sl_base sl) = Some c" "tag c = t n" "sl_off sl + sl_len sl \<le> n"
    by (auto simp: slice_ok_def len Option.bind_eq_Some_conv heap_types_Some split: option.splits)
  with tag obtain xs where xs: "c = mk xs" "length xs = n" by auto
  from m c(1) xs(1) cell have ok: "\<forall>x \<in> set xs. ok (heap_types tag m) x" by (auto simp: mem_typed_def)
  have "those (map (view m) ys) \<noteq> None" if "set ys \<subseteq> set xs" for ys
    using that ok val by (induction ys) (auto split: option.split)
  moreover have "set (take (sl_len sl) (drop (sl_off sl) xs)) \<subseteq> set xs"
    using set_drop_subset set_take_subset by fast
  ultimately have "those (map (view m) (take (sl_len sl) (drop (sl_off sl) xs))) \<noteq> None" by blast
  then show ?thesis
    using c xs Some by (auto simp: view_slice_def slice_elems_def mem_load_def get)
qed (simp add: view_slice_def)

end
