(* ===== verification/DeepCopyTyping.thy ===== *)
theory DeepCopyTyping
  imports DeepCopy HeapTyping
begin

text \<open>
  The types of the cells of \<open>DeepCopy\<close>, what a struct in memory may point to, and type soundness of the
  deep copies: in a well-typed memory they never follow a pointer to a cell of another type or leave
  an array, and the memory stays well typed. In such a memory every well-typed struct has a value,
  so the theorems about values apply to it.
\<close>

section \<open>Types\<close>

datatype 'g cell_type =
    ClusterType | RemoteType | RuleType | SpecType | StatusType | SyncerType | ListType
  | StringsType nat | RulesType nat | ConditionsType nat | SyncersType nat | MetaType 'g

text \<open>\<open>xt\<close> gives the types of the cells of the metadata.\<close>

primrec cell_tag :: "('x \<Rightarrow> 'g) \<Rightarrow> ('om, 'lm, 'x) cell \<Rightarrow> 'g cell_type" where
  "cell_tag xt (ClusterCell c) = ClusterType"
| "cell_tag xt (RemoteCell c) = RemoteType"
| "cell_tag xt (RuleCell c) = RuleType"
| "cell_tag xt (SpecCell c) = SpecType"
| "cell_tag xt (StatusCell c) = StatusType"
| "cell_tag xt (SyncerCell c) = SyncerType"
| "cell_tag xt (ListCell c) = ListType"
| "cell_tag xt (StringsCell xs) = StringsType (length xs)"
| "cell_tag xt (RulesCell xs) = RulesType (length xs)"
| "cell_tag xt (ConditionsCell xs) = ConditionsType (length xs)"
| "cell_tag xt (SyncersCell xs) = SyncersType (length xs)"
| "cell_tag xt (MetaCell x) = MetaType (xt x)"

definition stringsLen :: "'g cell_type \<Rightarrow> nat option" where
  "stringsLen g = (case g of StringsType n \<Rightarrow> Some n | _ \<Rightarrow> None)"
definition rulesLen :: "'g cell_type \<Rightarrow> nat option" where
  "rulesLen g = (case g of RulesType n \<Rightarrow> Some n | _ \<Rightarrow> None)"
definition conditionsLen :: "'g cell_type \<Rightarrow> nat option" where
  "conditionsLen g = (case g of ConditionsType n \<Rightarrow> Some n | _ \<Rightarrow> None)"
definition syncersLen :: "'g cell_type \<Rightarrow> nat option" where
  "syncersLen g = (case g of SyncersType n \<Rightarrow> Some n | _ \<Rightarrow> None)"

lemma lens [simp]:
  "stringsLen g = Some n \<longleftrightarrow> g = StringsType n" "rulesLen g = Some n \<longleftrightarrow> g = RulesType n"
  "conditionsLen g = Some n \<longleftrightarrow> g = ConditionsType n" "syncersLen g = Some n \<longleftrightarrow> g = SyncersType n"
  by (auto simp: stringsLen_def rulesLen_def conditionsLen_def syncersLen_def split: cell_type.splits)

lemma tag_cases:
  "cell_tag xt c = ClusterType \<Longrightarrow> \<exists>x. c = ClusterCell x" "cell_tag xt c = RemoteType \<Longrightarrow> \<exists>x. c = RemoteCell x"
  "cell_tag xt c = RuleType \<Longrightarrow> \<exists>x. c = RuleCell x" "cell_tag xt c = SpecType \<Longrightarrow> \<exists>x. c = SpecCell x"
  "cell_tag xt c = StatusType \<Longrightarrow> \<exists>x. c = StatusCell x" "cell_tag xt c = SyncerType \<Longrightarrow> \<exists>x. c = SyncerCell x"
  "cell_tag xt c = ListType \<Longrightarrow> \<exists>x. c = ListCell x"
  "cell_tag xt c = StringsType n \<Longrightarrow> \<exists>xs. c = StringsCell xs \<and> length xs = n"
  "cell_tag xt c = RulesType n \<Longrightarrow> \<exists>rs. c = RulesCell rs \<and> length rs = n"
  "cell_tag xt c = ConditionsType n \<Longrightarrow> \<exists>cs. c = ConditionsCell cs \<and> length cs = n"
  "cell_tag xt c = SyncersType n \<Longrightarrow> \<exists>ks. c = SyncersCell ks \<and> length ks = n"
  by (cases c; auto)+

type_synonym 'g heap_type = "nat \<Rightarrow> 'g cell_type option"

definition rule_ok :: "'g heap_type \<Rightarrow> ResourceRuleMem \<Rightarrow> bool" where
  "rule_ok ty r \<longleftrightarrow> slice_ok stringsLen ty (rf_Namespaces r) \<and> slice_ok stringsLen ty (rf_SyncFields r)"

definition remote_ok :: "'g heap_type \<Rightarrow> RemoteConfigMem \<Rightarrow> bool" where
  "remote_ok ty c \<longleftrightarrow> pointer_ok ClusterType ty (cf_GKECluster c)"

definition spec_ok :: "'g heap_type \<Rightarrow> KRMSyncerSpecMem \<Rightarrow> bool" where
  "spec_ok ty sp \<longleftrightarrow> pointer_ok RemoteType ty (sf_Remote sp) \<and> slice_ok rulesLen ty (sf_Rules sp)"

definition status_ok :: "'g heap_type \<Rightarrow> KRMSyncerStatusMem \<Rightarrow> bool" where
  "status_ok ty st \<longleftrightarrow> slice_ok conditionsLen ty (tf_Conditions st)"

text \<open>The typing of the metadata: of the two structs, and of their cells.\<close>

record ('om, 'lm, 'x, 'g) meta_typing =
  mt_tag :: "'x \<Rightarrow> 'g"
  mt_cell :: "'g heap_type \<Rightarrow> 'x \<Rightarrow> bool"
  mt_ObjectMeta :: "'g heap_type \<Rightarrow> 'om \<Rightarrow> bool"
  mt_ListMeta :: "'g heap_type \<Rightarrow> 'lm \<Rightarrow> bool"

definition syncer_ok :: "('om, 'lm, 'x, 'g) meta_typing \<Rightarrow> 'g heap_type \<Rightarrow> 'om KRMSyncerMem \<Rightarrow> bool" where
  "syncer_ok mt ty k \<longleftrightarrow> mt_ObjectMeta mt ty (kf_ObjectMeta k) \<and> spec_ok ty (kf_Spec k) \<and> status_ok ty (kf_Status k)"

definition list_ok :: "('om, 'lm, 'x, 'g) meta_typing \<Rightarrow> 'g heap_type \<Rightarrow> 'lm KRMSyncerListMem \<Rightarrow> bool" where
  "list_ok mt ty l \<longleftrightarrow> mt_ListMeta mt ty (lf_ListMeta l) \<and> slice_ok syncersLen ty (lf_Items l)"

primrec cell_ok :: "('om, 'lm, 'x, 'g) meta_typing \<Rightarrow> 'g heap_type \<Rightarrow> ('om, 'lm, 'x) cell \<Rightarrow> bool" where
  "cell_ok mt ty (ClusterCell c) = True"
| "cell_ok mt ty (RemoteCell c) = remote_ok ty c"
| "cell_ok mt ty (RuleCell r) = rule_ok ty r"
| "cell_ok mt ty (SpecCell sp) = spec_ok ty sp"
| "cell_ok mt ty (StatusCell st) = status_ok ty st"
| "cell_ok mt ty (SyncerCell k) = syncer_ok mt ty k"
| "cell_ok mt ty (ListCell l) = list_ok mt ty l"
| "cell_ok mt ty (StringsCell xs) = True"
| "cell_ok mt ty (RulesCell rs) = (\<forall>r \<in> set rs. rule_ok ty r)"
| "cell_ok mt ty (ConditionsCell cs) = True"
| "cell_ok mt ty (SyncersCell ks) = (\<forall>k \<in> set ks. syncer_ok mt ty k)"
| "cell_ok mt ty (MetaCell x) = mt_cell mt ty x"

abbreviation store_typed :: "('om, 'lm, 'x, 'g) meta_typing \<Rightarrow> ('om, 'lm, 'x) store \<Rightarrow> bool" where
  "store_typed mt \<equiv> mem_typed (cell_tag (mt_tag mt)) (cell_ok mt)"

abbreviation store_types :: "('om, 'lm, 'x, 'g) meta_typing \<Rightarrow> ('om, 'lm, 'x) store \<Rightarrow> 'g heap_type" where
  "store_types mt \<equiv> heap_types (cell_tag (mt_tag mt))"

text \<open>What is asked of the metadata: their typing does not look at more than the types, their zero values
  are well typed, and their copies keep the contract.\<close>

definition mono_ok :: "('g heap_type \<Rightarrow> 'a \<Rightarrow> bool) \<Rightarrow> bool" where
  "mono_ok ok \<longleftrightarrow> (\<forall>ty ty' x. ty \<subseteq>\<^sub>m ty' \<longrightarrow> ok ty x \<longrightarrow> ok ty' x)"

definition meta_typed :: "('om, 'lm, 'x) meta_env \<Rightarrow> ('om, 'lm, 'x, 'g) meta_typing \<Rightarrow> bool" where
  "meta_typed env mt \<longleftrightarrow>
     mono_ok (mt_cell mt) \<and> mono_ok (mt_ObjectMeta mt) \<and> mono_ok (mt_ListMeta mt) \<and>
     (\<forall>ty. mt_ObjectMeta mt ty (me_ObjectMeta_zero env)) \<and> (\<forall>ty. mt_ListMeta mt ty (me_ListMeta_zero env)) \<and>
     typed_copy (cell_tag (mt_tag mt)) (cell_ok mt) (me_ObjectMeta_DeepCopyInto env) (mt_ObjectMeta mt) \<and>
     typed_copy (cell_tag (mt_tag mt)) (cell_ok mt) (me_ListMeta_DeepCopyInto env) (mt_ListMeta mt) \<and>
     me_Condition_DeepCopyInto env = copyValue"

lemma mono_okD: "mono_ok ok \<Longrightarrow> ty \<subseteq>\<^sub>m ty' \<Longrightarrow> ok ty x \<Longrightarrow> ok ty' x"
  by (auto simp: mono_ok_def)

lemma struct_ok_mono:
  assumes "ty \<subseteq>\<^sub>m ty'"
  shows "rule_ok ty r \<Longrightarrow> rule_ok ty' r" "remote_ok ty c \<Longrightarrow> remote_ok ty' c" "spec_ok ty sp \<Longrightarrow> spec_ok ty' sp"
    "status_ok ty st \<Longrightarrow> status_ok ty' st"
  unfolding rule_ok_def remote_ok_def spec_ok_def status_ok_def
  by (blast intro: slice_ok_mono [OF assms] pointer_ok_mono [OF assms])+

lemma syncer_ok_mono: "meta_typed env mt \<Longrightarrow> ty \<subseteq>\<^sub>m ty' \<Longrightarrow> syncer_ok mt ty k \<Longrightarrow> syncer_ok mt ty' k"
  unfolding syncer_ok_def meta_typed_def by (blast intro: struct_ok_mono mono_okD)

lemma list_ok_mono: "meta_typed env mt \<Longrightarrow> ty \<subseteq>\<^sub>m ty' \<Longrightarrow> list_ok mt ty l \<Longrightarrow> list_ok mt ty' l"
  unfolding list_ok_def meta_typed_def by (blast intro: slice_ok_mono mono_okD)

lemma cell_ok_mono: "meta_typed env mt \<Longrightarrow> ty \<subseteq>\<^sub>m ty' \<Longrightarrow> cell_ok mt ty c \<Longrightarrow> cell_ok mt ty' c"
proof (cases c)
  case (MetaCell x)
  assume "meta_typed env mt" "ty \<subseteq>\<^sub>m ty'" "cell_ok mt ty c"
  with MetaCell show ?thesis by (auto simp: meta_typed_def intro: mono_okD)
qed (auto intro: struct_ok_mono syncer_ok_mono list_ok_mono)

section \<open>Every copy keeps the types\<close>

lemma value_typed:
  assumes "meta_typed env mt"
  shows "typed_copy (cell_tag (mt_tag mt)) (cell_ok mt) copyValue (\<lambda>_ _. True)"
  by unfold_locales (auto simp: copyValue_def intro: cell_ok_mono [OF assms])

lemma struct_typed_one:
  assumes d: "typed_copy tag cok copy1 ok1"
    and copy: "\<And>x m. copy x m = (case copy1 (f x) m of (y, m1) \<Rightarrow> (upd y x, m1))"
    and ok: "\<And>ty x. ok ty x \<longleftrightarrow> ok1 ty (f x)" and upd: "\<And>y x. f (upd y x) = y"
  shows "typed_copy tag cok copy ok"
proof
  show "ty \<subseteq>\<^sub>m ty' \<Longrightarrow> cok ty c \<Longrightarrow> cok ty' c" for ty ty' c by (rule typed_copy.cell_ok_mono [OF d])
  show "ty \<subseteq>\<^sub>m ty' \<Longrightarrow> ok ty x \<Longrightarrow> ok ty' x" for ty ty' x unfolding ok by (rule typed_copy.ok_mono [OF d])
  fix m x y m'
  assume m: "mem_typed tag cok m" "ok (heap_types tag m) x" "copy x m = (y, m')"
  obtain y1 m1 where c: "copy1 (f x) m = (y1, m1)" by (metis prod.exhaust)
  from typed_copy.typed [OF d m(1) m(2) [unfolded ok] c] m(3) c
  show "mem_typed tag cok m' \<and> heap_types tag m \<subseteq>\<^sub>m heap_types tag m' \<and> ok (heap_types tag m') y"
    by (auto simp: copy ok upd)
qed

lemma struct_typed_two:
  assumes d1: "typed_copy tag cok copy1 ok1" and d2: "typed_copy tag cok copy2 ok2"
    and copy: "\<And>x m. copy x m = (case copy1 (f x) m of (y1, m1) \<Rightarrow>
      (case copy2 (g x) m1 of (y2, m2) \<Rightarrow> (upd y1 y2 x, m2)))"
    and ok: "\<And>ty x. ok ty x \<longleftrightarrow> ok1 ty (f x) \<and> ok2 ty (g x)"
    and upd: "\<And>y1 y2 x. f (upd y1 y2 x) = y1" "\<And>y1 y2 x. g (upd y1 y2 x) = y2"
  shows "typed_copy tag cok copy ok"
proof
  show "ty \<subseteq>\<^sub>m ty' \<Longrightarrow> cok ty c \<Longrightarrow> cok ty' c" for ty ty' c by (rule typed_copy.cell_ok_mono [OF d1])
  show "ty \<subseteq>\<^sub>m ty' \<Longrightarrow> ok ty x \<Longrightarrow> ok ty' x" for ty ty' x
    unfolding ok by (blast intro: typed_copy.ok_mono [OF d1] typed_copy.ok_mono [OF d2])
  fix m x y m'
  assume m: "mem_typed tag cok m" "ok (heap_types tag m) x" "copy x m = (y, m')"
  obtain y1 m1 where c1: "copy1 (f x) m = (y1, m1)" by (metis prod.exhaust)
  obtain y2 m2 where c2: "copy2 (g x) m1 = (y2, m2)" by (metis prod.exhaust)
  from m(2) have okx: "ok1 (heap_types tag m) (f x)" "ok2 (heap_types tag m) (g x)" by (simp_all add: ok)
  note t1 = typed_copy.typed [OF d1 m(1) okx(1) c1]
  then have "ok2 (heap_types tag m1) (g x)" by (blast intro: typed_copy.ok_mono [OF d2] okx(2))
  note t2 = typed_copy.typed [OF d2 conjunct1 [OF t1] this c2]
  have "ok1 (heap_types tag m2) y1" using t1 t2 by (blast intro: typed_copy.ok_mono [OF d1])
  with t1 t2 m(3) c1 c2
  show "mem_typed tag cok m' \<and> heap_types tag m \<subseteq>\<^sub>m heap_types tag m' \<and> ok (heap_types tag m') y"
    by (auto simp: copy ok upd intro: map_le_trans)
qed

lemma zero_ok [simp]:
  "remote_ok ty zeroRemote" "rule_ok ty zeroRule" "spec_ok ty zeroSpec" "status_ok ty zeroStatus"
  by (simp_all add: remote_ok_def zeroRemote_def rule_ok_def zeroRule_def spec_ok_def zeroSpec_def
      status_ok_def zeroStatus_def pointer_ok_def slice_ok_def)

lemma zero_meta_ok: "meta_typed env mt \<Longrightarrow> syncer_ok mt ty (zeroSyncer env)" "meta_typed env mt \<Longrightarrow> list_ok mt ty (zeroList env)"
  by (simp_all add: meta_typed_def syncer_ok_def zeroSyncer_def list_ok_def zeroList_def slice_ok_def)

lemma names_typed:
  assumes "meta_typed env mt"
  shows "typed_copy (cell_tag (mt_tag mt)) (cell_ok mt) (copySlice StringsCell getStrings [] copyValue) (slice_ok stringsLen)"
  by (rule typed_copy.slice_typed [OF value_typed [OF assms], where t = StringsType]) (simp_all add: tag_cases)

lemma rule_typed:
  assumes "meta_typed env mt"
  shows "typed_copy (cell_tag (mt_tag mt)) (cell_ok mt) ResourceRule_DeepCopyInto rule_ok"
  by (rule struct_typed_two [OF names_typed [OF assms] names_typed [OF assms],
      where f = rf_Namespaces and g = rf_SyncFields and upd = "\<lambda>ns fs r. r\<lparr>rf_Namespaces := ns, rf_SyncFields := fs\<rparr>"])
    (simp_all add: ResourceRule_DeepCopyInto_def rule_ok_def)

lemma remote_typed:
  assumes "meta_typed env mt"
  shows "typed_copy (cell_tag (mt_tag mt)) (cell_ok mt) RemoteConfig_DeepCopyInto remote_ok"
proof -
  have "typed_copy (cell_tag (mt_tag mt)) (cell_ok mt) (copyPointer ClusterCell getCluster zeroCluster copyValue) (pointer_ok ClusterType)"
    by (rule typed_copy.pointer_typed [OF value_typed [OF assms]]) (simp_all add: tag_cases)
  then show ?thesis
    by (rule struct_typed_one [where f = cf_GKECluster and upd = "\<lambda>p c. c\<lparr>cf_GKECluster := p\<rparr>"])
      (simp_all add: RemoteConfig_DeepCopyInto_def remote_ok_def)
qed

lemma spec_typed:
  assumes "meta_typed env mt"
  shows "typed_copy (cell_tag (mt_tag mt)) (cell_ok mt) KRMSyncerSpec_DeepCopyInto spec_ok"
proof -
  have "typed_copy (cell_tag (mt_tag mt)) (cell_ok mt) (copyPointer RemoteCell getRemote zeroRemote RemoteConfig_DeepCopyInto) (pointer_ok RemoteType)"
    by (rule typed_copy.pointer_typed [OF remote_typed [OF assms]]) (simp_all add: tag_cases)
  moreover have "typed_copy (cell_tag (mt_tag mt)) (cell_ok mt) (copySlice RulesCell getRules zeroRule ResourceRule_DeepCopyInto) (slice_ok rulesLen)"
    by (rule typed_copy.slice_typed [OF rule_typed [OF assms], where t = RulesType]) (simp_all add: tag_cases)
  ultimately show ?thesis
    by (rule struct_typed_two [where f = sf_Remote and g = sf_Rules and upd = "\<lambda>p rs sp. sp\<lparr>sf_Remote := p, sf_Rules := rs\<rparr>"])
      (simp_all add: KRMSyncerSpec_DeepCopyInto_def spec_ok_def)
qed

lemma status_typed:
  assumes "meta_typed env mt"
  shows "typed_copy (cell_tag (mt_tag mt)) (cell_ok mt) (KRMSyncerStatus_DeepCopyInto env) status_ok"
proof -
  have "me_Condition_DeepCopyInto env = copyValue" using assms by (simp add: meta_typed_def)
  moreover have "typed_copy (cell_tag (mt_tag mt)) (cell_ok mt) (copySlice ConditionsCell getConditions zeroCondition copyValue) (slice_ok conditionsLen)"
    by (rule typed_copy.slice_typed [OF value_typed [OF assms], where t = ConditionsType]) (simp_all add: tag_cases)
  ultimately show ?thesis
    by (intro struct_typed_one [where f = tf_Conditions and upd = "\<lambda>cs st. st\<lparr>tf_Conditions := cs\<rparr>"])
      (simp_all add: KRMSyncerStatus_DeepCopyInto_def status_ok_def)
qed

lemma pair_typed:
  assumes "typed_copy tag cok copy1 ok1" and "typed_copy tag cok copy2 ok2"
  shows "typed_copy tag cok (\<lambda>x m. case copy1 (fst x) m of (y1, m1) \<Rightarrow> (case copy2 (snd x) m1 of (y2, m2) \<Rightarrow> ((y1, y2), m2)))
    (\<lambda>ty x. ok1 ty (fst x) \<and> ok2 ty (snd x))"
  by (rule struct_typed_two [OF assms, where f = fst and g = snd and upd = "\<lambda>y1 y2 x. (y1, y2)"]) simp_all

lemma syncer_typed:
  assumes mt: "meta_typed env mt"
  shows "typed_copy (cell_tag (mt_tag mt)) (cell_ok mt) (KRMSyncer_DeepCopyInto env) (syncer_ok mt)"
proof -
  have om: "typed_copy (cell_tag (mt_tag mt)) (cell_ok mt) (me_ObjectMeta_DeepCopyInto env) (mt_ObjectMeta mt)"
    using mt by (simp add: meta_typed_def)
  show ?thesis
    by (rule struct_typed_two [OF om pair_typed [OF spec_typed [OF mt] status_typed [OF mt]],
        where f = kf_ObjectMeta and g = "\<lambda>k. (kf_Spec k, kf_Status k)"
          and upd = "\<lambda>om y k. k\<lparr>kf_ObjectMeta := om, kf_Spec := fst y, kf_Status := snd y\<rparr>"])
      (simp_all add: KRMSyncer_DeepCopyInto_def syncer_ok_def split: prod.split)
qed

lemma list_typed:
  assumes mt: "meta_typed env mt"
  shows "typed_copy (cell_tag (mt_tag mt)) (cell_ok mt) (KRMSyncerList_DeepCopyInto env) (list_ok mt)"
proof -
  have lm: "typed_copy (cell_tag (mt_tag mt)) (cell_ok mt) (me_ListMeta_DeepCopyInto env) (mt_ListMeta mt)"
    using mt by (simp add: meta_typed_def)
  have "typed_copy (cell_tag (mt_tag mt)) (cell_ok mt)
      (copySlice SyncersCell getSyncers (zeroSyncer env) (KRMSyncer_DeepCopyInto env)) (slice_ok syncersLen)"
    by (rule typed_copy.slice_typed [OF syncer_typed [OF mt], where t = SyncersType])
      (simp_all add: tag_cases zero_meta_ok [OF mt])
  with lm show ?thesis
    by (rule struct_typed_two [where f = lf_ListMeta and g = lf_Items and upd = "\<lambda>lm ks l. l\<lparr>lf_ListMeta := lm, lf_Items := ks\<rparr>"])
      (simp_all add: KRMSyncerList_DeepCopyInto_def list_ok_def)
qed

lemma list_pointer_typed:
  assumes mt: "meta_typed env mt"
  shows "typed_copy (cell_tag (mt_tag mt)) (cell_ok mt) (KRMSyncerList_DeepCopy env) (pointer_ok ListType)"
  unfolding KRMSyncerList_DeepCopy_def
  by (rule typed_copy.pointer_typed [OF list_typed [OF mt]]) (simp_all add: tag_cases zero_meta_ok [OF mt])

text \<open>Metadata without pointers satisfy the contract, for example.\<close>

definition plainTyping :: "('om, 'lm, 'x, unit) meta_typing" where
  "plainTyping = \<lparr>mt_tag = \<lambda>_. (), mt_cell = \<lambda>_ _. True, mt_ObjectMeta = \<lambda>_ _. True, mt_ListMeta = \<lambda>_ _. True\<rparr>"

definition plainEnv :: "'om \<Rightarrow> 'lm \<Rightarrow> ('om, 'lm, 'x) meta_env" where
  "plainEnv om lm = \<lparr>me_ObjectMeta_zero = om, me_ObjectMeta_DeepCopyInto = copyValue, me_ListMeta_zero = lm,
     me_ListMeta_DeepCopyInto = copyValue, me_Condition_DeepCopyInto = copyValue\<rparr>"

interpretation plain_typed: typed_copy "cell_tag (mt_tag plainTyping)" "cell_ok plainTyping" copyValue "\<lambda>_ _. True"
proof
  fix ty ty' :: "unit heap_type" and c
  assume le: "ty \<subseteq>\<^sub>m ty'" and c: "cell_ok plainTyping ty c"
  then show "cell_ok plainTyping ty' c"
    by (cases c) (auto simp: plainTyping_def syncer_ok_def list_ok_def intro: struct_ok_mono slice_ok_mono)
qed (auto simp: copyValue_def)

lemma plain_meta_typed: "meta_typed (plainEnv om lm) plainTyping"
proof -
  have "typed_copy (cell_tag (mt_tag plainTyping)) (cell_ok plainTyping)
      (me_ObjectMeta_DeepCopyInto (plainEnv om lm)) (mt_ObjectMeta plainTyping)"
    and "typed_copy (cell_tag (mt_tag plainTyping)) (cell_ok plainTyping)
      (me_ListMeta_DeepCopyInto (plainEnv om lm)) (mt_ListMeta plainTyping)"
    using plain_typed.typed_copy_axioms unfolding plainEnv_def
    by (simp_all add: plainTyping_def [THEN arg_cong, of mt_ObjectMeta] plainTyping_def [THEN arg_cong, of mt_ListMeta])
  then show ?thesis unfolding meta_typed_def by (simp add: mono_ok_def) (simp add: plainEnv_def plainTyping_def)
qed

interpretation plain_spec: typed_copy "cell_tag (mt_tag (plainTyping :: ('om, 'lm, 'x, unit) meta_typing))"
  "cell_ok (plainTyping :: ('om, 'lm, 'x, unit) meta_typing)"
  KRMSyncerSpec_DeepCopyInto spec_ok
  by (rule spec_typed [OF plain_meta_typed])

section \<open>Well-typed structs have values\<close>

lemma typed_values:
  assumes m: "store_typed mt m"
  shows "rule_ok (store_types mt m) r \<Longrightarrow> view_rule m r \<noteq> None"
    and "remote_ok (store_types mt m) c \<Longrightarrow> view_remote m c \<noteq> None"
    and "status_ok (store_types mt m) st \<Longrightarrow> view_status m st \<noteq> None"
proof -
  have names: "view_names m s \<noteq> None" if "slice_ok stringsLen (store_types mt m) s" for s
    by (rule typed_slice_value [OF m that, where ok = "\<lambda>_ _. True" and t = StringsType and mk = StringsCell])
      (simp_all add: tag_cases view_value_def)
  show "rule_ok (store_types mt m) r \<Longrightarrow> view_rule m r \<noteq> None"
    using names [of "rf_Namespaces r"] names [of "rf_SyncFields r"] by (auto simp: rule_ok_def view_rule_def)
  have "view_pointer getCluster view_value m p \<noteq> None" if "pointer_ok ClusterType (store_types mt m) p" for p
    by (rule typed_pointer_value [OF m that, where ok = "\<lambda>_ _. True" and mk = ClusterCell])
      (simp_all add: tag_cases view_value_def)
  then show "remote_ok (store_types mt m) c \<Longrightarrow> view_remote m c \<noteq> None"
    by (simp add: remote_ok_def view_remote_def)
  have "view_slice getConditions view_value m s \<noteq> None" if "slice_ok conditionsLen (store_types mt m) s" for s
    by (rule typed_slice_value [OF m that, where ok = "\<lambda>_ _. True" and t = ConditionsType and mk = ConditionsCell])
      (simp_all add: tag_cases view_value_def)
  then show "status_ok (store_types mt m) st \<Longrightarrow> view_status m st \<noteq> None"
    by (simp add: status_ok_def view_status_def)
qed

lemma typed_spec_value:
  assumes m: "store_typed mt m" and sp: "spec_ok (store_types mt m) sp"
  shows "view_spec m sp \<noteq> None"
proof -
  have "view_pointer getRemote view_remote m (sf_Remote sp) \<noteq> None"
    by (rule typed_pointer_value [OF m, where ok = remote_ok and t = RemoteType and mk = RemoteCell])
      (use sp in \<open>simp_all add: spec_ok_def tag_cases typed_values [OF m]\<close>)
  moreover have "view_slice getRules view_rule m (sf_Rules sp) \<noteq> None"
    by (rule typed_slice_value [OF m, where ok = rule_ok and len = rulesLen and t = RulesType and mk = RulesCell])
      (use sp in \<open>simp_all add: spec_ok_def tag_cases typed_values [OF m]\<close>)
  ultimately show ?thesis by (auto simp: view_spec_def)
qed

text \<open>The values of the metadata are a parameter of the theorems about values; well-typed metadata has one.\<close>

definition meta_valued ::
  "('om, 'lm, 'x, 'g) meta_typing \<Rightarrow> (('om, 'lm, 'x) store \<Rightarrow> 'om \<Rightarrow> 'ov option) \<Rightarrow>
     (('om, 'lm, 'x) store \<Rightarrow> 'lm \<Rightarrow> 'lv option) \<Rightarrow> bool" where
  "meta_valued mt omv lmv \<longleftrightarrow> (\<forall>m. store_typed mt m \<longrightarrow>
     (\<forall>x. mt_ObjectMeta mt (store_types mt m) x \<longrightarrow> omv m x \<noteq> None) \<and>
     (\<forall>x. mt_ListMeta mt (store_types mt m) x \<longrightarrow> lmv m x \<noteq> None))"

lemma typed_list_value:
  assumes mv: "meta_valued mt omv lmv" and m: "store_typed mt m"
    and p: "pointer_ok ListType (store_types mt m) p"
  shows "view_pointer getList (view_list omv lmv) m p \<noteq> None"
proof -
  have om: "mt_ObjectMeta mt (store_types mt m) x \<Longrightarrow> omv m x \<noteq> None"
    and lm: "mt_ListMeta mt (store_types mt m) y \<Longrightarrow> lmv m y \<noteq> None" for x y
    using mv m unfolding meta_valued_def by blast+
  have k: "view_syncer omv m k \<noteq> None" if "syncer_ok mt (store_types mt m) k" for k
  proof -
    have "omv m (kf_ObjectMeta k) \<noteq> None" "view_spec m (kf_Spec k) \<noteq> None" "view_status m (kf_Status k) \<noteq> None"
      using that typed_spec_value [OF m] typed_values(3) [OF m] om by (simp_all only: syncer_ok_def simp_thms)
    then show ?thesis by (auto simp: view_syncer_def)
  qed
  have l: "view_list omv lmv m l \<noteq> None" if "list_ok mt (store_types mt m) l" for l
  proof -
    have "view_slice getSyncers (view_syncer omv) m (lf_Items l) \<noteq> None"
      by (rule typed_slice_value [OF m, where ok = "syncer_ok mt" and len = syncersLen and t = SyncersType and mk = SyncersCell])
        (use that in \<open>simp_all only: list_ok_def cell_gets lens tag_cases cell_ok.simps k not_False_eq_True simp_thms\<close>)
    moreover have "lmv m (lf_ListMeta l) \<noteq> None" using that lm by (simp only: list_ok_def simp_thms)
    ultimately show ?thesis by (auto simp: view_list_def)
  qed
  show ?thesis
    by (rule typed_pointer_value [OF m p, where ok = "list_ok mt" and mk = ListCell]) (simp_all add: tag_cases l)
qed

section \<open>Deep copies are type sound\<close>

text \<open>C36: Type soundness of the deep copies. In a well-typed memory, where every pointer leads to a cell of its
  type and every slice lies within an array of its type, copying a list of KRMSyncers never gets stuck:
  the list has a value and the copy has the same one. The memory is well typed again, including the
  cells that nothing refers to, every old address keeps its type, and so does the pointer.\<close>

theorem list_copy_is_type_sound:
  assumes laws: "meta_laws env omv omr lmv lmr" and mt: "meta_typed env mt" and mv: "meta_valued mt omv lmv"
    and m: "store_typed mt m" and p: "pointer_ok ListType (store_types mt m) p"
    and copy: "KRMSyncerList_DeepCopy env p m = (q, m')"
  shows "store_typed mt m' \<and> store_types mt m \<subseteq>\<^sub>m store_types mt m' \<and> pointer_ok ListType (store_types mt m') q \<and>
    (\<exists>v. view_pointer getList (view_list omv lmv) m p = Some v \<and>
         view_pointer getList (view_list omv lmv) m' q = Some v)"
proof -
  from typed_list_value [OF mv m p] obtain v where v: "view_pointer getList (view_list omv lmv) m p = Some v" by auto
  note sep = deep_copy.separate [OF DeepCopy_methods_meta(3) [OF laws] mem_typed_wf [OF m] v copy]
  from typed_copy.typed [OF list_pointer_typed [OF mt] m p copy] sep v show ?thesis by simp
qed

end
