(* ===== verification/ExampleDeepCopy.thy ===== *)
theory ExampleDeepCopy
  imports DeepCopyTyping
begin

text \<open>
  A concrete memory with a KRMSyncer whose rule selects a part of an array of namespaces, and a list
  with that KRMSyncer. The metadata are plain values.
\<close>

definition exMetaEnv :: "(string \<times> string, unit, unit) meta_env" where
  "exMetaEnv = \<lparr>me_ObjectMeta_zero = ([], []), me_ObjectMeta_DeepCopyInto = copyValue, me_ListMeta_zero = (),
     me_ListMeta_DeepCopyInto = copyValue, me_Condition_DeepCopyInto = copyValue\<rparr>"

lemma exMeta_laws: "meta_laws exMetaEnv view_value reach_value view_value reach_value"
  by (simp add: meta_laws_def exMetaEnv_def plain.deep_copy_axioms)

definition exRuleMem :: ResourceRuleMem where
  "exRuleMem = \<lparr>rf_Group = [], rf_Version = ''v1'', rf_Kind = ''ConfigMap'',
     rf_Namespaces = Some \<lparr>sl_base = 0, sl_off = 1, sl_len = 2\<rparr>, rf_SyncFields = None\<rparr>"

definition exSyncerMem :: "(string \<times> string) KRMSyncerMem" where
  "exSyncerMem = \<lparr>kf_TypeMeta = ([], ''KRMSyncer''), kf_ObjectMeta = (''default'', ''k''),
     kf_Spec = \<lparr>sf_Suspend = False, sf_Mode = [], sf_Remote = Some 3, sf_Rules = Some \<lparr>sl_base = 7, sl_off = 0, sl_len = 1\<rparr>\<rparr>,
     kf_Status = \<lparr>tf_Conditions = None\<rparr>\<rparr>"

definition exClusterVal :: GKECluster where
  "exClusterVal = \<lparr>gke_Project = ''p'', gke_Location = ''l'', gke_Name = ''n'', gke_Endpoint = []\<rparr>"

definition exMem :: "(string \<times> string, unit, unit) store" where
  "exMem = \<lparr>mem_limit = 8, mem_cells =
     [0 \<mapsto> StringsCell [''a'', ''b'', ''c''], 7 \<mapsto> RulesCell [exRuleMem], 2 \<mapsto> ClusterCell exClusterVal,
      3 \<mapsto> RemoteCell \<lparr>cf_GKECluster = Some 2\<rparr>, 4 \<mapsto> SyncerCell exSyncerMem, 5 \<mapsto> SyncersCell [exSyncerMem],
      6 \<mapsto> ListCell \<lparr>lf_TypeMeta = ([], ''KRMSyncerList''), lf_ListMeta = (), lf_Items = Some \<lparr>sl_base = 5, sl_off = 0, sl_len = 1\<rparr>\<rparr>]\<rparr>"

definition exSyncerVal :: "(string \<times> string) KRMSyncerVal" where
  "exSyncerVal = \<lparr>kf_TypeMeta = ([], ''KRMSyncer''), kf_ObjectMeta = (''default'', ''k''),
     kf_Spec = \<lparr>sf_Suspend = False, sf_Mode = [], sf_Remote = Some \<lparr>cf_GKECluster = Some exClusterVal\<rparr>,
       sf_Rules = Some [\<lparr>rf_Group = [], rf_Version = ''v1'', rf_Kind = ''ConfigMap'',
         rf_Namespaces = Some [''b'', ''c''], rf_SyncFields = None\<rparr>]\<rparr>,
     kf_Status = \<lparr>tf_Conditions = None\<rparr>\<rparr>"

lemma exMem_wf: "mem_wf exMem"
  by (simp add: mem_wf_def exMem_def)

lemma exMem_loads:
  "mem_load getStrings exMem 0 = Some [''a'', ''b'', ''c'']" "mem_load getRules exMem 7 = Some [exRuleMem]"
  "mem_load getCluster exMem 2 = Some exClusterVal" "mem_load getRemote exMem 3 = Some \<lparr>cf_GKECluster = Some 2\<rparr>"
  "mem_load getSyncer exMem 4 = Some exSyncerMem" "mem_load getSyncers exMem 5 = Some [exSyncerMem]"
  "mem_load getList exMem 6 = Some \<lparr>lf_TypeMeta = ([], ''KRMSyncerList''), lf_ListMeta = (), lf_Items = Some \<lparr>sl_base = 5, sl_off = 0, sl_len = 1\<rparr>\<rparr>"
  by (simp_all add: mem_load_def exMem_def)

lemma exRule_view: "view_rule exMem exRuleMem = Some \<lparr>rf_Group = [], rf_Version = ''v1'', rf_Kind = ''ConfigMap'',
    rf_Namespaces = Some [''b'', ''c''], rf_SyncFields = None\<rparr>"
  by (simp add: view_rule_def exRuleMem_def view_slice_def slice_elems_def exMem_loads view_value_def)

lemma exSyncer_view: "view_syncer view_value exMem exSyncerMem = Some exSyncerVal"
proof -
  have "view_pointer getRemote view_remote exMem (Some 3) = Some (Some \<lparr>cf_GKECluster = Some exClusterVal\<rparr>)"
    by (simp add: view_pointer_def exMem_loads view_remote_def view_value_def)
  moreover have "view_slice getRules view_rule exMem (Some \<lparr>sl_base = 7, sl_off = 0, sl_len = 1\<rparr>)
      = Some (Some [\<lparr>rf_Group = [], rf_Version = ''v1'', rf_Kind = ''ConfigMap'',
         rf_Namespaces = Some [''b'', ''c''], rf_SyncFields = None\<rparr>])"
    by (simp add: view_slice_def slice_elems_def exMem_loads exRule_view)
  ultimately show ?thesis
    by (simp add: view_syncer_def exSyncerMem_def view_spec_def view_status_def view_value_def view_slice_def exSyncerVal_def)
qed

theorem syncer_copy_is_equal_and_separate_witness:
  "\<exists>q m'. KRMSyncer_DeepCopyObject exMetaEnv (Some 4) exMem = (KRMSyncerObject (Some q), m') \<and> q \<noteq> 4 \<and>
     view_pointer getSyncer (view_syncer view_value) m' (Some q) = Some (Some exSyncerVal)"
proof -
  obtain obj m' where c: "KRMSyncer_DeepCopyObject exMetaEnv (Some 4) exMem = (obj, m')" by (metis prod.exhaust)
  have v: "view_pointer getSyncer (view_syncer view_value) exMem (Some 4) = Some (Some exSyncerVal)"
    by (simp add: view_pointer_def exMem_loads exSyncer_view)
  from syncer_copy_is_equal_and_separate [OF exMeta_laws exMem_wf v c] c show ?thesis
    by (auto simp: reach_pointer_def)
qed

theorem list_copy_is_isolated_witness:
  "\<exists>q m'. KRMSyncerList_DeepCopy exMetaEnv (Some 6) exMem = (Some q, m') \<and>
     view_pointer getList (view_list view_value view_value) (mem_store q (MetaCell ()) m') (Some 6)
       = Some (Some \<lparr>lf_TypeMeta = ([], ''KRMSyncerList''), lf_ListMeta = (), lf_Items = Some [exSyncerVal]\<rparr>)"
proof -
  obtain q0 m' where c0: "KRMSyncerList_DeepCopy exMetaEnv (Some 6) exMem = (q0, m')" by (metis prod.exhaust)
  then obtain q where "q0 = Some q"
    by (auto simp: KRMSyncerList_DeepCopy_def copyPointer_def split: prod.splits option.splits)
  with c0 have c: "KRMSyncerList_DeepCopy exMetaEnv (Some 6) exMem = (Some q, m')" by simp
  have "view_slice getSyncers (view_syncer view_value) exMem (Some \<lparr>sl_base = 5, sl_off = 0, sl_len = 1\<rparr>)
      = Some (Some [exSyncerVal])"
    by (simp add: view_slice_def slice_elems_def exMem_loads exSyncer_view)
  then have v: "view_pointer getList (view_list view_value view_value) exMem (Some 6)
      = Some (Some \<lparr>lf_TypeMeta = ([], ''KRMSyncerList''), lf_ListMeta = (), lf_Items = Some [exSyncerVal]\<rparr>)"
    by (simp add: view_pointer_def exMem_loads view_list_def view_value_def)
  have "agree (- reach_pointer getList (reach_list reach_value reach_value) m' (Some q)) m' (mem_store q (MetaCell ()) m')"
    by (rule agree_store) (simp add: reach_pointer_def)
  with list_copy_is_isolated [OF exMeta_laws exMem_wf v c] c show ?thesis by blast
qed

text \<open>The memory is well typed.\<close>

abbreviation exTyping :: "(string \<times> string, unit, unit, unit) meta_typing" where
  "exTyping \<equiv> plainTyping"

lemma exMem_types:
  "store_types exTyping exMem = [0 \<mapsto> StringsType 3, 7 \<mapsto> RulesType 1, 2 \<mapsto> ClusterType, 3 \<mapsto> RemoteType,
     4 \<mapsto> SyncerType, 5 \<mapsto> SyncersType 1, 6 \<mapsto> ListType]"
  by (simp add: fun_eq_iff heap_types_def exMem_def)

lemma exMem_typed: "store_typed exTyping exMem"
proof -
  have rule: "rule_ok (store_types exTyping exMem) exRuleMem"
    by (simp add: rule_ok_def exRuleMem_def slice_ok_def exMem_types stringsLen_def)
  have syncer: "syncer_ok exTyping (store_types exTyping exMem) exSyncerMem"
    by (simp add: syncer_ok_def exSyncerMem_def spec_ok_def status_ok_def slice_ok_def pointer_ok_def exMem_types rulesLen_def)
      (simp add: plainTyping_def)
  have "cell_ok exTyping (store_types exTyping exMem) c" if "mem_cells exMem a = Some c" for a c
    using that rule syncer
    by (auto simp: exMem_def [THEN arg_cong, of mem_cells] remote_ok_def pointer_ok_def list_ok_def slice_ok_def
        exMem_types syncersLen_def plainTyping_def [THEN arg_cong, of mt_ListMeta] split: if_splits)
  then show ?thesis by (simp add: mem_typed_def exMem_wf)
qed

theorem list_copy_is_type_sound_witness:
  "\<exists>q m' v. KRMSyncerList_DeepCopy exMetaEnv (Some 6) exMem = (q, m') \<and> store_typed exTyping m' \<and>
     pointer_ok ListType (store_types exTyping m') q \<and>
     view_pointer getList (view_list view_value view_value) m' q = Some v"
proof -
  obtain q m' where c: "KRMSyncerList_DeepCopy exMetaEnv (Some 6) exMem = (q, m')" by (metis prod.exhaust)
  have mt: "meta_typed exMetaEnv exTyping"
    using plain_meta_typed [of "([], [])" "()"] by (simp add: plainEnv_def exMetaEnv_def)
  have mv: "meta_valued exTyping view_value view_value" by (simp add: meta_valued_def view_value_def)
  have p: "pointer_ok ListType (store_types exTyping exMem) (Some 6)" by (simp add: pointer_ok_def exMem_types)
  from list_copy_is_type_sound [OF exMeta_laws mt mv exMem_typed p c] c show ?thesis by blast
qed

end
