(* ===== verification/ConcurrentLookups.thy ===== *)
theory ConcurrentLookups
  imports GkeProvider
begin

text \<open>
  Concurrent calls of \<^verbatim>\<open>GKEConfigProvider.cluster\<close> in \<^verbatim>\<open>syncer/controllers/remote_cluster.go\<close>. The mutex is held while
  the cache is read and while an entry is stored, but not during the fetch in between, so calls of
  several goroutines interleave at these three steps. The step relation makes them explicit; the
  function \<open>cluster\<close> of the theory \<open>GkeProvider\<close> is the run of one call alone.
\<close>

section \<open>Goroutines\<close>

text \<open>Before the cache was read, during the fetch, with an answer to store, and returned.\<close>

datatype goroutine =
    Calling
  | Fetching
  | Storing gkeCluster
  | Returned "gkeCluster result"

text \<open>The world with the provider, the goroutines, and, as history, the answers of the API with the keys
  they were asked for.\<close>

record ('ts, 'tr, 'x) lookups =
  lk_world :: "('ts, 'tr, 'x) gke_world"
  lk_pc :: "nat \<Rightarrow> goroutine"
  lk_answers :: "(string \<times> gkeCluster) list"

text \<open>What a goroutine was called with.\<close>

type_synonym 'ts lookup_call = "string \<times> GKECluster \<times> 'ts"

fun lookup_step ::
  "('ts, 'tr, 'x) genv \<Rightarrow> 'ts lookup_call \<Rightarrow> goroutine \<Rightarrow> ('ts, 'tr, 'x) gke_world \<Rightarrow>
     goroutine \<times> gkeCluster list \<times> ('ts, 'tr, 'x) gke_world" where
  "lookup_step env (key, ref, ts) Calling w =
     (case cacheFresh env key w of Some c \<Rightarrow> (Returned (Inr c), [], w) | None \<Rightarrow> (Fetching, [], w))"
| "lookup_step env (key, ref, ts) Fetching w =
     (case fetchCluster env key ref ts w of
        (Inl e, w1) \<Rightarrow> (Returned (Inl e), [], w1)
      | (Inr c, w1) \<Rightarrow> (Storing c, [c], w1))"
| "lookup_step env (key, ref, ts) (Storing c) w =
     (Returned (Inr c), [],
      w\<lparr>p_cache := (p_cache w)(key \<mapsto> \<lparr>cg_cluster = c, cg_fetchedAt = now env w\<rparr>)\<rparr>)"
| "lookup_step env (key, ref, ts) (Returned r) w = (Returned r, [], w)"

text \<open>One step of a goroutine, or time passes: the rest of the world changes, but not the provider's
  cache.\<close>

inductive lookups_step ::
  "('ts, 'tr, 'x) genv \<Rightarrow> (nat \<Rightarrow> 'ts lookup_call) \<Rightarrow> ('ts, 'tr, 'x) lookups \<Rightarrow> ('ts, 'tr, 'x) lookups \<Rightarrow> bool"
  for env calls where
  goroutine: "lookup_step env (calls i) (lk_pc s i) (lk_world s) = (pc, cs, w) \<Longrightarrow>
    lookups_step env calls s
      \<lparr>lk_world = w, lk_pc = (lk_pc s)(i := pc), lk_answers = lk_answers s @ map (Pair (fst (calls i))) cs\<rparr>"
| elapse: "p_cache w = p_cache (lk_world s) \<Longrightarrow> now env (lk_world s) \<le> now env w \<Longrightarrow>
    lookups_step env calls s (s\<lparr>lk_world := w\<rparr>)"

inductive lookups_reachable ::
  "('ts, 'tr, 'x) genv \<Rightarrow> (nat \<Rightarrow> 'ts lookup_call) \<Rightarrow> ('ts, 'tr, 'x) lookups \<Rightarrow> bool"
  for env calls where
  start: "p_cache w = Map.empty \<Longrightarrow>
    lookups_reachable env calls \<lparr>lk_world = w, lk_pc = (\<lambda>_. Calling), lk_answers = []\<rparr>"
| step: "lookups_reachable env calls s \<Longrightarrow> lookups_step env calls s s' \<Longrightarrow> lookups_reachable env calls s'"

text \<open>A request to the API takes time, but does not by itself touch the cache of the provider.\<close>

definition request_laws :: "('ts, 'tr, 'x) genv \<Rightarrow> bool" where
  "request_laws env \<longleftrightarrow> (\<forall>req w. p_cache (snd (ge_Do env req w)) = p_cache w \<and>
     now env w \<le> now env (snd (ge_Do env req w)))"

lemma fetchCluster_keeps:
  assumes "request_laws env" and "fetchCluster env key ref ts w = (r, w')"
  shows "p_cache w' = p_cache w" "now env w \<le> now env w'"
proof -
  have "w' = w \<or> w' = snd (ge_Do env (clusterRequest env ref ts w) w)"
    using assms(2) by (auto simp: fetchCluster_def Let_def split: sum.splits prod.splits)
  then show "p_cache w' = p_cache w" "now env w \<le> now env w'"
    using assms(1) unfolding request_laws_def by auto
qed

section \<open>One call alone\<close>

fun lookup_run ::
  "nat \<Rightarrow> ('ts, 'tr, 'x) genv \<Rightarrow> 'ts lookup_call \<Rightarrow> goroutine \<times> ('ts, 'tr, 'x) gke_world \<Rightarrow>
     goroutine \<times> ('ts, 'tr, 'x) gke_world" where
  "lookup_run 0 env call s = s"
| "lookup_run (Suc n) env call (pc, w) =
     (case lookup_step env call pc w of (pc', _, w') \<Rightarrow> lookup_run n env call (pc', w'))"

lemma lookup_run_Returned: "lookup_run n env (key, ref, ts) (Returned r, w) = (Returned r, w)"
  by (induction n) simp_all


section \<open>Any interleaving\<close>

definition answered :: "(nat \<Rightarrow> 'ts lookup_call) \<Rightarrow> ('ts, 'tr, 'x) lookups \<Rightarrow> bool" where
  "answered calls s \<longleftrightarrow>
     (\<forall>key e. p_cache (lk_world s) key = Some e \<longrightarrow> (key, cg_cluster e) \<in> set (lk_answers s)) \<and>
     (\<forall>i c. lk_pc s i = Storing c \<or> lk_pc s i = Returned (Inr c) \<longrightarrow> (fst (calls i), c) \<in> set (lk_answers s))"

lemma cacheFresh_entry: "cacheFresh env key w = Some c \<Longrightarrow> \<exists>e. p_cache w key = Some e \<and> cg_cluster e = c"
  by (auto simp: cacheFresh_def split: option.splits if_splits)

lemma goroutine_answered:
  assumes laws: "request_laws env" and inv: "answered calls s"
    and step: "lookup_step env (calls i) (lk_pc s i) (lk_world s) = (pc, cs, w)"
  shows "answered calls \<lparr>lk_world = w, lk_pc = (lk_pc s)(i := pc), lk_answers = lk_answers s @ map (Pair (fst (calls i))) cs\<rparr>"
proof -
  obtain key ref ts where call: "calls i = (key, ref, ts)" by (cases "calls i")
  note old = inv [unfolded answered_def]
  show ?thesis
  proof (cases "lk_pc s i")
    case Calling
    with step call old show ?thesis
      by (auto simp: answered_def split: option.splits dest: cacheFresh_entry)
  next
    case Fetching
    obtain r w1 where f: "fetchCluster env key ref ts (lk_world s) = (r, w1)" by (metis prod.exhaust)
    from fetchCluster_keeps(1) [OF laws f] step call old Fetching f show ?thesis
      by (cases r) (auto simp: answered_def)
  next
    case (Storing c)
    then have "(key, c) \<in> set (lk_answers s)" using old call by fastforce
    with step call old Storing show ?thesis by (auto simp: answered_def split: if_splits)
  next
    case (Returned r)
    with old call have "r = Inr c \<Longrightarrow> (key, c) \<in> set (lk_answers s)" for c by fastforce
    with step call old Returned show ?thesis by (auto simp: answered_def)
  qed
qed

text \<open>C25: Concurrent lookups do not mix up clusters: in every interleaving, what a call returns, and what the
  cache holds for a key, is an answer that the API gave for exactly this key.\<close>

theorem lookups_return_answers_for_their_key:
  assumes laws: "request_laws env" and reach: "lookups_reachable env calls s"
  shows "(lk_pc s i = Returned (Inr c) \<longrightarrow> (fst (calls i), c) \<in> set (lk_answers s)) \<and>
    (p_cache (lk_world s) key = Some e \<longrightarrow> (key, cg_cluster e) \<in> set (lk_answers s))"
proof -
  from reach have "answered calls s"
  proof induction
    case (start w)
    then show ?case by (simp add: answered_def)
  next
    case (step s s')
    from step(2) show ?case
    proof cases
      case (goroutine i pc cs w)
      with goroutine_answered [OF laws step(3)] show ?thesis by simp
    next
      case (elapse w)
      with step(3) show ?thesis by (simp add: answered_def)
    qed
  qed
  then show ?thesis by (auto simp: answered_def)
qed

end
