(* ===== verification/ExampleLookups.thy ===== *)
theory ExampleLookups
  imports ExampleGke ConcurrentLookups
begin

text \<open>
  Two lookups of the same cluster that overlap, in the environment of the theory \<open>ExampleGke\<close>: the first asks the
  API shortly before the cluster is rotated and stores its answer after the second, which has asked
  afterwards.
\<close>

definition exCalls :: "nat \<Rightarrow> string lookup_call" where
  "exCalls i = (exKey, exRef, ''adc'')"

definition exPcs :: "goroutine \<Rightarrow> goroutine \<Rightarrow> nat \<Rightarrow> goroutine" where
  "exPcs a b = (\<lambda>_. Calling)(0 := a, 1 := b)"

definition exLookups ::
  "(string \<Rightarrow> cachedGKECluster option) \<Rightarrow> int \<Rightarrow> goroutine \<Rightarrow> goroutine \<Rightarrow> (string \<times> gkeCluster) list \<Rightarrow>
     (string, string, int) lookups" where
  "exLookups cache t a b answers = \<lparr>lk_world = exGworld cache None t, lk_pc = exPcs a b, lk_answers = answers\<rparr>"

abbreviation exEntryAt :: "gkeCluster \<Rightarrow> int \<Rightarrow> string \<Rightarrow> cachedGKECluster option" where
  "exEntryAt c t \<equiv> [exKey \<mapsto> \<lparr>cg_cluster = c, cg_fetchedAt = t\<rparr>]"

lemma exPcs_simps [simp]: "exPcs a b 0 = a" "exPcs a b (Suc 0) = b"
  "(exPcs a b)(0 := a') = exPcs a' b" "(exPcs a b)(Suc 0 := b') = exPcs a b'"
  by (auto simp: exPcs_def fun_eq_iff)

lemma ex_request_laws: "request_laws exGenv"
  by (simp add: request_laws_def ex_calls)

lemma ex_elapse:
  "lookups_reachable exGenv exCalls (exLookups cache t a b l) \<Longrightarrow> t \<le> t' \<Longrightarrow>
     lookups_reachable exGenv exCalls (exLookups cache t' a b l)"
  using lookups_step.elapse [of "exGworld cache None t'" "exLookups cache t a b l" exGenv exCalls]
  by (auto simp: exLookups_def exGworld_cache ex_now elim: lookups_reachable.step)

lemma ex_first:
  assumes "lookups_reachable exGenv exCalls (exLookups cache t a b l)"
    and "lookup_step exGenv (exKey, exRef, ''adc'') a (exGworld cache None t) = (a', cs, exGworld cache' None t)"
  shows "lookups_reachable exGenv exCalls (exLookups cache' t a' b (l @ map (Pair exKey) cs))"
  using lookups_reachable.step [OF assms(1) lookups_step.goroutine [of exGenv exCalls 0]] assms(2)
  by (simp add: exLookups_def exCalls_def)

lemma ex_second:
  assumes "lookups_reachable exGenv exCalls (exLookups cache t a b l)"
    and "lookup_step exGenv (exKey, exRef, ''adc'') b (exGworld cache None t) = (b', cs, exGworld cache' None t)"
  shows "lookups_reachable exGenv exCalls (exLookups cache' t a b' (l @ map (Pair exKey) cs))"
  using lookups_reachable.step [OF assms(1) lookups_step.goroutine [of exGenv exCalls "Suc 0"]] assms(2)
  by (simp add: exLookups_def exCalls_def)

text \<open>The older answer wins: in this run the API has answered with the cluster after its rotation last, and the
  cache ends with the cluster before the rotation, under the newest time stamp.\<close>

theorem older_answer_can_replace_newer:
  "\<exists>s. lookups_reachable exGenv exCalls s \<and> lk_answers s = [(exKey, exampleCluster), (exKey, rotatedCluster)] \<and>
     p_cache (lk_world s) exKey = Some \<lparr>cg_cluster = exampleCluster, cg_fetchedAt = 900000000002\<rparr>"
proof -
  let ?R = "lookups_reachable exGenv exCalls"
  have "?R (exLookups Map.empty 899999999999 Calling Calling [])"
    using lookups_reachable.start [of "exGworld Map.empty None 899999999999" exGenv exCalls]
    by (simp add: exLookups_def exGworld_cache exPcs_def fun_upd_idem)
  then have "?R (exLookups Map.empty 899999999999 Fetching Calling [])"
    using ex_first [of Map.empty 899999999999 Calling Calling "[]" Fetching "[]" Map.empty]
    by (simp add: cacheFresh_def exGworld_cache)
  then have "?R (exLookups Map.empty 899999999999 (Storing exampleCluster) Calling [(exKey, exampleCluster)])"
    using ex_first [of Map.empty 899999999999 Fetching Calling "[]" "Storing exampleCluster" "[exampleCluster]" Map.empty]
    by (simp add: ex_fetch)
  from ex_elapse [OF this, of 900000000000]
  have "?R (exLookups Map.empty 900000000000 (Storing exampleCluster) Fetching [(exKey, exampleCluster)])"
    using ex_second [of Map.empty 900000000000 "Storing exampleCluster" Calling "[(exKey, exampleCluster)]" Fetching "[]" Map.empty]
    by (simp add: cacheFresh_def exGworld_cache)
  then have "?R (exLookups Map.empty 900000000000 (Storing exampleCluster) (Storing rotatedCluster)
      [(exKey, exampleCluster), (exKey, rotatedCluster)])"
    using ex_second [of Map.empty 900000000000 "Storing exampleCluster" Fetching "[(exKey, exampleCluster)]"
        "Storing rotatedCluster" "[rotatedCluster]" Map.empty]
    by (simp add: ex_fetch)
  from ex_elapse [OF this, of 900000000001]
  have "?R (exLookups (exEntryAt rotatedCluster 900000000001) 900000000001 (Storing exampleCluster) (Returned (Inr rotatedCluster))
      [(exKey, exampleCluster), (exKey, rotatedCluster)])"
    using ex_second [of Map.empty 900000000001 "Storing exampleCluster" "Storing rotatedCluster"
        "[(exKey, exampleCluster), (exKey, rotatedCluster)]" "Returned (Inr rotatedCluster)" "[]" "exEntryAt rotatedCluster 900000000001"]
    by (simp add: exGworld_cache ex_now)
  from ex_elapse [OF this, of 900000000002]
  have "?R (exLookups (exEntryAt exampleCluster 900000000002) 900000000002 (Returned (Inr exampleCluster)) (Returned (Inr rotatedCluster))
      [(exKey, exampleCluster), (exKey, rotatedCluster)])"
    using ex_first [of "exEntryAt rotatedCluster 900000000001" 900000000002 "Storing exampleCluster" "Returned (Inr rotatedCluster)"
        "[(exKey, exampleCluster), (exKey, rotatedCluster)]" "Returned (Inr exampleCluster)" "[]" "exEntryAt exampleCluster 900000000002"]
    by (simp add: exGworld_cache ex_now)
  then show ?thesis
    by (rule_tac exI) (rule conjI, assumption, simp add: exLookups_def exGworld_cache)
qed

theorem lookups_return_answers_for_their_key_witness:
  "\<exists>s e. lookups_reachable exGenv exCalls s \<and> p_cache (lk_world s) exKey = Some e \<and>
     (exKey, cg_cluster e) \<in> set (lk_answers s)"
proof -
  obtain s e where s: "lookups_reachable exGenv exCalls s" "p_cache (lk_world s) exKey = Some e"
    using older_answer_can_replace_newer by blast
  with lookups_return_answers_for_their_key [OF ex_request_laws s(1), of 0 _ exKey e] show ?thesis by blast
qed

end
