(* ===== verification/Confinement.thy ===== *)
theory Confinement
  imports ApiServer
begin

text \<open>
  What a reconcile may do to the world at all, whether it succeeds or fails, in both modes: the
  guarantee of one reconcile. Every call on a destination that can write is about one object, the one
  the event was for, and the objects sent are well formed. It is stated by preservation: a property
  of the world that the reads and such calls keep survives a reconcile.
\<close>

section \<open>The calls a reconcile may make\<close>

text \<open>A well-formed object to send: its metadata is an object, it has the identity asked for, and there
  is no top-level field but the five that are synced.\<close>

definition destination_object :: "apimachinery \<Rightarrow> identity \<Rightarrow> jobject \<Rightarrow> bool" where
  "destination_object am i obj \<longleftrightarrow> identity am obj = i \<and> meta_ok obj \<and>
     dom obj \<subseteq> {''apiVersion'', ''kind'', ''metadata'', ''spec'', ''status''}"

text \<open>A client whose calls keep \<open>I\<close> as long as they are about the object \<open>i\<close>, and whose server answers an
  apply with the object applied.\<close>

definition confined :: "apimachinery \<Rightarrow> identity \<Rightarrow> ('w \<Rightarrow> bool) \<Rightarrow> 'w client \<Rightarrow> bool" where
  "confined am i I cl \<longleftrightarrow>
     (\<forall>gvk key w. I w \<longrightarrow> I (snd (cl_Get cl gvk key w))) \<and>
     (\<forall>obj w. destination_object am i obj \<longrightarrow> I w \<longrightarrow> I (snd (cl_Delete cl obj w))) \<and>
     (\<forall>obj w. destination_object am i obj \<longrightarrow> I w \<longrightarrow> I (snd (cl_PatchApply cl patchOpts obj w))) \<and>
     (\<forall>obj w. destination_object am i obj \<longrightarrow> I w \<longrightarrow> I (snd (cl_StatusPatchApply cl patchOpts obj w))) \<and>
     (\<forall>w. I w \<longrightarrow> I (snd (cl_GetNamespace cl (nn_Namespace (snd i)) w))) \<and>
     (\<forall>w. I w \<longrightarrow> I (snd (cl_CreateNamespace cl (nn_Namespace (snd i)) w))) \<and>
     (\<forall>obj w m. destination_object am i obj \<longrightarrow> I w \<longrightarrow> fst (cl_PatchApply cl patchOpts obj w) = Inr m \<longrightarrow>
        identity am m = i)"

lemma confinedD:
  assumes "confined am i I cl"
  shows "I w \<Longrightarrow> cl_Get cl gvk key w = (x0, w') \<Longrightarrow> I w'"
    and "destination_object am i obj \<Longrightarrow> I w \<Longrightarrow> cl_Delete cl obj w = (x1, w') \<Longrightarrow> I w'"
    and "destination_object am i obj \<Longrightarrow> I w \<Longrightarrow> cl_PatchApply cl patchOpts obj w = (x2, w') \<Longrightarrow> I w'"
    and "destination_object am i obj \<Longrightarrow> I w \<Longrightarrow> cl_StatusPatchApply cl patchOpts obj w = (x3, w') \<Longrightarrow> I w'"
    and "I w \<Longrightarrow> cl_GetNamespace cl (nn_Namespace (snd i)) w = (x4, w') \<Longrightarrow> I w'"
    and "I w \<Longrightarrow> cl_CreateNamespace cl (nn_Namespace (snd i)) w = (x5, w') \<Longrightarrow> I w'"
    and "destination_object am i obj \<Longrightarrow> I w \<Longrightarrow> cl_PatchApply cl patchOpts obj w = (Inr m, w') \<Longrightarrow> identity am m = i"
  using assms unfolding confined_def by (metis fst_conv snd_conv)+

section \<open>The objects sent\<close>

lemma prepared_destination_object:
  assumes laws: "unstructured_laws am" and enum: "set flds \<subseteq> syncFieldEnum" and plain: "gvk_plain (fst i)"
    and u: "identity am u = i" and dest: "filterFields am u flds = Inr dest"
  shows "destination_object am i (prepareForDestination am dest)"
proof -
  from u plain have "gvk_plain (GetGVK am u)" by (auto simp: identity_def)
  note prep = prepared_object [OF laws enum this dest refl]
  have "dest ''metadata'' = destSkeleton am u flds ''metadata''"
    using filterFields_copied [OF laws enum dest] by (simp add: copied_def)
  with skeleton_facts(2) [OF laws] have "meta_ok dest" by (simp add: meta_ok_def)
  with laws have "meta_ok (prepareForDestination am dest)" by (simp add: prepareForDestination_def)
  with prep u show ?thesis by (auto simp: destination_object_def identity_def dom_def)
qed

lemma toDelete_destination_object:
  assumes laws: "unstructured_laws am" and plain: "gvk_plain gvk"
  shows "destination_object am (gvk, req) (toDelete am gvk req)"
proof -
  let ?obj = "toDelete am gvk req"
  have "identity am ?obj = (gvk, req)" by (rule toDelete_identity [OF laws plain])
  moreover have "meta_ok ?obj" by (simp add: toDelete_def laws)
  moreover have "dom ?obj \<subseteq> {''apiVersion'', ''kind'', ''metadata'', ''spec'', ''status''}"
  proof (rule subsetI, rule ccontr)
    fix k
    assume "k \<in> dom ?obj" and k: "k \<notin> {''apiVersion'', ''kind'', ''metadata'', ''spec'', ''status''}"
    moreover have "?obj k = None" using k by (simp add: toDelete_def laws)
    ultimately show False by (simp add: dom_def)
  qed
  ultimately show ?thesis by (simp add: destination_object_def)
qed

lemma statusObject_destination_object:
  assumes "identity_laws am" and "identity am m = i"
  shows "destination_object am i (statusObject am m st)"
proof -
  have "identity am (statusObject am m st) = i" using assms by (simp add: identity_laws_def)
  then show ?thesis by (auto simp: destination_object_def statusObject_def meta_ok_def split: if_splits)
qed

section \<open>Every step is confined\<close>

lemma ensureNamespace_confined:
  "confined am i I cl \<Longrightarrow> I w \<Longrightarrow> ensureNamespace am cl (nn_Namespace (snd i)) w = (res, w') \<Longrightarrow> I w'"
  by (auto simp: ensureNamespace_def dest: confinedD(5,6) split: if_splits prod.splits option.splits)

lemma patchObject_confined:
  assumes conf: "confined am i I cl" and ident: "identity_laws am" and obj: "destination_object am i obj" and w: "I w"
    and patch: "patchObject am cl obj w = (res, w')"
  shows "I w'"
proof -
  obtain x w1 where x: "cl_PatchApply cl patchOpts obj w = (x, w1)" by (metis prod.exhaust)
  have w1: "I w1" by (rule confinedD(3) [OF conf obj w x])
  have status: "I w2" if "x = Inr m" and "cl_StatusPatchApply cl patchOpts (statusObject am m st) w1 = (y, w2)" for m st y w2
    using confinedD(4) [OF conf statusObject_destination_object [OF ident confinedD(7) [OF conf obj w x [unfolded that(1)]]] w1 that(2)] .
  from patch x w w1 show ?thesis
    by (auto simp: patchObject_def dest: status split: sum.splits option.splits prod.splits)
qed

lemma applyToDestination_confined:
  assumes "confined am i I cl" and "identity_laws am" and "destination_object am i obj" and "I w"
    and "applyToDestination am cl obj w = (res, w')"
  shows "I w'"
proof -
  have "GetNamespace am obj = nn_Namespace (snd i)"
    using assms(3) by (auto simp: destination_object_def identity_def objectKey_def)
  with assms show ?thesis
    by (auto simp: applyToDestination_def dest: ensureNamespace_confined patchObject_confined
        split: prod.splits option.splits)
qed

lemma syncToDestination_confined:
  assumes laws: "unstructured_laws am" "identity_laws am" and conf: "confined am i I cl" and plain: "gvk_plain (fst i)"
    and enum: "set flds \<subseteq> syncFieldEnum" and u: "identity am u = i" and w: "I w"
    and sync: "syncToDestination am gvk k flds u cl w = (res, w')"
  shows "I w'"
proof (cases "filterFields am u flds")
  case (Inr dest)
  let ?obj = "prepareForDestination am dest"
  have obj: "destination_object am i ?obj" by (rule prepared_destination_object [OF laws(1) enum plain u Inr])
  obtain x w1 where x: "destinationExists am cl ?obj w = (x, w1)" by (metis prod.exhaust)
  then have w1: "I w1"
    using w by (auto simp: destinationExists_def dest: confinedD(1) [OF conf] split: prod.splits sum.splits if_splits)
  have app: "I v \<Longrightarrow> applyToDestination am cl ?obj v = (y, v') \<Longrightarrow> I v'" for v y v'
    by (rule applyToDestination_confined [OF conf laws(2) obj])
  from sync Inr x w w1 show ?thesis
    by (auto simp: syncToDestination_def Let_def dest: app split: if_splits sum.splits bool.splits)
qed (use sync w in \<open>simp add: syncToDestination_def\<close>)

definition source_of :: "apimachinery \<Rightarrow> identity \<Rightarrow> jobject option \<Rightarrow> bool" where
  "source_of am i source \<longleftrightarrow> (case source of None \<Rightarrow> True | Some u \<Rightarrow> identity am u = i)"

lemma carryOut_confined:
  assumes laws: "unstructured_laws am" "identity_laws am" and conf: "confined am (gvk, req) I cl" and plain: "gvk_plain gvk"
    and enum: "set (rule_SyncFields rule) \<subseteq> syncFieldEnum" and source: "source_of am (gvk, req) source" and w: "I w"
    and run: "carryOut am gvk req source k rule cl w = (res, w')"
  shows "I w'"
proof (cases source)
  case None
  obtain x w1 where x: "cl_Delete cl (toDelete am gvk req) w = (x, w1)" by (metis prod.exhaust)
  have "I w1" by (rule confinedD(2) [OF conf toDelete_destination_object [OF laws(1) plain] w x])
  with run None x show ?thesis
    by (auto simp: carryOut_def deleteOnDestination_def split: option.splits)
next
  case (Some u)
  with source have "identity am u = (gvk, req)" by (simp add: source_of_def)
  with syncToDestination_confined [OF laws conf _ enum _ w] plain run Some show ?thesis
    by (auto simp: carryOut_def)
qed

text \<open>The destinations of a reconciler satisfy \<open>C\<close>: its local client when it pulls, and when it pushes the clients
  in the cache and those built anew.\<close>

definition destinations ::
  "('w client \<Rightarrow> bool) \<Rightarrow> ('w \<Rightarrow> bool) \<Rightarrow> ('t rest_config \<Rightarrow> ('w, 'w client result) io) \<Rightarrow>
     ('w, 't) DynamicResourceReconciler \<Rightarrow> ('w, 't) remoteClientCache option \<Rightarrow> bool" where
  "destinations C I newClient r cache \<longleftrightarrow>
     (if dr_Mode r = ModePush
      then connections_give C I newClient (dr_RemoteConfigProvider r) \<and> cache_gives C I newClient cache
      else C (dr_LocalClient r))"

lemma runRule_keeps:
  assumes carry: "\<And>cl w err w'. C cl \<Longrightarrow> I w \<Longrightarrow> carryOut am (dr_GVK r) req source k rule cl w = (err, w') \<Longrightarrow> I w'"
    and inv: "destinations C I newClient r cache \<and> I w"
    and run: "runRule am newClient r req source k rule (cache, w) = (out, cache', w')"
  shows "destinations C I newClient r cache' \<and> I w'"
proof (cases "dr_Mode r = ModePush")
  case True
  obtain cl cache1 w1 where get: "getRemoteClient newClient r k (cache, w) = (cl, cache1, w1)"
    by (metis prod.exhaust)
  have prov: "connections_give C I newClient (dr_RemoteConfigProvider r)" and cache: "cache_gives C I newClient cache" and w: "I w"
    using inv True by (simp_all add: destinations_def)
  note given = getRemoteClient_gives [OF prov cache w get]
  have "cache' = cache1 \<and> I w'"
  proof (cases cl)
    case (Inr c)
    with run get True obtain out' where "carryOut am (dr_GVK r) req source k rule c w1 = (out', w')" "cache' = cache1"
      by (auto simp: runRule_def split: prod.splits)
    with given Inr carry show ?thesis by blast
  qed (use run get given True in \<open>auto simp: runRule_def\<close>)
  with given prov True show ?thesis by (simp add: destinations_def)
next
  case False
  with inv run carry show ?thesis by (auto simp: runRule_def destinations_def split: prod.splits)
qed

section \<open>A reconcile is confined to its object\<close>

text \<open>What is asked of the two reads of a reconcile, if they succeed: the source answered with the object asked
  for, and the rules that apply are of a kind.\<close>

definition read_own_object ::
  "apimachinery \<Rightarrow> ('w, 't) DynamicResourceReconciler \<Rightarrow> NamespacedName \<Rightarrow> 'w \<Rightarrow> bool" where
  "read_own_object am r req w \<longleftrightarrow>
     (case fst (readSource am r req w) of Inl _ \<Rightarrow> True | Inr source \<Rightarrow> source_of am (dr_GVK r, req) source)"

definition applicable_rules_are ::
  "(KRMSyncer \<Rightarrow> ResourceRule \<Rightarrow> bool) \<Rightarrow> apimachinery \<Rightarrow> ('w, 't) DynamicResourceReconciler \<Rightarrow>
     NamespacedName \<Rightarrow> 'w \<Rightarrow> bool" where
  "applicable_rules_are R am r req w \<longleftrightarrow>
     (case fst (cl_ListKRMSyncers (dr_LocalClient r) (snd (readSource am r req w))) of Inl _ \<Rightarrow> True
      | Inr ks \<Rightarrow> list_all (\<lambda>(k, rule). R k rule) (applicable r req ks))"

text \<open>The sync fields that the CRD admits.\<close>

definition admitted_rule :: "KRMSyncer \<Rightarrow> ResourceRule \<Rightarrow> bool" where
  "admitted_rule k rule \<longleftrightarrow> set (rule_SyncFields rule) \<subseteq> syncFieldEnum"

text \<open>A reconcile keeps what carrying out a rule keeps on any of its destinations.\<close>

lemma reconcile_keeps:
  assumes carry: "\<And>source k rule cl w err w'. S source \<Longrightarrow> R k rule \<Longrightarrow> C cl \<Longrightarrow> I w \<Longrightarrow>
      carryOut am (dr_GVK r) req source k rule cl w = (err, w') \<Longrightarrow> I w'"
    and known: "\<And>x. fst (readSource am r req (ss_world s)) = Inr x \<Longrightarrow> S x"
    and rules: "applicable_rules_are R am r req (ss_world s)"
    and reads: "reads_keep I (dr_LocalClient r)" "reads_keep I (dr_RemoteClient r)"
    and dests: "destinations C I newClient r (ss_remoteClients s)" and start: "I (ss_world s)"
  shows "I (ss_world (snd (DynamicReconcile am newClient r req s)))"
proof -
  let ?J = "\<lambda>cache w. destinations C I newClient r cache \<and> I w"
  obtain res s' where rec: "DynamicReconcile am newClient r req s = (res, s')"
    by (cases "DynamicReconcile am newClient r req s")
  have "?J (ss_remoteClients s') (ss_world s')"
  proof (rule DynamicReconcile_keeps [where S = S and R = R and I = ?J, OF _ _ _ _ _ _ rec])
    fix source k rule cache w out cache' w'
    assume known: "S source" "R k rule" and J: "?J cache w"
      and run: "runRule am newClient r req source k rule (cache, w) = (out, cache', w')"
    show "?J cache' w'" by (rule runRule_keeps [OF _ J run], rule carry [OF known])
  next
    fix ks k rule
    assume "fst (cl_ListKRMSyncers (dr_LocalClient r) (snd (readSource am r req (ss_world s)))) = Inr ks"
      and mem: "(k, rule) \<in> set (applicable r req ks)"
    with rules have "\<forall>(k, rule) \<in> set (applicable r req ks). R k rule"
      by (simp add: applicable_rules_are_def list_all_iff)
    with mem show "R k rule" by blast
  next
    fix cache w x w'
    assume "?J cache w" and "cl_Get (dr_RemoteClient r) (dr_GVK r) req w = (x, w')"
    then show "?J cache w'" using reads_keepD(1) [OF reads(2)] by blast
  next
    fix cache w x w'
    assume "?J cache w" and "cl_ListKRMSyncers (dr_LocalClient r) w = (x, w')"
    then show "?J cache w'" using reads_keepD(2) [OF reads(1)] by blast
  qed (use known dests start in simp_all)
  then show ?thesis using rec by simp
qed

text \<open>C1: A reconcile touches one object only, whatever happens: in both modes and on every path, also when
  calls fail, every call that can change a destination is about the object of the event. What is
  deleted, applied or sent as a status is a well-formed object with the kind of the watch and the
  namespace and name of the event and no field besides the synced ones, and the only namespace
  read or created is that of the event. So any property of the world that reads, making
  connections and such calls keep survives the reconcile.\<close>

theorem reconcile_is_confined_to_its_object:
  assumes laws: "unstructured_laws am" "identity_laws am" and plain: "gvk_plain (dr_GVK r)"
    and source: "read_own_object am r req (ss_world s)" and rules: "applicable_rules_are admitted_rule am r req (ss_world s)"
    and reads: "reads_keep I (dr_LocalClient r)" "reads_keep I (dr_RemoteClient r)"
    and dests: "destinations (confined am (dr_GVK r, req) I) I newClient r (ss_remoteClients s)"
    and start: "I (ss_world s)"
  shows "I (ss_world (snd (DynamicReconcile am newClient r req s)))"
proof (rule reconcile_keeps [where S = "source_of am (dr_GVK r, req)" and R = admitted_rule, OF _ _ rules reads dests start])
  fix source k rule cl w err w'
  assume S: "source_of am (dr_GVK r, req) source" and R: "admitted_rule k rule"
    and C: "confined am (dr_GVK r, req) I cl" and w: "I w"
    and run: "carryOut am (dr_GVK r) req source k rule cl w = (err, w')"
  show "I w'" by (rule carryOut_confined [OF laws C plain R [unfolded admitted_rule_def] S w run])
qed (use source in \<open>simp add: read_own_object_def\<close>)

section \<open>A partial sync creates nothing\<close>

text \<open>\<open>stored w i\<close> is what a server has under an identity. Its calls, also failing ones, are about the object
  they name: a read finds only what is stored, an apply may store under this identity only, and a
  delete adds nothing.\<close>

definition own_object_only :: "apimachinery \<Rightarrow> ('w \<Rightarrow> identity \<Rightarrow> jobject option) \<Rightarrow> 'w client \<Rightarrow> bool" where
  "own_object_only am stored cl \<longleftrightarrow>
     (\<forall>gvk key w r w'. cl_Get cl gvk key w = (r, w') \<longrightarrow> stored w' = stored w \<and>
        (case r of Inl e \<Rightarrow> True | Inr m \<Rightarrow> stored w (gvk, key) \<noteq> None)) \<and>
     (\<forall>obj w j. j \<noteq> identity am obj \<longrightarrow> stored (snd (cl_PatchApply cl patchOpts obj w)) j = stored w j) \<and>
     (\<forall>obj w j. j \<noteq> identity am obj \<longrightarrow> stored (snd (cl_StatusPatchApply cl patchOpts obj w)) j = stored w j) \<and>
     (\<forall>obj w j. stored (snd (cl_Delete cl obj w)) j \<noteq> None \<longrightarrow> stored w j \<noteq> None) \<and>
     (\<forall>ns w. stored (snd (cl_GetNamespace cl ns w)) = stored w) \<and>
     (\<forall>ns w j. fst j \<noteq> namespaceGVK \<longrightarrow> stored (snd (cl_CreateNamespace cl ns w)) j = stored w j) \<and>
     (\<forall>obj w m. fst (cl_PatchApply cl patchOpts obj w) = Inr m \<longrightarrow> identity am m = identity am obj)"

lemma own_object_onlyD:
  assumes "own_object_only am stored cl"
  shows "cl_Get cl gvk key w = (x0, w') \<Longrightarrow> stored w' = stored w"
    and "cl_Get cl gvk key w = (Inr m, w') \<Longrightarrow> stored w (gvk, key) \<noteq> None"
    and "cl_PatchApply cl patchOpts obj w = (x2, w') \<Longrightarrow> j \<noteq> identity am obj \<Longrightarrow> stored w' j = stored w j"
    and "cl_StatusPatchApply cl patchOpts obj w = (x3, w') \<Longrightarrow> j \<noteq> identity am obj \<Longrightarrow> stored w' j = stored w j"
    and "cl_Delete cl obj w = (x4, w') \<Longrightarrow> stored w' j \<noteq> None \<Longrightarrow> stored w j \<noteq> None"
    and "cl_GetNamespace cl ns w = (x5, w') \<Longrightarrow> stored w' = stored w"
    and "cl_CreateNamespace cl ns w = (x6, w') \<Longrightarrow> fst j \<noteq> namespaceGVK \<Longrightarrow> stored w' j = stored w j"
    and "cl_PatchApply cl patchOpts obj w = (Inr m, w') \<Longrightarrow> identity am m = identity am obj"
proof -
  note laws = assms [unfolded own_object_only_def]
  note get = laws [THEN conjunct1, rule_format] and rest = laws [THEN conjunct2]
  show "cl_Get cl gvk key w = (x0, w') \<Longrightarrow> stored w' = stored w" by (drule get) (erule conjunct1)
  show "cl_Get cl gvk key w = (Inr m, w') \<Longrightarrow> stored w (gvk, key) \<noteq> None" by (drule get) simp
  show "cl_PatchApply cl patchOpts obj w = (x2, w') \<Longrightarrow> j \<noteq> identity am obj \<Longrightarrow> stored w' j = stored w j"
    and "cl_StatusPatchApply cl patchOpts obj w = (x3, w') \<Longrightarrow> j \<noteq> identity am obj \<Longrightarrow> stored w' j = stored w j"
    and "cl_Delete cl obj w = (x4, w') \<Longrightarrow> stored w' j \<noteq> None \<Longrightarrow> stored w j \<noteq> None"
    and "cl_GetNamespace cl ns w = (x5, w') \<Longrightarrow> stored w' = stored w"
    and "cl_CreateNamespace cl ns w = (x6, w') \<Longrightarrow> fst j \<noteq> namespaceGVK \<Longrightarrow> stored w' j = stored w j"
    and "cl_PatchApply cl patchOpts obj w = (Inr m, w') \<Longrightarrow> identity am m = identity am obj"
    using rest by (metis fst_conv snd_conv)+
qed

definition nothing_new :: "(identity \<Rightarrow> jobject option) \<Rightarrow> (identity \<Rightarrow> jobject option) \<Rightarrow> bool" where
  "nothing_new before after \<longleftrightarrow> (\<forall>j. fst j \<noteq> namespaceGVK \<longrightarrow> after j \<noteq> None \<longrightarrow> before j \<noteq> None)"

lemma nothing_new_trans: "nothing_new a b \<Longrightarrow> nothing_new b c \<Longrightarrow> nothing_new a c"
  by (simp add: nothing_new_def)

lemma nothing_new_refl [simp, intro]: "nothing_new a a"
  by (simp add: nothing_new_def)

lemma nothing_new_at:
  assumes "a i \<noteq> None" and "\<And>j. fst j \<noteq> namespaceGVK \<Longrightarrow> j \<noteq> i \<Longrightarrow> b j = a j"
  shows "nothing_new a b"
  unfolding nothing_new_def using assms by metis

lemma ensureNamespace_others:
  assumes own: "own_object_only am stored cl" and "ensureNamespace am cl ns w = (res, w')" and "fst j \<noteq> namespaceGVK"
  shows "stored w' j = stored w j"
proof (cases "ns = []")
  case False
  obtain x w1 where get: "cl_GetNamespace cl ns w = (x, w1)" by (metis prod.exhaust)
  obtain y w2 where create: "cl_CreateNamespace cl ns w1 = (y, w2)" by (metis prod.exhaust)
  have "w' = w1 \<or> w' = w2"
    using assms(2) False get create by (auto simp: ensureNamespace_def split: option.splits if_splits)
  then show ?thesis
    using own_object_onlyD(6) [OF own get] own_object_onlyD(7) [OF own create assms(3)] by auto
qed (use assms in \<open>simp add: ensureNamespace_def\<close>)

lemma patchObject_others:
  assumes own: "own_object_only am stored cl" and ident: "identity_laws am"
    and patch: "patchObject am cl obj w = (res, w')" and j: "j \<noteq> identity am obj"
  shows "stored w' j = stored w j"
proof -
  obtain x w1 where x: "cl_PatchApply cl patchOpts obj w = (x, w1)" by (metis prod.exhaust)
  note w1 = own_object_onlyD(3) [OF own x j]
  have "stored w2 j = stored w1 j"
    if "x = Inr m" and "cl_StatusPatchApply cl patchOpts (statusObject am m st) w1 = (y, w2)" for m st y w2
  proof (rule own_object_onlyD(4) [OF own that(2)])
    show "j \<noteq> identity am (statusObject am m st)"
      using own_object_onlyD(8) [OF own x [unfolded that(1)]] ident j by (simp add: identity_laws_def)
  qed
  with patch x w1 show ?thesis
    by (auto simp: patchObject_def split: sum.splits option.splits prod.splits)
qed

lemma apply_others:
  assumes own: "own_object_only am stored cl" and ident: "identity_laws am"
    and app: "applyToDestination am cl obj w = (res, w')" and j: "fst j \<noteq> namespaceGVK" "j \<noteq> identity am obj"
  shows "stored w' j = stored w j"
proof -
  obtain x w1 where x: "ensureNamespace am cl (GetNamespace am obj) w = (x, w1)" by (metis prod.exhaust)
  note w1 = ensureNamespace_others [OF own x j(1)]
  with app x show ?thesis
    by (auto simp: applyToDestination_def dest: patchObject_others [OF own ident _ j(2)] split: option.splits)
qed

lemma carryOut_partial_creates_nothing:
  assumes own: "own_object_only am stored cl" and ident: "identity_laws am"
    and part: "\<not> isFullSync (rule_SyncFields rule)"
    and run: "carryOut am gvk req source k rule cl w = (res, w')"
  shows "nothing_new (stored w) (stored w')"
proof (cases source)
  case None
  obtain x w1 where x: "cl_Delete cl (toDelete am gvk req) w = (x, w1)" by (metis prod.exhaust)
  have "nothing_new (stored w) (stored w1)"
    using own_object_onlyD(5) [OF own x] by (simp add: nothing_new_def)
  with run None x show ?thesis
    by (auto simp: carryOut_def deleteOnDestination_def split: option.splits)
next
  case (Some u)
  show ?thesis
  proof (cases "filterFields am u (rule_SyncFields rule)")
    case (Inl e)
    with run Some show ?thesis by (simp add: carryOut_def syncToDestination_def)
  next
    case (Inr dest)
    let ?obj = "prepareForDestination am dest"
    obtain x w1 where x: "cl_Get cl (GetGVK am ?obj) (objectKey am ?obj) w = (x, w1)" by (metis prod.exhaust)
    note w1 = own_object_onlyD(1) [OF own x]
    show ?thesis
    proof (cases x)
      case (Inl e)
      with run Some \<open>filterFields _ _ _ = _\<close> x w1 part show ?thesis
        by (auto simp: carryOut_def syncToDestination_def destinationExists_def Let_def split: if_splits)
    next
      case (Inr m)
      with run Some \<open>filterFields _ _ _ = _\<close> x part have app: "applyToDestination am cl ?obj w1 = (res, w')"
        by (simp add: carryOut_def syncToDestination_def destinationExists_def Let_def)
      have "stored w (identity am ?obj) \<noteq> None"
        using own_object_onlyD(2) [OF own x [unfolded Inr]] by (simp add: identity_def)
      then show ?thesis
        using apply_others [OF own ident app] w1 by (intro nothing_new_at [of _ "identity am ?obj"]) simp_all
    qed
  qed
qed

definition nothing_added :: "('w \<Rightarrow> identity \<Rightarrow> jobject option) \<Rightarrow> (identity \<Rightarrow> jobject option) \<Rightarrow> 'w \<Rightarrow> bool" where
  "nothing_added stored before w \<longleftrightarrow> nothing_new before (stored w)"

definition partial_rule :: "KRMSyncer \<Rightarrow> ResourceRule \<Rightarrow> bool" where
  "partial_rule k rule \<longleftrightarrow> \<not> isFullSync (rule_SyncFields rule)"

text \<open>A destination client is one of the server in question, or leaves that server alone.\<close>

definition of_server ::
  "apimachinery \<Rightarrow> ('w \<Rightarrow> identity \<Rightarrow> jobject option) \<Rightarrow> (identity \<Rightarrow> jobject option) \<Rightarrow> 'w client \<Rightarrow> bool" where
  "of_server am stored before cl \<longleftrightarrow> own_object_only am stored cl \<or> calls_keep (nothing_added stored before) cl"


end
