(* ===== verification/ExampleConfinement.thy ===== *)
theory ExampleConfinement
  imports Confinement ExampleCluster
begin

text \<open>
  Confinement at the concrete servers: a push of one widget while the destination already has another
  one.
\<close>

definition exOtherKey :: NamespacedName where
  "exOtherKey = \<lparr>nn_Namespace = ''ns'', nn_Name = ''other''\<rparr>"

definition exCrowded :: ex_world where
  "exCrowded = exPut Destination (exGVK, exOtherKey) (Some exObject) (exWorld [exSyncer ''push'' [''spec'']])"

definition exKept :: "ex_world \<Rightarrow> bool" where
  "exKept w \<longleftrightarrow> ew_objects w Destination (exGVK, exOtherKey) = Some exObject \<and>
     ew_objects w Source = [(exGVK, exObjKey) \<mapsto> exObject] \<and> ew_syncers w = [exSyncer ''push'' [''spec'']]"

lemma exKept_put: "exKept w \<Longrightarrow> exKept (exPut Destination (exGVK, exObjKey) v w)"
  by (simp add: exKept_def exPut_def exOtherKey_def exObjKey_def)

lemma exKept_confined: "confined ex_am (exGVK, exObjKey) exKept (exClient Destination)"
  unfolding confined_def
proof (intro conjI allI impI)
  fix obj w m
  assume obj: "destination_object ex_am (exGVK, exObjKey) obj" and w: "exKept w"
  then have id: "exId obj = (exGVK, exObjKey)" by (simp add: destination_object_def exId_def)
  from w show "exKept (snd (cl_Delete (exClient Destination) obj w))"
    and "exKept (snd (cl_PatchApply (exClient Destination) patchOpts obj w))"
    and "exKept (snd (cl_StatusPatchApply (exClient Destination) patchOpts obj w))"
    by (simp_all add: exClient_def exApply_def exApplyStatus_def Let_def id exKept_put split: option.split)
  assume "fst (cl_PatchApply (exClient Destination) patchOpts obj w) = Inr m"
  then have "cl_PatchApply (exClient Destination) patchOpts obj w
      = (Inr m, snd (cl_PatchApply (exClient Destination) patchOpts obj w))" by (metis prod.collapse)
  from apply_lawsD(1) [OF ex_apply_laws this] id show "identity ex_am m = (exGVK, exObjKey)"
    by (simp add: exId_def)
qed (simp_all add: exClient_def exKept_def)

theorem reconcile_is_confined_to_its_object_witness:
  "ew_objects (ss_world (snd (DynamicReconcile ex_am exDestClient exPusher exObjKey (exState exCrowded))))
     Destination (exGVK, exOtherKey) = Some exObject"
proof -
  have pusher: "dr_GVK exPusher = exGVK" "dr_LocalClient exPusher = exClient Source" "dr_RemoteClient exPusher = exClient Source"
    "dr_Mode exPusher = ModePush" "dr_RemoteConfigProvider exPusher = exProvider"
    by (simp_all add: exPusher_def)
  have reads: "reads_keep exKept (exClient Source)"
    by (simp add: reads_keep_def exClient_def)
  have read: "readSource ex_am exPusher exObjKey exCrowded = (Inr (Some exObject), exCrowded)"
    by (simp add: readSource_def pusher exClient_def exCrowded_def exPut_def exWorld_def)
  have source: "read_own_object ex_am exPusher exObjKey (ss_world (exState exCrowded))"
    by (simp add: read_own_object_def exState_def read source_of_def exObject_identity pusher)
  have rules: "applicable_rules_are admitted_rule ex_am exPusher exObjKey (ss_world (exState exCrowded))"
  proof -
    have "cl_ListKRMSyncers (exClient Source) exCrowded = (Inr [exSyncer ''push'' [''spec'']], exCrowded)"
      by (simp add: exClient_def exCrowded_def exPut_def exWorld_def)
    then show ?thesis
      by (simp add: applicable_rules_are_def exState_def read pusher)
        (auto simp: list_all_iff applicable_def exSyncer_def exRule_def syncFieldEnum_def admitted_rule_def)
  qed
  have dests: "destinations (confined ex_am (exGVK, exObjKey) exKept) exKept exDestClient exPusher (ss_remoteClients (exState exCrowded))"
    using exKept_confined
    by (simp add: destinations_def pusher connections_give_def cache_gives_def exState_def exDestClient_def exProvider_def)
  have "exKept (ss_world (snd (DynamicReconcile ex_am exDestClient exPusher exObjKey (exState exCrowded))))"
    by (rule reconcile_is_confined_to_its_object [OF ex_unstructured_laws ex_identity_laws])
      (simp_all add: pusher reads source rules dests [unfolded pusher] exObject_facts,
       simp_all add: exState_def exCrowded_def exKept_def exPut_def exWorld_def)
  then show ?thesis by (simp add: exKept_def)
qed

text \<open>A status sync of the widget to a destination that does not have it.\<close>

lemma exClient_own: "own_object_only ex_am (\<lambda>w. ew_objects w s) (exClient s)"
  unfolding own_object_only_def
proof (intro conjI allI impI)
  fix obj w m
  assume "fst (cl_PatchApply (exClient s) patchOpts obj w) = Inr m"
  then have "cl_PatchApply (exClient s) patchOpts obj w
      = (Inr m, snd (cl_PatchApply (exClient s) patchOpts obj w))" by (metis prod.collapse)
  from apply_lawsD(1) [OF ex_apply_laws this] show "identity ex_am m = identity ex_am obj" by simp
qed (auto simp: exClient_def exApply_def exApplyStatus_def exPut_def exId_def Let_def split: option.splits if_splits)


end
