(* ===== verification/PushDelivery.thy ===== *)
theory PushDelivery
  imports PushRouting
begin

text \<open>
  End to end in push mode: one reconcile fans an object out to the clusters that the KRMSyncers name.
  The abstract specification is per cluster: the object is synced by the last rule for the cluster, and a
  cluster that no rule is for is left alone. What the clusters store is \<open>held c\<close> for a connection \<open>c\<close>.
\<close>

section \<open>The clusters\<close>

text \<open>Reading the local cluster and making connections change nothing on any cluster.\<close>

definition quiet_world ::
  "('c \<Rightarrow> 'w \<Rightarrow> identity \<Rightarrow> jobject option) \<Rightarrow> ('t rest_config \<Rightarrow> ('w, 'w client result) io) \<Rightarrow>
     ('w, 't) RemoteConfigProvider \<Rightarrow> ('w, 't) DynamicResourceReconciler \<Rightarrow> bool" where
  "quiet_world held newClient provider r \<longleftrightarrow>
     (\<forall>c objs. connecting_keeps (\<lambda>w. held c w = objs) newClient provider \<and>
        reads_keep (\<lambda>w. held c w = objs) (dr_LocalClient r) \<and> reads_keep (\<lambda>w. held c w = objs) (dr_RemoteClient r))"

text \<open>A client built for a remote talks to the API server of its connection, and to no other one.\<close>

definition talks_to ::
  "apimachinery \<Rightarrow> ('c \<Rightarrow> 'w \<Rightarrow> identity \<Rightarrow> jobject option) \<Rightarrow> 'c \<Rightarrow> 'w client \<Rightarrow> bool" where
  "talks_to am held c cl \<longleftrightarrow>
     server_laws am cl (held c) \<and> (\<forall>d objs. d \<noteq> c \<longrightarrow> calls_keep (\<lambda>w. held d w = objs) cl)"

definition own_clusters ::
  "apimachinery \<Rightarrow> ('c \<Rightarrow> 'w \<Rightarrow> identity \<Rightarrow> jobject option) \<Rightarrow> (RemoteConfig option \<Rightarrow> bool) \<Rightarrow> (RemoteConfig option \<Rightarrow> 'c) \<Rightarrow>
     ('w, 't) RemoteConfigProvider \<Rightarrow> ('t rest_config \<Rightarrow> ('w, 'w client result) io) \<Rightarrow> bool" where
  "own_clusters am held valid conn provider newClient \<longleftrightarrow>
     (\<forall>ns remote cl. valid remote \<longrightarrow> builtFor provider newClient ns remote cl \<longrightarrow> talks_to am held (conn remote) cl)"

section \<open>The specification\<close>

definition lastRuleFor ::
  "(RemoteConfig option \<Rightarrow> 'c) \<Rightarrow> 'c \<Rightarrow> (KRMSyncer \<times> ResourceRule) list \<Rightarrow> (KRMSyncer \<times> ResourceRule) option" where
  "lastRuleFor conn c pairs = find (\<lambda>(k, rule). conn (spec_Remote (ks_Spec k)) = c) (rev pairs)"

definition delivered ::
  "apimachinery \<Rightarrow> jobject \<Rightarrow> (KRMSyncer \<times> ResourceRule) option \<Rightarrow>
     (identity \<Rightarrow> jobject option) \<Rightarrow> (identity \<Rightarrow> jobject option) \<Rightarrow> bool" where
  "delivered am u p before after \<longleftrightarrow>
     (case p of
        None \<Rightarrow> after = before
      | Some (k, rule) \<Rightarrow>
          synced (identity am u) (selectedSpec u (set (rule_SyncFields rule)))
            (selectedStatus u (set (rule_SyncFields rule))) before after)"

lemma delivered_untouched: "delivered am u p before after \<Longrightarrow> untouched (identity am u) before after"
  by (auto simp: delivered_def synced_iff untouched_def split: option.splits)

lemma synced_after_untouched:
  "untouched i a b \<Longrightarrow> synced i spec status b c \<Longrightarrow> synced i spec status a c"
  by (auto simp: synced_iff intro: untouched_trans)

section \<open>One rule\<close>

context remote_provider
begin

lemma runRule_client:
  assumes mode: "dr_Mode r = ModePush"
    and cache: "filled_cache valid provider newClient cache" and k: "valid (spec_Remote (ks_Spec k))"
    and run: "runRule am newClient r req source k rule (cache, w) = (None, cache', w')"
  shows "\<exists>c c' w1 ns0 r0 cl. cache = Some c \<and> cache_reachable valid provider newClient c \<and>
    cache' = Some c' \<and> cache_reachable valid provider newClient c' \<and>
    remoteClientCache_get newClient (ks_Namespace k) (spec_Remote (ks_Spec k)) (c, w) = (Inr cl, c', w1) \<and>
    valid r0 \<and> conn r0 = conn (spec_Remote (ks_Spec k)) \<and> builtFor provider newClient ns0 r0 cl \<and>
    carryOut am (dr_GVK r) req source k rule cl w1 = (None, w')"
proof -
  obtain c where c: "cache = Some c" "cache_reachable valid provider newClient c"
    using cache by (auto simp: filled_cache_def split: option.splits)
  obtain res c1 w1 where get: "remoteClientCache_get newClient (ks_Namespace k) (spec_Remote (ks_Spec k)) (c, w) = (res, c1, w1)"
    by (metis prod.exhaust)
  have c1: "cache_reachable valid provider newClient c1" by (rule cache_reachable.got [OF c(2) k get])
  from run mode c(1) get obtain cl where cl: "res = Inr cl" "cache' = Some c1"
    "carryOut am (dr_GVK r) req source k rule cl w1 = (None, w')"
    by (auto simp: runRule_def getRemoteClient_def split: sum.splits prod.splits)
  from client_of_connection [OF c(2) k get [unfolded cl(1)]] c cl c1 get show ?thesis by blast
qed

lemma runRule_delivers:
  assumes mode: "dr_Mode r = ModePush" and laws: "unstructured_laws am"
    and gvk: "gvk_plain (GetGVK am u)" "GetGVK am u \<noteq> namespaceGVK"
    and quiet: "quiet_world held newClient provider r" and own: "own_clusters am held valid conn provider newClient"
    and cache: "filled_cache valid provider newClient cache" and k: "valid (spec_Remote (ks_Spec k))"
    and enum: "set (rule_SyncFields rule) \<subseteq> syncFieldEnum"
    and run: "runRule am newClient r req (Some u) k rule (cache, w) = (None, cache', w')"
  shows "filled_cache valid provider newClient cache' \<and> (\<forall>c.
    delivered am u (if conn (spec_Remote (ks_Spec k)) = c then Some (k, rule) else None) (held c w) (held c w'))"
proof -
  obtain c c' w1 ns0 r0 cl where
    c: "cache_reachable valid provider newClient c" and c': "cache' = Some c'" "cache_reachable valid provider newClient c'"
    and get: "remoteClientCache_get newClient (ks_Namespace k) (spec_Remote (ks_Spec k)) (c, w) = (Inr cl, c', w1)"
    and r0: "valid r0" "conn r0 = conn (spec_Remote (ks_Spec k))" "builtFor provider newClient ns0 r0 cl"
    and carry: "carryOut am (dr_GVK r) req (Some u) k rule cl w1 = (None, w')"
    using runRule_client [OF mode cache k run] by (elim exE conjE) (rule that)
  have cl: "talks_to am held (conn (spec_Remote (ks_Spec k))) cl"
    using own r0(1,3) unfolding own_clusters_def r0(2) [symmetric] by blast
  have first: "held d w1 = held d w" for d
    by (rule get_keeps_world [where I = "\<lambda>w1. held d w1 = held d w", OF _ refl get])
      (use quiet cache_provider [OF c] in \<open>simp add: quiet_world_def\<close>)
  have "delivered am u (if conn (spec_Remote (ks_Spec k)) = d then Some (k, rule) else None) (held d w) (held d w')" for d
  proof (cases "conn (spec_Remote (ks_Spec k)) = d")
    case True
    with cl have "server_laws am cl (held d)" by (simp add: talks_to_def)
    from carry have "syncToDestination am (dr_GVK r) k (rule_SyncFields rule) u cl w1 = (None, w')"
      by (simp add: carryOut_def)
    from sync_refines [OF \<open>server_laws am cl (held d)\<close> laws enum gvk this] True show ?thesis
      by (simp add: delivered_def first)
  next
    case False
    with cl have "calls_keep (\<lambda>w'. held d w' = held d w) cl" by (simp add: talks_to_def)
    from carryOut_keeps [OF this first carry] False show ?thesis by (simp add: delivered_def)
  qed
  with c' show ?thesis by (simp add: filled_cache_def)
qed

section \<open>All rules\<close>

lemma runRules_deliver:
  assumes mode: "dr_Mode r = ModePush" and laws: "unstructured_laws am"
    and gvk: "gvk_plain (GetGVK am u)" "GetGVK am u \<noteq> namespaceGVK"
    and quiet: "quiet_world held newClient provider r" and own: "own_clusters am held valid conn provider newClient"
    and cache: "filled_cache valid provider newClient cache"
    and run: "runRules am newClient r req (Some u) pairs (cache, w) = (outs, cache', w')" and ok: "non_nil outs = []"
    and pairs: "\<forall>(k, rule) \<in> set pairs. valid (spec_Remote (ks_Spec k)) \<and> set (rule_SyncFields rule) \<subseteq> syncFieldEnum"
  shows "filled_cache valid provider newClient cache' \<and>
    (\<forall>c. delivered am u (lastRuleFor conn c pairs) (held c w) (held c w'))"
  using run ok pairs
proof (induction pairs arbitrary: outs cache' w' rule: rev_induct)
  case Nil
  with cache show ?case by (simp add: runRules_def lastRuleFor_def delivered_def)
next
  case (snoc p pairs)
  obtain k rule where p: "p = (k, rule)" by (cases p)
  obtain outs1 c1 w1 where 1: "runRules am newClient r req (Some u) pairs (cache, w) = (outs1, c1, w1)" by (metis prod.exhaust)
  obtain out c2 w2 where 2: "runRule am newClient r req (Some u) k rule (c1, w1) = (out, c2, w2)" by (metis prod.exhaust)
  from snoc.prems(1,2) 1 2 p have o: "non_nil outs1 = []" "out = None" "c2 = cache'" "w2 = w'"
    by (auto simp: runRules_def run_all_append non_nil_append split: option.splits)
  have before: "filled_cache valid provider newClient c1"
    "delivered am u (lastRuleFor conn c pairs) (held c w) (held c w1)" for c
    using snoc.IH [OF 1 o(1)] snoc.prems(3) by simp_all
  have k: "valid (spec_Remote (ks_Spec k))" "set (rule_SyncFields rule) \<subseteq> syncFieldEnum"
    using snoc.prems(3) p by simp_all
  have last: "filled_cache valid provider newClient cache'"
    "delivered am u (if conn (spec_Remote (ks_Spec k)) = c then Some (k, rule) else None) (held c w1) (held c w')" for c
    using runRule_delivers [OF mode laws gvk quiet own before(1) k 2 [unfolded o]] by simp_all
  have "delivered am u (lastRuleFor conn c (pairs @ [p])) (held c w) (held c w')" for c
  proof (cases "conn (spec_Remote (ks_Spec k)) = c")
    case True
    with last(2) [of c] synced_after_untouched [OF delivered_untouched [OF before(2)]] show ?thesis
      by (simp add: p lastRuleFor_def delivered_def)
  next
    case False
    with last(2) [of c] before(2) [of c] show ?thesis by (simp add: p lastRuleFor_def delivered_def)
  qed
  with last(1) show ?case by blast
qed

lemma reconcile_delivers:
  assumes mode: "dr_Mode r = ModePush" and laws: "unstructured_laws am"
    and gvk: "gvk_plain (GetGVK am u)" "GetGVK am u \<noteq> namespaceGVK"
    and quiet: "quiet_world held newClient provider r" and own: "own_clusters am held valid conn provider newClient"
    and cache: "filled_cache valid provider newClient (ss_remoteClients s)"
    and read: "readSource am r req (ss_world s) = (Inr (Some u), w1)"
    and syncers: "cl_ListKRMSyncers (dr_LocalClient r) w1 = (Inr krmsyncers, w2)"
    and pairs: "\<forall>(k, rule) \<in> set (applicable r req krmsyncers).
      valid (spec_Remote (ks_Spec k)) \<and> set (rule_SyncFields rule) \<subseteq> syncFieldEnum"
    and rec: "DynamicReconcile am newClient r req s = (None, s')"
  shows "delivered am u (lastRuleFor conn c (applicable r req krmsyncers)) (held c (ss_world s)) (held c (ss_world s'))"
proof -
  obtain outs where run: "runRules am newClient r req (Some u) (applicable r req krmsyncers) (ss_remoteClients s, w2)
      = (outs, ss_remoteClients s', ss_world s')" and ok: "non_nil outs = []"
    using successful_reconcile [OF read syncers rec] by blast
  have reads: "reads_keep (\<lambda>w. held c w = objs) (dr_LocalClient r)" "reads_keep (\<lambda>w. held c w = objs) (dr_RemoteClient r)"
    for objs using quiet by (simp_all add: quiet_world_def)
  obtain x where "cl_Get (dr_RemoteClient r) (dr_GVK r) req (ss_world s) = (x, w1)"
    using read by (auto simp: readSource_def split: prod.splits sum.splits if_splits)
  then have "held c w1 = held c (ss_world s)" by (rule reads_keepD(1) [OF reads(2) refl])
  then have "held c w2 = held c (ss_world s)" by (rule reads_keepD(2) [OF reads(1) _ syncers])
  from runRules_deliver [OF mode laws gvk quiet own cache run ok pairs, THEN conjunct2, THEN spec, of c]
  show ?thesis unfolding \<open>held c w2 = held c (ss_world s)\<close> .
qed

end

section \<open>Deletion\<close>

text \<open>What counts as deleted on a cluster stays so whatever the program reads or connects to, and whatever it
  deletes on other clusters; and a client built for a remote deletes on the cluster of its connection.\<close>

definition deletes_for_good ::
  "apimachinery \<Rightarrow> ('c \<Rightarrow> 'w \<Rightarrow> identity \<Rightarrow> bool) \<Rightarrow> (RemoteConfig option \<Rightarrow> bool) \<Rightarrow> (RemoteConfig option \<Rightarrow> 'c) \<Rightarrow>
     ('w, 't) RemoteConfigProvider \<Rightarrow> ('t rest_config \<Rightarrow> ('w, 'w client result) io) \<Rightarrow> bool" where
  "deletes_for_good am deleted valid conn provider newClient \<longleftrightarrow>
     (\<forall>c i. connecting_keeps (\<lambda>w. deleted c w i) newClient provider) \<and>
     (\<forall>ns remote cl. valid remote \<longrightarrow> builtFor provider newClient ns remote cl \<longrightarrow>
        delete_laws am cl (deleted (conn remote)) \<and>
        (\<forall>d obj w i. deleted d w i \<longrightarrow> deleted d (snd (cl_Delete cl obj w)) i))"

context remote_provider
begin

lemma runRule_deletes:
  assumes mode: "dr_Mode r = ModePush" and laws: "unstructured_laws am" and gvk: "gvk_plain (dr_GVK r)"
    and del: "deletes_for_good am deleted valid conn provider newClient"
    and cache: "filled_cache valid provider newClient cache" and k: "valid (spec_Remote (ks_Spec k))"
    and run: "runRule am newClient r req None k rule (cache, w) = (None, cache', w')"
  shows "filled_cache valid provider newClient cache' \<and> deleted (conn (spec_Remote (ks_Spec k))) w' (dr_GVK r, req) \<and>
    (\<forall>d i. deleted d w i \<longrightarrow> deleted d w' i)"
proof -
  obtain c c' w1 ns0 r0 cl where
    c: "cache_reachable valid provider newClient c" and c': "cache' = Some c'" "cache_reachable valid provider newClient c'"
    and get: "remoteClientCache_get newClient (ks_Namespace k) (spec_Remote (ks_Spec k)) (c, w) = (Inr cl, c', w1)"
    and r0: "valid r0" "conn r0 = conn (spec_Remote (ks_Spec k))" "builtFor provider newClient ns0 r0 cl"
    and carry: "carryOut am (dr_GVK r) req None k rule cl w1 = (None, w')"
    using runRule_client [OF mode cache k run] by (elim exE conjE) (rule that)
  have cl: "delete_laws am cl (deleted (conn (spec_Remote (ks_Spec k))))"
    and other: "\<And>d obj w i. deleted d w i \<Longrightarrow> deleted d (snd (cl_Delete cl obj w)) i"
    using del r0(1,3) unfolding deletes_for_good_def r0(2) [symmetric] by blast+
  have conn: "connecting_keeps (\<lambda>w. deleted d w i) newClient (rcc_provider c)" for d i
    using del unfolding deletes_for_good_def cache_provider [OF c] by blast
  have "deleted d w' i" if "deleted d w i" for d i
  proof -
    have "deleted d w1 i" by (rule get_keeps_world [where I = "\<lambda>w. deleted d w i", OF conn that get])
    moreover have "w' = snd (cl_Delete cl (toDelete am (dr_GVK r) req) w1)"
      using carry by (auto simp: carryOut_def deleteOnDestination_def split: prod.splits option.splits)
    ultimately show ?thesis using other by simp
  qed
  with carryOut_deletes(1) [OF cl laws gvk carry] c' show ?thesis by (simp add: filled_cache_def)
qed

lemma runRules_delete:
  assumes mode: "dr_Mode r = ModePush" and laws: "unstructured_laws am" and gvk: "gvk_plain (dr_GVK r)"
    and del: "deletes_for_good am deleted valid conn provider newClient"
    and cache: "filled_cache valid provider newClient cache"
    and run: "runRules am newClient r req None pairs (cache, w) = (outs, cache', w')" and ok: "non_nil outs = []"
    and pairs: "\<forall>(k, rule) \<in> set pairs. valid (spec_Remote (ks_Spec k))"
  shows "filled_cache valid provider newClient cache' \<and>
    (\<forall>(k, rule) \<in> set pairs. deleted (conn (spec_Remote (ks_Spec k))) w' (dr_GVK r, req))"
  using run ok pairs
proof (induction pairs arbitrary: outs cache' w' rule: rev_induct)
  case Nil
  with cache show ?case by (simp add: runRules_def)
next
  case (snoc p pairs)
  obtain k rule where p: "p = (k, rule)" by (cases p)
  obtain outs1 c1 w1 where 1: "runRules am newClient r req None pairs (cache, w) = (outs1, c1, w1)" by (metis prod.exhaust)
  obtain out c2 w2 where 2: "runRule am newClient r req None k rule (c1, w1) = (out, c2, w2)" by (metis prod.exhaust)
  from snoc.prems(1,2) 1 2 p have o: "non_nil outs1 = []" "out = None" "c2 = cache'" "w2 = w'"
    by (auto simp: runRules_def run_all_append non_nil_append split: option.splits)
  have before: "filled_cache valid provider newClient c1"
    "\<forall>(k, rule) \<in> set pairs. deleted (conn (spec_Remote (ks_Spec k))) w1 (dr_GVK r, req)"
    using snoc.IH [OF 1 o(1)] snoc.prems(3) by simp_all
  have "valid (spec_Remote (ks_Spec k))" using snoc.prems(3) p by simp
  from runRule_deletes [OF mode laws gvk del before(1) this 2 [unfolded o]] before(2)
  show ?case by (auto simp: p)
qed

lemma reconcile_deletes:
  assumes mode: "dr_Mode r = ModePush" and laws: "unstructured_laws am" and gvk: "gvk_plain (dr_GVK r)"
    and del: "deletes_for_good am deleted valid conn provider newClient"
    and cache: "filled_cache valid provider newClient (ss_remoteClients s)"
    and read: "readSource am r req (ss_world s) = (Inr None, w1)"
    and syncers: "cl_ListKRMSyncers (dr_LocalClient r) w1 = (Inr krmsyncers, w2)"
    and pairs: "\<forall>(k, rule) \<in> set (applicable r req krmsyncers). valid (spec_Remote (ks_Spec k))"
    and rec: "DynamicReconcile am newClient r req s = (None, s')"
  shows "\<forall>(k, rule) \<in> set (applicable r req krmsyncers).
    deleted (conn (spec_Remote (ks_Spec k))) (ss_world s') (dr_GVK r, req)"
proof -
  obtain outs where run: "runRules am newClient r req None (applicable r req krmsyncers) (ss_remoteClients s, w2)
      = (outs, ss_remoteClients s', ss_world s')" and ok: "non_nil outs = []"
    using successful_reconcile [OF read syncers rec] by blast
  from runRules_delete [OF mode laws gvk del cache run ok pairs] show ?thesis by (rule conjunct2)
qed

end

section \<open>Fan-out\<close>



end
