(* ===== verification/ExamplePush.thy ===== *)
theory ExamplePush
  imports PushDelivery ExampleGke ExampleCluster
begin

text \<open>
  Push mode with the GKE provider at a concrete world: outside the provider there are the API servers of
  all clusters, by their connection, and \<open>None\<close> is the local one. A client talks to the cluster that its rotating
  transport belongs to. Another cluster than the one pushed to has an object of the same name.
\<close>

type_synonym connection_name = "(string \<times> string \<times> string \<times> string) option"
type_synonym ex_clusters = "connection_name \<Rightarrow> identity \<Rightarrow> jobject option"
type_synonym ex_pworld = "(string, string, ex_clusters) gke_world"

definition exPushEnv :: "(string, string, ex_clusters) genv" where
  "exPushEnv =
     \<lparr>ge_Now = (\<lambda>_. 5),
      ge_Do = (\<lambda>req w. (Inr (exGoodResponse (json_encode (clusterJSON exampleCluster))), w)),
      ge_DefaultTokenSource = (\<lambda>scopes w. (Inr ''adc'', w)),
      ge_ReuseTokenSource = (\<lambda>ts. ts),
      ge_DefaultTransport = ''http'',
      ge_NewTransport = (\<lambda>ca. Inr (''tls:'' @ ca))\<rparr>"

section \<open>The clusters\<close>

definition exHeld :: "connection_name \<Rightarrow> ex_pworld \<Rightarrow> identity \<Rightarrow> jobject option" where
  "exHeld c w = GKEConfigProvider.more w c"

definition exStore :: "connection_name \<Rightarrow> identity \<Rightarrow> jobject option \<Rightarrow> ex_pworld \<Rightarrow> ex_pworld" where
  "exStore c i v w = w\<lparr>GKEConfigProvider.more := (GKEConfigProvider.more w)(c := (GKEConfigProvider.more w c)(i := v))\<rparr>"

lemma exHeld_store: "exHeld d (exStore c i v w) = (if d = c then (exHeld c w)(i := v) else exHeld d w)"
  by (simp add: exHeld_def exStore_def)

definition exMerge :: "jobject option \<Rightarrow> jobject \<Rightarrow> jobject" where
  "exMerge old obj =
     ((case old of None \<Rightarrow> Map.empty | Some m \<Rightarrow> m) |` (- {''apiVersion'', ''kind'', ''metadata''})) ++ obj"

definition exPushSyncer :: KRMSyncer where
  "exPushSyncer = \<lparr>ks_Namespace = ''default'', ks_Name = ''sync'',
     ks_Spec = \<lparr>spec_Suspend = False, spec_Mode = ''push'', spec_Remote = exRemote, spec_Rules = [exRule [''spec'']]\<rparr>,
     ks_Conditions = []\<rparr>"

definition exCluster :: "connection_name \<Rightarrow> ex_pworld client" where
  "exCluster c =
     \<lparr>cl_Get = (\<lambda>gvk key w. (case exHeld c w (gvk, key) of None \<Rightarrow> Inl exNotFound | Some m \<Rightarrow> Inr m, w)),
      cl_Delete = (\<lambda>obj w. (None, exStore c (exId obj) None w)),
      cl_PatchApply = (\<lambda>_ obj w.
        (Inr (exMerge (exHeld c w (exId obj)) obj), exStore c (exId obj) (Some (exMerge (exHeld c w (exId obj)) obj)) w)),
      cl_StatusPatchApply = (\<lambda>_ obj w.
        (case exHeld c w (exId obj) of
           None \<Rightarrow> (Inl exNotFound, w)
         | Some old \<Rightarrow> (Inr (old(''status'' := obj ''status'')), exStore c (exId obj) (Some (old(''status'' := obj ''status''))) w))),
      cl_GetNamespace = (\<lambda>_ w. (None, w)), cl_CreateNamespace = (\<lambda>_ w. (None, w)),
      cl_ListKRMSyncers = (\<lambda>w. (Inr [exPushSyncer], w)), cl_GetKRMSyncer = (\<lambda>_ w. (Inr exPushSyncer, w)),
      cl_StatusUpdateKRMSyncer = (\<lambda>_ w. (None, w))\<rparr>"

lemma exCluster_other: "d \<noteq> c \<Longrightarrow> calls_keep (\<lambda>w. exHeld d w = objs) (exCluster c)"
  by (auto simp: calls_keep_def reads_keep_def exCluster_def exHeld_store split: option.split)

lemma exMerge_laws: "exId (exMerge old obj) = exId obj" "applied (obj k) (exMerge old obj k)"
  unfolding exMerge_def by (rule exApply_keeps_identity)
    (cases "obj k"; simp add: applied_def included.same map_add_Some_iff)

lemma exCluster_server_laws: "server_laws ex_am (exCluster c) (exHeld c)"
  unfolding server_laws_def
proof (intro conjI)
  show "read_laws ex_am (exCluster c) (exHeld c)" by (auto simp: read_laws_def exCluster_def split: option.splits)
  show "apply_laws ex_am (exCluster c) (exHeld c)"
    unfolding apply_laws_def
  proof (intro conjI allI impI)
    fix opts m w m' w'
    assume "cl_PatchApply (exCluster c) opts m w = (Inr m', w')"
    then have eq: "m' = exMerge (exHeld c w (exId m)) m" "w' = exStore c (exId m) (Some m') w"
      by (auto simp: exCluster_def)
    show "exHeld c w' = (exHeld c w)(identity ex_am m \<mapsto> m')" by (simp add: eq(2) exHeld_store exId_def)
    show "identity ex_am m' = identity ex_am m" using exMerge_laws(1) unfolding eq(1) exId_def .
    show "applied (m k) (m' k)" for k unfolding eq(1) by (rule exMerge_laws(2))
  next
    fix opts m w m' w'
    assume "cl_StatusPatchApply (exCluster c) opts m w = (Inr m', w')"
    then obtain old where eq: "exHeld c w (exId m) = Some old" "m' = old(''status'' := m ''status'')"
      "w' = exStore c (exId m) (Some m') w"
      by (auto simp: exCluster_def split: option.splits)
    then show "exHeld c w' = (exHeld c w)(identity ex_am m \<mapsto> m')" and "applied (m ''status'') (m' ''status'')"
      and "\<exists>old. exHeld c w (identity ex_am m) = Some old \<and>
        (\<forall>k. k \<noteq> ''metadata'' \<and> k \<noteq> ''status'' \<longrightarrow> m' k = old k)"
      by (simp_all add: exHeld_store exId_def applied_same)
  qed
  show "identity_laws ex_am" by (rule ex_identity_laws)
qed

section \<open>The reconciler\<close>

definition exPushClient :: "(string, string) wrapper rest_config \<Rightarrow> (ex_pworld, ex_pworld client result) io" where
  "exPushClient cfg w =
     (case rc_Wrappers cfg of
        RotatingWrapper t # _ \<Rightarrow> (Inr (exCluster (connection (Some \<lparr>remote_GKECluster = Some (rt_ref t)\<rparr>))), w)
      | _ \<Rightarrow> (Inl (ErrorString ''no transport''), w))"

definition exGkePusher :: "(ex_pworld, (string, string) wrapper) DynamicResourceReconciler" where
  "exGkePusher = \<lparr>dr_LocalClient = exCluster None, dr_RemoteClient = exCluster None,
     dr_RemoteConfigProvider = gkeProvider exPushEnv, dr_GVK = exGVK, dr_Mode = ModePush,
     dr_Remote = \<lparr>rg_Cluster = [], rg_GVK = exGVK\<rparr>\<rparr>"

definition exClusters :: ex_clusters where
  "exClusters = (\<lambda>_. Map.empty)
     (None := [(exGVK, exObjKey) \<mapsto> exObject], Some (''p'', ''l'', ''other'', ''DNS'') := [(exGVK, exObjKey) \<mapsto> exObject])"

definition exPushWorld :: "ex_clusters \<Rightarrow> ex_pworld" where
  "exPushWorld objs = \<lparr>p_TokenSource = None, p_ContainerAPIEndpoint = [], p_Transport = None, p_ts = Some ''adc'',
     p_cache = [exKey \<mapsto> exEntry], p_ttl = 0, p_clusterTransport = None, \<dots> = objs\<rparr>"

definition exPushState :: "ex_clusters \<Rightarrow> (ex_pworld, (string, string) wrapper) sync_state" where
  "exPushState objs = \<lparr>ss_remoteClients = Some (newRemoteClientCache (gkeProvider exPushEnv)), ss_failures = None,
     ss_gauges = (\<lambda>_. 0), ss_world = exPushWorld objs\<rparr>"

text \<open>The provider writes to no cluster.\<close>

lemma exPush_fetch: "snd (fetchCluster exPushEnv key ref ts w) = w"
  by (simp add: fetchCluster_def exPushEnv_def Let_def split: sum.split)

lemma exPush_cluster: "GKEConfigProvider.more (snd (cluster exPushEnv key ref ts w)) = GKEConfigProvider.more w"
  using exPush_fetch [of key ref ts w] by (auto simp: cluster_def split: option.split prod.split sum.split)

lemma exPush_token: "GKEConfigProvider.more (snd (tokenSource exPushEnv w)) = GKEConfigProvider.more w"
  by (simp add: tokenSource_def exPushEnv_def split: option.split)

lemma exPush_RESTConfig:
  "GKEConfigProvider.more (snd (GKE_RESTConfig exPushEnv ns remote w)) = GKEConfigProvider.more w"
proof -
  have "GKEConfigProvider.more w1 = GKEConfigProvider.more w" if "tokenSource exPushEnv w = (x, w1)" for x w1
    using exPush_token [of w] that by simp
  moreover have "GKEConfigProvider.more w2 = GKEConfigProvider.more w1"
    if "cluster exPushEnv key ref ts w1 = (x, w2)" for key ref ts w1 x w2
    using exPush_cluster [of key ref ts w1] that by simp
  ultimately show ?thesis by (auto simp: GKE_RESTConfig_def split: sum.splits prod.splits option.splits)
qed

text \<open>What is kept: clusters other than \<open>exRemote\<close> are not written to.\<close>

definition exOnly :: "ex_pworld \<Rightarrow> bool" where
  "exOnly w \<longleftrightarrow> exHeld (Some (''p'', ''l'', ''other'', ''DNS'')) w = [(exGVK, exObjKey) \<mapsto> exObject] \<and>
     exHeld None w = [(exGVK, exObjKey) \<mapsto> exObject]"

lemma exRemote_connection: "connection exRemote = Some (''p'', ''l'', ''c'', ''PrivateIP'')"
  by (simp add: connection_def exKey_name exRef_def effectiveEndpoint_def)

lemma exPush_connecting: "connecting_keeps (\<lambda>w. P (GKEConfigProvider.more w)) exPushClient (gkeProvider exPushEnv)"
  by (simp add: connecting_keeps_def gkeProvider_def exPush_RESTConfig exPushClient_def split: list.split wrapper.split)

lemma exOnly_connecting: "connecting_keeps exOnly exPushClient (gkeProvider exPushEnv)"
  using exPush_connecting unfolding exOnly_def exHeld_def .

lemma exOnly_client: "calls_keep exOnly (exCluster (connection exRemote))"
  unfolding exRemote_connection
  by (auto simp: calls_keep_def reads_keep_def exCluster_def exOnly_def exHeld_store split: option.split)

lemma exOnly_start: "exOnly (ss_world (exPushState exClusters))"
  by (simp add: exOnly_def exPushState_def exPushWorld_def exHeld_def exClusters_def)

lemma exPush_built:
  assumes "builtFor (gkeProvider exPushEnv) exPushClient ns r cl"
  shows "cl = exCluster (connection r)"
proof -
  obtain w cfg w1 w2 where cfg: "GKE_RESTConfig exPushEnv ns r w = (Inr cfg, w1)" and cl: "exPushClient cfg w1 = (Inr cl, w2)"
    using assms by (auto simp: builtFor_def gkeProvider_def)
  from RESTConfig_Inr [OF cfg] obtain key ref ts t and cfg0 :: "(string, string) wrapper rest_config" where
    r: "gkeClusterOf r = Some ref" "rt_update exPushEnv w1 cfg0 (newRotatingTransport key ref ts) = (None, t)"
      "rc_Wrappers cfg = [RotatingWrapper t, TokenSourceWrapper ts]" by auto
  have "rt_ref t = ref" using rt_update_None(5) [OF r(2)] by (simp add: newRotatingTransport_def)
  with cl r(1,3) show ?thesis by (simp add: exPushClient_def connection_def gkeClusterOf_def)
qed


section \<open>A push that succeeds\<close>

lemma exPush_config:
  "\<exists>cfg. GKE_RESTConfig exPushEnv ns exRemote (exPushWorld objs) = (Inr cfg, (exPushWorld objs)) \<and>
     fst (exPushClient cfg (exPushWorld objs)) = Inr (exCluster (connection exRemote)) \<and> snd (exPushClient cfg (exPushWorld objs)) = (exPushWorld objs)"
proof -
  have world: "p_ts (exPushWorld objs) = Some ''adc''" "p_cache (exPushWorld objs) exKey = Some exEntry" "p_clusterTransport (exPushWorld objs) = None"
    "clusterTTL (exPushWorld objs) = 600000000000" "now exPushEnv (exPushWorld objs) = 5"
    by (simp_all add: exPushWorld_def clusterTTL_def gkeClusterTTL_def now_def exPushEnv_def)
  have ts: "tokenSource exPushEnv (exPushWorld objs) = (Inr ''adc'', (exPushWorld objs))"
    by (simp add: tokenSource_def world)
  have cl: "cluster exPushEnv exKey exRef ''adc'' (exPushWorld objs) = (Inr exampleCluster, (exPushWorld objs))"
    by (simp add: cluster_def cacheFresh_def world exEntry_def)
  have tr: "newClusterTransport exPushEnv (exPushWorld objs) ''ca'' = Inr ''tls:ca''"
    by (simp add: newClusterTransport_def world) (simp add: exPushEnv_def)
  have "fst (exPushClient exConfig (exPushWorld objs)) = Inr (exCluster (connection exRemote))"
    "snd (exPushClient exConfig (exPushWorld objs)) = (exPushWorld objs)"
    by (simp_all add: exPushClient_def exConfig_def exTransport_def exRemote_def)
  moreover have "GKE_RESTConfig exPushEnv ns exRemote (exPushWorld objs) = (Inr exConfig, (exPushWorld objs))"
    by (simp add: GKE_RESTConfig_def exKey_name ts cl exRef_endpoint exampleCluster_config
        rt_update_def ex_url newRotatingTransport_def tr exConfig_def exTransport_def)
  ultimately show ?thesis by blast
qed

lemma exPush_get:
  "\<exists>c'. remoteClientCache_get exPushClient ns exRemote (newRemoteClientCache (gkeProvider exPushEnv), (exPushWorld objs))
     = (Inr (exCluster (connection exRemote)), c', (exPushWorld objs))"
proof -
  obtain k where k: "GKE_Key ns exRemote = Inr k" using GKE_Key_plain [OF plainRemote_ex exKey_name(2)] by blast
  obtain cfg where "GKE_RESTConfig exPushEnv ns exRemote (exPushWorld objs) = (Inr cfg, (exPushWorld objs))"
    "exPushClient cfg (exPushWorld objs) = (Inr (exCluster (connection exRemote)), (exPushWorld objs))"
    using exPush_config by (metis prod.collapse)
  with k show ?thesis by (simp add: remoteClientCache_get_def newRemoteClientCache_def gkeProvider_def)
qed

lemma exPush_sync: "\<exists>w'. syncToDestination ex_am exGVK k [''spec''] exObject (exCluster c) w = (None, w')"
proof -
  obtain dest where dest: "filterFields ex_am exObject [''spec''] = Inr dest"
    using filterFields_total [OF ex_unstructured_laws, of "[''spec'']" exObject] by (auto simp: syncFieldEnum_def)
  let ?obj = "prepareForDestination ex_am dest"
  have "?obj ''status'' = selectedStatus exObject (set [''spec''])"
    using prepared_object [OF ex_unstructured_laws _ _ dest refl] exObject_facts by (simp add: syncFieldEnum_def)
  then have "NestedFieldCopy ex_am ?obj [''status''] = Inr None"
    using ex_unstructured_laws by (simp add: selectedStatus_def split: option.split)
  then have "\<exists>w'. patchObject ex_am (exCluster c) ?obj w1 = (None, w')" for w1
    by (simp add: patchObject_def exCluster_def)
  then have "\<exists>w'. applyToDestination ex_am (exCluster c) ?obj w = (None, w')"
    by (simp add: applyToDestination_def ensureNamespace_def exCluster_def)
  with dest show ?thesis by (simp add: syncToDestination_def Let_def isFullSync_iff)
qed

lemma exGkePusher_fields: "dr_Mode exGkePusher = ModePush" "dr_GVK exGkePusher = exGVK"
  "dr_LocalClient exGkePusher = exCluster None" "dr_RemoteClient exGkePusher = exCluster None"
  by (simp_all add: exGkePusher_def)

lemma exPushState_fields:
  "ss_remoteClients (exPushState objs) = Some (newRemoteClientCache (gkeProvider exPushEnv))"
  "ss_world (exPushState objs) = exPushWorld objs" "exHeld c (exPushWorld objs) = objs c"
  by (simp_all add: exPushState_def exHeld_def exPushWorld_def)

lemma exPush_filled: "filled_cache plainRemote (gkeProvider exPushEnv) exPushClient (ss_remoteClients (exPushState objs))"
  using cache_reachable.fresh by (simp add: filled_cache_def exPushState_fields)

lemma exPush_read:
  "readSource ex_am exGkePusher exObjKey (exPushWorld objs) = (Inr (objs None (exGVK, exObjKey)), exPushWorld objs)"
  by (auto simp: readSource_def exGkePusher_fields exCluster_def exPushState_fields exNotFound_def ex_am_def ex_NotFound_def
      split: option.split)

lemma exPush_syncers: "cl_ListKRMSyncers (dr_LocalClient exGkePusher) w = (Inr [exPushSyncer], w)"
  by (simp add: exGkePusher_fields exCluster_def)

lemma exPush_applicable: "applicable exGkePusher exObjKey [exPushSyncer] = [(exPushSyncer, exRule [''spec''])]"
  by (simp add: applicable_def syncerApplies_def ruleApplies_def exGkePusher_fields exPushSyncer_def exRule_def
      syncerMode_def ruleMatchesGVK_def isKCCGlob_def exGVK_def exObjKey_def ModePush_def ModePull_def)

lemma exPush_remote: "spec_Remote (ks_Spec exPushSyncer) = exRemote"
  by (simp add: exPushSyncer_def)

text \<open>If carrying out the rule on the cluster succeeds, so does the reconcile.\<close>

lemma exPush_succeeds:
  assumes "carryOut ex_am exGVK exObjKey (objs None (exGVK, exObjKey)) exPushSyncer (exRule [''spec''])
    (exCluster (connection exRemote)) (exPushWorld objs) = (None, w')"
  shows "\<exists>s'. DynamicReconcile ex_am exPushClient exGkePusher exObjKey (exPushState objs) = (None, s')"
proof -
  obtain c' where "remoteClientCache_get exPushClient (ks_Namespace exPushSyncer) exRemote
      (newRemoteClientCache (gkeProvider exPushEnv), exPushWorld objs) = (Inr (exCluster (connection exRemote)), c', exPushWorld objs)"
    using exPush_get by blast
  with assms have "runRule ex_am exPushClient exGkePusher exObjKey (objs None (exGVK, exObjKey)) exPushSyncer (exRule [''spec''])
      (Some (newRemoteClientCache (gkeProvider exPushEnv)), exPushWorld objs) = (None, Some c', w')"
    by (simp add: runRule_def getRemoteClient_def exGkePusher_fields exPush_remote)
  then have "fst (DynamicReconcile ex_am exPushClient exGkePusher exObjKey (exPushState objs)) = None"
    unfolding reconcile_succeeds_iff
    by (simp add: exPush_read exPush_syncers exPush_applicable runRules_def exPushState_fields)
  then show ?thesis by (metis prod.collapse)
qed


text \<open>The widget is gone from the local cluster and still on the other ones.\<close>

definition exGoneClusters :: ex_clusters where
  "exGoneClusters = (\<lambda>_. [(exGVK, exObjKey) \<mapsto> exObject])(None := Map.empty)"


end
