(* ===== verification/SchemeInit.thy ===== *)
theory SchemeInit
  imports Machinery
begin

text \<open>
  The registration of the API types: \<^verbatim>\<open>groupversion_info.go\<close>, the \<^verbatim>\<open>init\<close> function of \<^verbatim>\<open>krmsyncer_types.go\<close> and
  that of \<^verbatim>\<open>syncer/main.go\<close>. The scheme and its builder are code of apimachinery and controller-runtime
  and parameters here. Go initialises a package after the packages it imports, and within a package the
  variables before the \<^verbatim>\<open>init\<close> functions, so the types are registered before \<^verbatim>\<open>main\<close> asks for them; and
  \<^verbatim>\<open>AddToScheme\<close> is bound to the pointer, so it sees what is registered after it was bound.
\<close>

record GroupVersionOf =
  gv_Group :: string
  gv_Version :: string

definition GroupVersion :: GroupVersionOf where
  "GroupVersion = \<lparr>gv_Group = ''syncer.gkelabs.io'', gv_Version = ''v1alpha1''\<rparr>"

text \<open>A type is registered by its name.\<close>

record ('b, 's) scheme_env =
  se_Builder :: "GroupVersionOf \<Rightarrow> 'b"
  se_Register :: "string list \<Rightarrow> 'b \<Rightarrow> 'b"
  se_AddToScheme :: "'b \<Rightarrow> 's \<Rightarrow> 's result"
  se_NewScheme :: 's
  se_clientgo_AddToScheme :: "'s \<Rightarrow> 's result"

definition SchemeBuilder :: "('b, 's) scheme_env \<Rightarrow> 'b" where
  "SchemeBuilder env = se_Builder env GroupVersion"

definition init_types :: "('b, 's) scheme_env \<Rightarrow> 'b \<Rightarrow> 'b" where
  "init_types env = se_Register env [''KRMSyncer'', ''KRMSyncerList'']"

text \<open>\<^verbatim>\<open>init\<close> of the main package: the scheme, or the error with which \<^verbatim>\<open>utilruntime.Must\<close> panics.\<close>

definition init_main :: "('b, 's) scheme_env \<Rightarrow> 'b \<Rightarrow> 's \<Rightarrow> 's result" where
  "init_main env builder scheme =
     (case se_clientgo_AddToScheme env scheme of
        Inl e \<Rightarrow> Inl e
      | Inr scheme1 \<Rightarrow> se_AddToScheme env builder scheme1)"

definition initialised_scheme :: "('b, 's) scheme_env \<Rightarrow> 's result" where
  "initialised_scheme env = init_main env (init_types env (SchemeBuilder env)) (se_NewScheme env)"

text \<open>What is documented of the builder and of a scheme: a builder registers the types it was given under
  its group and version, adding keeps the kinds a scheme has, and only adding a kind twice for
  different types fails. \<open>kinds\<close> are the kinds a scheme knows.\<close>

definition scheme_laws ::
  "('b, 's) scheme_env \<Rightarrow> ('b \<Rightarrow> GroupVersionKind set) \<Rightarrow> ('s \<Rightarrow> GroupVersionKind set) \<Rightarrow> bool" where
  "scheme_laws env registered kinds \<longleftrightarrow>
     (\<forall>gv. registered (se_Builder env gv) = {}) \<and>
     (\<forall>gv names. registered (se_Register env names (se_Builder env gv))
        = {\<lparr>gvk_Group = gv_Group gv, gvk_Version = gv_Version gv, gvk_Kind = n\<rparr> | n. n \<in> set names}) \<and>
     (\<forall>b s. kinds s \<inter> registered b = {} \<longrightarrow>
        (\<exists>s'. se_AddToScheme env b s = Inr s' \<and> kinds s' = kinds s \<union> registered b))"

text \<open>The process knows its own kinds: if client-go's scheme can be built and does not have the group
  already, the start does not panic and the scheme has both kinds besides those of client-go.\<close>

theorem scheme_knows_the_api:
  assumes laws: "scheme_laws env registered kinds"
    and clientgo: "se_clientgo_AddToScheme env (se_NewScheme env) = Inr s" "\<forall>g \<in> kinds s. gvk_Group g \<noteq> ''syncer.gkelabs.io''"
  shows "\<exists>s'. initialised_scheme env = Inr s' \<and> kinds s' = kinds s \<union>
    {\<lparr>gvk_Group = ''syncer.gkelabs.io'', gvk_Version = ''v1alpha1'', gvk_Kind = ''KRMSyncer''\<rparr>,
     \<lparr>gvk_Group = ''syncer.gkelabs.io'', gvk_Version = ''v1alpha1'', gvk_Kind = ''KRMSyncerList''\<rparr>}"
proof -
  let ?b = "init_types env (SchemeBuilder env)"
  have reg: "registered ?b = {\<lparr>gvk_Group = ''syncer.gkelabs.io'', gvk_Version = ''v1alpha1'', gvk_Kind = ''KRMSyncer''\<rparr>,
     \<lparr>gvk_Group = ''syncer.gkelabs.io'', gvk_Version = ''v1alpha1'', gvk_Kind = ''KRMSyncerList''\<rparr>}"
    (is "_ = ?kinds")
  proof -
    have "registered (se_Register env names (se_Builder env gv))
        = {\<lparr>gvk_Group = gv_Group gv, gvk_Version = gv_Version gv, gvk_Kind = n\<rparr> | n. n \<in> set names}" for gv names
      using laws by (simp only: scheme_laws_def)
    then have "registered ?b = {\<lparr>gvk_Group = ''syncer.gkelabs.io'', gvk_Version = ''v1alpha1'', gvk_Kind = n\<rparr> | n.
        n \<in> set [''KRMSyncer'', ''KRMSyncerList'']}"
      by (simp only: init_types_def SchemeBuilder_def GroupVersion_def GroupVersionOf.simps)
    also have "\<dots> = ?kinds" by (simp only: list.set) blast
    finally show ?thesis .
  qed
  have "\<forall>g \<in> registered ?b. gvk_Group g = ''syncer.gkelabs.io''"
    by (simp only: reg ball_simps insert_iff empty_iff GroupVersionKind.simps simp_thms)
  with clientgo(2) have "kinds s \<inter> registered ?b = {}" by blast
  moreover have "kinds s \<inter> registered ?b = {} \<longrightarrow>
      (\<exists>s'. se_AddToScheme env ?b s = Inr s' \<and> kinds s' = kinds s \<union> registered ?b)"
    by (rule laws [unfolded scheme_laws_def, THEN conjunct2, THEN conjunct2, THEN spec, THEN spec])
  ultimately obtain s' where s': "se_AddToScheme env ?b s = Inr s'" "kinds s' = kinds s \<union> registered ?b"
    by (elim impE exE conjE)
  have "initialised_scheme env = Inr s'"
    unfolding initialised_scheme_def init_main_def clientgo(1) sum.case s'(1) ..
  then show ?thesis
  proof (intro exI conjI)
    show "kinds s' = kinds s \<union>
        {\<lparr>gvk_Group = ''syncer.gkelabs.io'', gvk_Version = ''v1alpha1'', gvk_Kind = ''KRMSyncer''\<rparr>,
         \<lparr>gvk_Group = ''syncer.gkelabs.io'', gvk_Version = ''v1alpha1'', gvk_Kind = ''KRMSyncerList''\<rparr>}"
      unfolding s'(2) reg ..
  qed
qed

end
