(* ===== verification/Spec2Isabelle.thy ===== *)
theory Spec2Isabelle
  imports ExampleGke ExampleCluster ExampleSyncer ExampleExport ExampleDeepCopy ExampleLookups ExampleConfinement ExamplePush SchemeInit
begin

text \<open>
  kube-etl: a controller that keeps Kubernetes objects of two clusters in sync (\<^verbatim>\<open>src/syncer\<close>), and an
  exporter that writes the objects of a cluster to a zip file (\<^verbatim>\<open>src/pkg\<close>).

  \<^bold>\<open>The program.\<close> A \<^verbatim>\<open>KRMSyncer\<close> (\<^verbatim>\<open>api/v1alpha1/krmsyncer_types.go\<close>) names rules, a mode and a remote cluster.
  \<^verbatim>\<open>KRMSyncerReconciler\<close> (\<^verbatim>\<open>controllers/krmsyncer_controller.go\<close>) handles the KRMSyncers: it expands their
  rules to kinds and starts one dynamic controller per kind, in pull mode on the caches of the remote
  cluster, in push mode on the local ones. \<^verbatim>\<open>DynamicResourceReconciler\<close> (same file) handles the objects of
  one kind: it reads the object on the source, collects the rules of all KRMSyncers that apply, and for
  each of them writes the selected fields to the destination or deletes the object there. Failing
  objects are counted in \<^verbatim>\<open>controllers/metrics.go\<close>. Connections to GKE clusters come from
  \<^verbatim>\<open>GKEConfigProvider\<close> (\<^verbatim>\<open>controllers/remote_cluster.go\<close>), which looks up the endpoint and CA of a cluster
  and caches them; the transport of a connection (\<^verbatim>\<open>controllers/rotating_transport.go\<close>) looks them up
  again for every request, so that it follows a rotation; clients for push mode are shared by
  connection (\<^verbatim>\<open>controllers/remote_clients.go\<close>). \<^verbatim>\<open>syncer/main.go\<close> starts the process. The exporter
  (\<^verbatim>\<open>pkg/export/export.go\<close>) lists all resources and writes each object through the interface
  \<^verbatim>\<open>Sink\<close> (\<^verbatim>\<open>pkg/sink\<close>).

  \<^bold>\<open>Conventions.\<close> A Go function that returns a value and an error is a function into \<open>'a result\<close>, with
  \<open>Inl\<close> the error; one that only returns an error gives \<open>goerror option\<close>. Calls that act on something
  outside (an API server, an HTTP server) pass a world \<open>'w\<close> along: \<open>('w, 'a) io\<close> is \<open>'w \<Rightarrow> 'a \<times> 'w\<close>. Objects
  whose methods change them are records passed along, a nil pointer is \<open>None\<close>. Loops that collect errors are \<open>fold\<close>s
  over a state with the list of errors. Strings are lists of characters, taken as bytes.
  Durations and times are integers (nanoseconds). Logging is left out everywhere.

  \<^bold>\<open>Theories.\<close>
  \<^item> \<open>Prelude\<close>: results, errors and \<^verbatim>\<open>errors.Join\<close>; loops that collect errors against one pass over all
    elements (\<open>run_all\<close>).
  \<^item> \<open>GoStd\<close>, \<open>GoUrl\<close>, \<open>GoPath\<close>, \<open>GoJson\<close>: the functions of Go's standard library that are used (strings,
    base64, net/url, path/filepath, and the decoder of encoding/json with its scanner), with the round
    trips the rest needs.
  \<^item> \<open>GoMemory\<close>: memory with addresses and slices, and the contract of a deep copy, a locale; \<open>DeepCopy\<close>:
    \<^verbatim>\<open>zz_generated.deepcopy.go\<close>, every function of which is shown to keep the contract. \<open>HeapTyping\<close>: types of
    memory cells and the contract of a copy that respects them, a locale; \<open>DeepCopyTyping\<close>: the types of the
    API structs in memory, and that the deep copies are type sound.
  \<^item> \<open>ApiTypes\<close>: \<^verbatim>\<open>krmsyncer_types.go\<close>.
  \<^item> \<open>Machinery\<close>: Kubernetes objects as JSON values; what \<^verbatim>\<open>k8s.io/apimachinery\<close> and the client of
    controller-runtime do is the parameter records \<open>apimachinery\<close> and \<open>client\<close>, with laws
    (\<open>unstructured_laws\<close>, \<open>error_laws\<close>) that state their documented behaviour.
  \<^item> \<open>FailureTracker\<close>: \<^verbatim>\<open>metrics.go\<close>, trackers over a store of gauges, and the reachable states of any
    number of trackers.
  \<^item> \<open>Rules\<close>: \<^verbatim>\<open>validateRule\<close>, \<^verbatim>\<open>expandRule\<close>, \<^verbatim>\<open>ruleMatchesGVK\<close>.
  \<^item> \<open>DynamicSync\<close>: \<^verbatim>\<open>filterFields\<close>, \<^verbatim>\<open>destinationExists\<close>, \<^verbatim>\<open>applyToDestination\<close>.
  \<^item> \<open>RemoteProvider\<close>: the interface \<^verbatim>\<open>RemoteConfigProvider\<close> with its contract, a locale.
  \<^item> \<open>GkeCluster\<close>: names, keys, endpoints and URLs of GKE clusters.
  \<^item> \<open>GetCache\<close>: the contract of a cache that is filled on demand, a locale; \<open>GkeProvider\<close> interprets it for the
    token sources and the clusters of \<^verbatim>\<open>GKEConfigProvider\<close>, \<open>RemoteClients\<close> for \<^verbatim>\<open>remote_clients.go\<close>,
    \<open>SyncerReconcile\<close> for the remote clusters.
  \<^item> \<open>ConcurrentLookups\<close>: calls of \<^verbatim>\<open>GKEConfigProvider.cluster\<close> by several goroutines, which interleave because
    the mutex is not held during a fetch.
  \<^item> \<open>RotatingTransport\<close>: \<^verbatim>\<open>rotating_transport.go\<close> and \<^verbatim>\<open>GKEConfigProvider.RESTConfig\<close>; the transports
    reachable by any sequence of requests while clusters change.
  \<^item> \<open>DynamicReconcile\<close>: \<^verbatim>\<open>DynamicResourceReconciler.Reconcile\<close>.
  \<^item> \<open>ApiServer\<close>: an abstract API server with server-side apply, and the refinement of the abstract sync.
  \<^item> \<open>Confinement\<close>: what a reconcile may do at all, failures included, in both modes: calls about the object of
    the event only, and, for rules that sync parts of an object, no new objects.
  \<^item> \<open>PushRouting\<close>, \<open>PushDelivery\<close>: \<^verbatim>\<open>Reconcile\<close> in push mode together with the client cache and the GKE provider: which
    clusters are written to, and what each of them stores afterwards.
  \<^item> \<open>SyncerReconcile\<close>: \<^verbatim>\<open>KRMSyncerReconciler\<close> with its setup of controllers and clusters, and the
    reachable states of the reconciler; \<open>Manager\<close>: \<^verbatim>\<open>run\<close> of \<^verbatim>\<open>syncer/main.go\<close>, and the reconciler after any
    number of reconciles; \<open>SchemeInit\<close>: \<^verbatim>\<open>groupversion_info.go\<close> and the \<^verbatim>\<open>init\<close> functions.
  \<^item> \<open>Sink\<close>, \<open>Export\<close>: \<^verbatim>\<open>sink.go\<close> with the contract of a sink, \<^verbatim>\<open>zip.go\<close>, \<^verbatim>\<open>RunExport\<close> of \<^verbatim>\<open>export.go\<close>;
    \<open>Command\<close>: \<^verbatim>\<open>BuildExportCommand\<close> and \<^verbatim>\<open>main.go\<close>, the command line and the exit status.
  \<^item> \<open>ExampleMachinery\<close>, \<open>ExampleGke\<close>, \<open>ExampleLookups\<close>, \<open>ExampleCluster\<close>, \<open>ExampleSyncer\<close>,
    \<open>ExampleExport\<close>, \<open>ExampleDeepCopy\<close>, \<open>ExampleConfinement\<close>, \<open>ExamplePush\<close>: concrete
    environments that satisfy the laws, at which the theorems are applied.

  \<^bold>\<open>What is shown.\<close> The dynamic reconciler never writes to the source, tries every applicable rule once
  and returns exactly the errors (\<open>DynamicReconcile\<close>); what a rule sends is exactly its selection, and after
  a successful reconcile the destination has the selected fields and is otherwise unchanged, or, when the object is gone from the source,
  does not have it any more (\<open>DynamicSync\<close>, \<open>ApiServer\<close>), in push mode for every cluster that a KRMSyncer names (\<open>PushDelivery\<close>); whatever happens, it touches no other object, and partial syncs create
  none (\<open>Confinement\<close>), and a push reaches only the clusters that its KRMSyncers name (\<open>PushRouting\<close>); the metric equals the number of failing objects
  (\<open>FailureTracker\<close>). A successful setup watches every kind of every rule, the watch selects the KRMSyncer it was
  started for, every watched cluster runs, and setup recovers from any failure (\<open>SyncerReconcile\<close>). The transport is always the
  one for the recorded CA, follows rotations, survives outages, and connections trust exactly the CA of
  the cluster (\<open>GkeCluster\<close>, \<open>RotatingTransport\<close>, \<open>RemoteClients\<close>). An answer of the GKE API is read whole or
  not at all (\<open>GkeProvider\<close>), and lookups that run at the same time do not mix up clusters, though an older answer can
  replace a newer one (\<open>ConcurrentLookups\<close>, \<open>ExampleLookups\<close>). Deep copies have the same value as the original and share
  nothing with it (\<open>DeepCopy\<close>), and keep the memory well typed (\<open>DeepCopyTyping\<close>). An export that exits with zero has exactly the objects
  of the cluster, and failing objects do not cost others (\<open>Command\<close>, \<open>Export\<close>). The flags of the syncer reach every
  controller it ever starts (\<open>Manager\<close>).

  \<^bold>\<open>Parameters.\<close> Code that is not in the repository is an argument of the definitions: the unstructured
  helpers and error predicates (\<open>apimachinery\<close>), clients (\<open>client\<close>), discovery, clusters and controller
  builder of controller-runtime (\<open>ctrl_env\<close>, \<open>manager_env\<close>), HTTP, OAuth and TLS for GKE (\<open>genv\<close>), the deep copies of metadata
  (\<open>meta_env\<close>), the clients and YAML encoder of the exporter (\<open>export_env\<close>), cobra (\<open>cobra_laws\<close>) and the scheme (\<open>scheme_env\<close>). Hypotheses about them
  are named laws, and the example theories show that they can hold. All recursion is structural
  or over finite lists, so no fuel is needed. The bounds are those of the code: a mebibyte for an answer of the GKE
  API, 256 bytes for an error message, and the nesting depth of ten thousand of the JSON decoder.

  \<^bold>\<open>Not modelled.\<close> The registration of gauges with Prometheus; the parsing of the syncer's flags by pflag, whose
  values \<open>run\<close> starts from, and of the exporter's by cobra beyond the command lines of \<open>cobra_laws\<close>; logging; the wording of the errors of encoding/json; manifests and scripts. Of the
  concurrency, what is done under a lock is one step: the operations of the transport, the tracker and
  the client cache interleave as whole calls, and lookups of clusters at their three steps.
\<close>

end
